(* ===== verification/Kb_Prelude.thy ===== *)
theory Kb_Prelude
  imports Main
begin

text \<open>
  Shared vocabulary of the KnowledgeBrain development.  Rust's \<^verbatim>\<open>Result<T, E>\<close> is the sum type
  \<open>'e + 'a\<close> (\<open>Inl\<close> the error) and \<^verbatim>\<open>?\<close> is \<open>rbind\<close>; identifiers (\<^verbatim>\<open>Uuid\<close>), timestamps and
  database text are named by type synonyms.  The collections \<open>result_simps\<close> (how a chain of
  \<^verbatim>\<open>?\<close> can succeed) and \<open>table_simps\<close> (facts about tables kept as lists of rows) carry the
  proofs of the components.
\<close>

named_theorems result_simps \<open>inversion of successful \<open>rbind\<close> chains\<close>
named_theorems table_simps \<open>row lookups, updates and deletions on tables kept as lists\<close>

type_synonym uuid = nat
type_synonym timestamp = int
type_synonym db_text = string

datatype db_error = RowNotFound | Protocol string | ConstraintViolation string

type_synonym 'a db_result = "db_error + 'a"

subsection \<open>Early return on error\<close>

definition rbind :: "'e + 'a \<Rightarrow> ('a \<Rightarrow> 'e + 'b) \<Rightarrow> 'e + 'b" where
  "rbind m f = (case m of Inl e \<Rightarrow> Inl e | Inr x \<Rightarrow> f x)"

definition require :: "bool \<Rightarrow> 'e \<Rightarrow> 'e + unit" where
  "require b e = (if b then Inr () else Inl e)"

lemma rbind_simps [simp]:
  "rbind (Inl e) f = Inl e"
  "rbind (Inr x) f = f x"
  by (simp_all add: rbind_def)

lemma rbind_eq_Inr [result_simps]: "rbind m f = Inr y \<longleftrightarrow> (\<exists>x. m = Inr x \<and> f x = Inr y)"
  by (cases m) simp_all

lemma rbind_eq_Inl: "rbind m f = Inl e \<longleftrightarrow> m = Inl e \<or> (\<exists>x. m = Inr x \<and> f x = Inl e)"
  by (cases m) auto

lemma require_eq_Inr [result_simps]: "require b e = Inr u \<longleftrightarrow> b"
  by (simp add: require_def)

lemma require_True [simp]: "require True e = Inr ()"
  and require_False [simp]: "require False e = Inl e"
  by (simp_all add: require_def)

definition fetch_one :: "'a option \<Rightarrow> 'a db_result" where
  "fetch_one row = (case row of None \<Rightarrow> Inl RowNotFound | Some x \<Rightarrow> Inr x)"

lemma fetch_one_eq_Inr [result_simps]: "fetch_one row = Inr x \<longleftrightarrow> row = Some x"
  by (cases row) (simp_all add: fetch_one_def)

lemma fetch_one_simps [simp]:
  "fetch_one None = Inl RowNotFound"
  "fetch_one (Some x) = Inr x"
  by (simp_all add: fetch_one_def)

subsection \<open>Decimal text\<close>

text \<open>The \<^verbatim>\<open>Display\<close> of Rust's integers, and the value a run of digits denotes.\<close>

definition digit_char :: "nat \<Rightarrow> char" where
  "digit_char n = char_of (48 + n)"

definition digit_value :: "char \<Rightarrow> nat" where
  "digit_value c = of_char c - 48"

fun nat_to_dec :: "nat \<Rightarrow> string" where
  "nat_to_dec n = (if n < 10 then [digit_char n] else nat_to_dec (n div 10) @ [digit_char (n mod 10)])"

declare nat_to_dec.simps [simp del]

definition int_to_dec :: "int \<Rightarrow> string" where
  "int_to_dec i = (if i < 0 then CHR ''-'' # nat_to_dec (nat (- i)) else nat_to_dec (nat i))"

definition dec_value :: "string \<Rightarrow> nat" where
  "dec_value ds = foldl (\<lambda>n c. 10 * n + digit_value c) 0 ds"

lemma digit_value_digit_char [simp]: "n < 10 \<Longrightarrow> digit_value (digit_char n) = n"
  by (simp add: digit_value_def digit_char_def)

lemma dec_value_snoc [simp]: "dec_value (ds @ [c]) = 10 * dec_value ds + digit_value c"
  by (simp add: dec_value_def)

lemma dec_value_nat_to_dec [simp]: "dec_value (nat_to_dec n) = n"
proof (induction n rule: nat_to_dec.induct)
  case (1 n)
  then show ?case
    by (subst nat_to_dec.simps) (simp add: dec_value_def [of "[c]" for c])
qed

lemma nat_to_dec_inject [simp]: "nat_to_dec m = nat_to_dec n \<longleftrightarrow> m = n"
  by (metis dec_value_nat_to_dec)

subsection \<open>Tables as lists of rows\<close>

definition exists_row :: "('r \<Rightarrow> bool) \<Rightarrow> 'r list \<Rightarrow> bool" where
  "exists_row P rows \<longleftrightarrow> list_ex P rows"

definition delete_rows :: "('r \<Rightarrow> bool) \<Rightarrow> 'r list \<Rightarrow> 'r list" where
  "delete_rows P rows = filter (\<lambda>r. \<not> P r) rows"

definition update_rows :: "('r \<Rightarrow> bool) \<Rightarrow> ('r \<Rightarrow> 'r) \<Rightarrow> 'r list \<Rightarrow> 'r list" where
  "update_rows P f rows = map (\<lambda>r. if P r then f r else r) rows"

lemma exists_row_iff [table_simps]: "exists_row P rows \<longleftrightarrow> (\<exists>r\<in>set rows. P r)"
  by (simp add: exists_row_def list_ex_iff)

lemma set_delete_rows [table_simps]: "set (delete_rows P rows) = {r \<in> set rows. \<not> P r}"
  by (auto simp: delete_rows_def)

lemma set_update_rows [table_simps]:
  "set (update_rows P f rows) = (\<lambda>r. if P r then f r else r) ` set rows"
  by (simp add: update_rows_def)

lemma find_Some_in_set: "find P rows = Some r \<Longrightarrow> r \<in> set rows \<and> P r"
  by (induction rows) (auto split: if_splits)

lemma find_row_exists: "r \<in> set rows \<Longrightarrow> P r \<Longrightarrow> \<exists>s. find P rows = Some s"
  by (induction rows) auto

lemma find_unique_row:
  assumes "r \<in> set rows" and "P r" and uniq: "\<And>s. s \<in> set rows \<Longrightarrow> P s \<Longrightarrow> s = r"
  shows "find P rows = Some r"
proof -
  from assms(1,2) have "find P rows \<noteq> None" by (auto simp: find_None_iff)
  then obtain s where s: "find P rows = Some s" by auto
  then have "s = r" using uniq find_Some_in_set [OF s] by blast
  with s show ?thesis by simp
qed

text \<open>An update that keeps the key column commutes with a lookup by key.\<close>

lemma find_update_rows:
  assumes "\<And>r. k (f r) = k r"
  shows "find (\<lambda>r. k r = x) (update_rows P f rows)
         = map_option (\<lambda>r. if P r then f r else r) (find (\<lambda>r. k r = x) rows)"
  by (induction rows) (simp_all add: update_rows_def assms)

lemma map_update_rows:
  assumes "\<And>r. k (f r) = k r"
  shows "map k (update_rows P f rows) = map k rows"
  by (simp add: update_rows_def assms comp_def if_distrib)

subsection \<open>Invariants of step relations\<close>

text \<open>
  A component with state is a start state and a step relation (one rule per operation that
  commits).  What every step keeps holds in every state the component can reach, and a property
  that steps never destroy stays true whatever else is interleaved.
\<close>

locale transition_invariant =
  fixes init :: 's and step :: "'s \<Rightarrow> 's \<Rightarrow> bool" and inv :: "'s \<Rightarrow> bool"
  assumes inv_init: "inv init"
    and inv_step: "step s t \<Longrightarrow> inv s \<Longrightarrow> inv t"
begin

lemma inv_steps: "step\<^sup>*\<^sup>* s t \<Longrightarrow> inv s \<Longrightarrow> inv t"
  by (induction rule: rtranclp_induct) (auto intro: inv_step)

lemma inv_reachable: "step\<^sup>*\<^sup>* init s \<Longrightarrow> inv s"
  using inv_steps inv_init by blast

text \<open>A property that every step from an invariant state keeps survives any interleaving.\<close>

lemma stable_steps:
  assumes stable: "\<And>s t. inv s \<Longrightarrow> step s t \<Longrightarrow> P s \<Longrightarrow> P t"
  shows "step\<^sup>*\<^sup>* s t \<Longrightarrow> inv s \<Longrightarrow> P s \<Longrightarrow> P t"
proof (induction rule: rtranclp_induct)
  case (step y z)
  then show ?case using inv_steps stable by blast
qed simp

end

end
