(* ===== verification/Status.thy ===== *)
theory Status
  imports Kb_Prelude
begin

text \<open>
  The status enumerations of \<^verbatim>\<open>crates/knowledge/src/status.rs\<close>.  Each enum is a datatype with the
  source's constructors (prefixed, since the enums share constructor names) and its \<^verbatim>\<open>as_str\<close>
  method.  Serde and sqlx (\<^verbatim>\<open>rename_all = "snake_case"\<close>) read exactly those strings back, with
  the two \<^verbatim>\<open>serde(alias)\<close> spellings of \<^verbatim>\<open>SpanStatus\<close>; the readers are the \<open>_of_str\<close> functions.
\<close>

datatype parse_status = PsPending | PsProcessing | PsFinalizing | PsCompleted
  | PsFailed | PsCancelled | PsDeleting | PsDeleted

fun parse_status_as_str :: "parse_status \<Rightarrow> string" where
  "parse_status_as_str PsPending = ''pending''"
| "parse_status_as_str PsProcessing = ''processing''"
| "parse_status_as_str PsFinalizing = ''finalizing''"
| "parse_status_as_str PsCompleted = ''completed''"
| "parse_status_as_str PsFailed = ''failed''"
| "parse_status_as_str PsCancelled = ''cancelled''"
| "parse_status_as_str PsDeleting = ''deleting''"
| "parse_status_as_str PsDeleted = ''deleted''"

datatype summary_status = SsNone | SsPending | SsProcessing | SsCompleted | SsFailed

fun summary_status_as_str :: "summary_status \<Rightarrow> string" where
  "summary_status_as_str SsNone = ''none''"
| "summary_status_as_str SsPending = ''pending''"
| "summary_status_as_str SsProcessing = ''processing''"
| "summary_status_as_str SsCompleted = ''completed''"
| "summary_status_as_str SsFailed = ''failed''"

datatype version_status = VsCloning | VsActive | VsArchived | VsFailed

fun version_status_as_str :: "version_status \<Rightarrow> string" where
  "version_status_as_str VsCloning = ''cloning''"
| "version_status_as_str VsActive = ''active''"
| "version_status_as_str VsArchived = ''archived''"
| "version_status_as_str VsFailed = ''failed''"

datatype enable_status = EsDisabled | EsEnabled

fun enable_status_as_str :: "enable_status \<Rightarrow> string" where
  "enable_status_as_str EsDisabled = ''disabled''"
| "enable_status_as_str EsEnabled = ''enabled''"

datatype wiki_status = WsDraft | WsPublished | WsArchived

fun wiki_status_as_str :: "wiki_status \<Rightarrow> string" where
  "wiki_status_as_str WsDraft = ''draft''"
| "wiki_status_as_str WsPublished = ''published''"
| "wiki_status_as_str WsArchived = ''archived''"

datatype outbox_state = ObPending | ObPublished | ObComplete | ObFailed

fun outbox_state_as_str :: "outbox_state \<Rightarrow> string" where
  "outbox_state_as_str ObPending = ''pending''"
| "outbox_state_as_str ObPublished = ''published''"
| "outbox_state_as_str ObComplete = ''complete''"
| "outbox_state_as_str ObFailed = ''failed''"

datatype semantic_index_intent_status = SiPending | SiCompleted | SiTerminal | SiSuperseded

fun semantic_index_intent_status_as_str :: "semantic_index_intent_status \<Rightarrow> string" where
  "semantic_index_intent_status_as_str SiPending = ''pending''"
| "semantic_index_intent_status_as_str SiCompleted = ''completed''"
| "semantic_index_intent_status_as_str SiTerminal = ''terminal''"
| "semantic_index_intent_status_as_str SiSuperseded = ''superseded''"

datatype support_state = Supported | Revoked

fun support_state_as_str :: "support_state \<Rightarrow> string" where
  "support_state_as_str Supported = ''supported''"
| "support_state_as_str Revoked = ''revoked''"

datatype span_status = SpPending | SpRunning | SpDone | SpFailed | SpSkipped | SpCancelled

fun span_status_as_str :: "span_status \<Rightarrow> string" where
  "span_status_as_str SpPending = ''pending''"
| "span_status_as_str SpRunning = ''running''"
| "span_status_as_str SpDone = ''done''"
| "span_status_as_str SpFailed = ''failed''"
| "span_status_as_str SpSkipped = ''skipped''"
| "span_status_as_str SpCancelled = ''cancelled''"

definition is_aborted :: "parse_status \<Rightarrow> bool" where
  "is_aborted s \<longleftrightarrow> s \<in> {PsCancelled, PsDeleting, PsDeleted}"

definition worker_should_exit :: "parse_status \<Rightarrow> bool" where
  "worker_should_exit s \<longleftrightarrow> s = PsCompleted \<or> is_aborted s"

datatype workspace_kind = ProductLine | Company

fun workspace_kind_as_str :: "workspace_kind \<Rightarrow> string" where
  "workspace_kind_as_str ProductLine = ''product_line''"
| "workspace_kind_as_str Company = ''company''"

definition workspace_kind_parse :: "string \<Rightarrow> workspace_kind" where
  "workspace_kind_parse s = (if s = ''company'' then Company else ProductLine)"

subsection \<open>Reading the wire values back\<close>

text \<open>
  \<^verbatim>\<open>#[derive(Deserialize, sqlx::Type)]\<close> accepts a value exactly when it is the wire name of a
  variant, tried in the order of the enum.
\<close>

definition decode_status :: "'s list \<Rightarrow> ('s \<Rightarrow> string) \<Rightarrow> string \<Rightarrow> 's option" where
  "decode_status variants as_str w = find (\<lambda>s. as_str s = w) variants"

definition parse_status_of_str :: "string \<Rightarrow> parse_status option" where
  "parse_status_of_str = decode_status
     [PsPending, PsProcessing, PsFinalizing, PsCompleted, PsFailed, PsCancelled, PsDeleting, PsDeleted]
     parse_status_as_str"

definition outbox_state_of_str :: "string \<Rightarrow> outbox_state option" where
  "outbox_state_of_str = decode_status [ObPending, ObPublished, ObComplete, ObFailed] outbox_state_as_str"

definition span_status_of_str :: "string \<Rightarrow> span_status option" where
  "span_status_of_str w =
     (if w = ''ok'' then Some SpDone
      else if w = ''error'' then Some SpFailed
      else decode_status [SpPending, SpRunning, SpDone, SpFailed, SpSkipped, SpCancelled] span_status_as_str w)"

text \<open>A codec: every variant is listed and has a wire name of its own.\<close>

locale status_codec =
  fixes variants :: "'s list" and as_str :: "'s \<Rightarrow> string"
  assumes complete: "s \<in> set variants"
    and inj: "inj as_str"
begin

lemma decode_as_str: "decode_status variants as_str (as_str s) = Some s"
  unfolding decode_status_def
  by (rule find_unique_row) (use complete inj in \<open>auto dest: injD\<close>)

lemma decode_unknown: "(\<And>s. as_str s \<noteq> w) \<Longrightarrow> decode_status variants as_str w = None"
  by (simp add: decode_status_def find_None_iff)

lemma decode_Some_iff: "decode_status variants as_str w = Some s \<longleftrightarrow> as_str s = w"
  using decode_as_str by (auto simp: decode_status_def dest: find_Some_in_set)

end

interpretation parse_codec: status_codec
  "[PsPending, PsProcessing, PsFinalizing, PsCompleted, PsFailed, PsCancelled, PsDeleting, PsDeleted]"
  parse_status_as_str
proof
  show "s \<in> set [PsPending, PsProcessing, PsFinalizing, PsCompleted, PsFailed, PsCancelled,
      PsDeleting, PsDeleted]" for s by (cases s) simp_all
  show "inj parse_status_as_str"
  proof (rule injI)
    fix a b show "parse_status_as_str a = parse_status_as_str b \<Longrightarrow> a = b"
      by (cases a; cases b) simp_all
  qed
qed

interpretation outbox_codec: status_codec "[ObPending, ObPublished, ObComplete, ObFailed]" outbox_state_as_str
proof
  show "s \<in> set [ObPending, ObPublished, ObComplete, ObFailed]" for s by (cases s) simp_all
  show "inj outbox_state_as_str"
  proof (rule injI)
    fix a b show "outbox_state_as_str a = outbox_state_as_str b \<Longrightarrow> a = b"
      by (cases a; cases b) simp_all
  qed
qed

interpretation span_codec: status_codec
  "[SpPending, SpRunning, SpDone, SpFailed, SpSkipped, SpCancelled]" span_status_as_str
proof
  show "s \<in> set [SpPending, SpRunning, SpDone, SpFailed, SpSkipped, SpCancelled]" for s
    by (cases s) simp_all
  show "inj span_status_as_str"
  proof (rule injI)
    fix a b show "span_status_as_str a = span_status_as_str b \<Longrightarrow> a = b"
      by (cases a; cases b) simp_all
  qed
qed

lemma span_status_not_alias: "span_status_as_str s \<noteq> ''ok''" "span_status_as_str s \<noteq> ''error''"
  by (cases s; simp)+

text \<open>
  The stored wire values of document, outbox and span states are read back as the state that
  was written, and a document status that is none of the eight names is rejected.
\<close>

lemma status_wire_roundtrip:
  "parse_status_of_str (parse_status_as_str p) = Some p
   \<and> outbox_state_of_str (outbox_state_as_str b) = Some b
   \<and> span_status_of_str (span_status_as_str s) = Some s
   \<and> (parse_status_of_str w = None \<longleftrightarrow> w \<notin> range parse_status_as_str)"
proof -
  have "parse_status_of_str w = None \<longleftrightarrow> w \<notin> range parse_status_as_str"
    unfolding parse_status_of_str_def decode_status_def find_None_iff
    using parse_codec.complete by (metis rangeE rangeI)
  then show ?thesis
    using span_status_not_alias [of s]
    by (simp add: parse_status_of_str_def outbox_state_of_str_def span_status_of_str_def
        parse_codec.decode_as_str outbox_codec.decode_as_str span_codec.decode_as_str)
qed

end
