(* ===== verification/Object_Registry.thy ===== *)
theory Object_Registry
  imports Kb_Prelude
begin

text \<open>
  The object registry of \<^verbatim>\<open>crates/platform/src/object_registry.rs\<close> and its \<^verbatim>\<open>lifecycle.rs\<close>: content
  addressed objects, the references that own them, staged uploads and the two-phase deletion of
  bytes nobody owns.  The five tables are the fields of \<open>registry\<close>; each Rust function is one
  definition that takes the tables (as seen inside its transaction) and returns the error or the
  new tables, so an error leaves the caller's tables unchanged, as the rollback does.
  The \<open>CHECK\<close> constraints and domains of
  \<^verbatim>\<open>migrations/20261028000001_shared_platform.sql\<close> are evaluated before an \<^verbatim>\<open>ON CONFLICT\<close> clause,
  as PostgreSQL does.  \<open>now\<close> is \<^verbatim>\<open>clock_timestamp()\<close> in microseconds.
\<close>

subsection \<open>Tables\<close>

datatype object_state = Available | Deleting | Deleted

record object_row =
  content_sha256 :: db_text
  media_type :: db_text
  byte_length :: int
  row_state :: object_state
  deleting_at :: "timestamp option"
  deleted_at :: "timestamp option"

type_synonym reference_row = "db_text \<times> db_text \<times> uuid \<times> db_text"
  \<comment> \<open>\<open>(object_ref, owner_kind, owner_id, occurrence)\<close>\<close>

record upload_row =
  up_id :: uuid
  up_ref :: db_text
  up_owner :: "uuid option"
  up_created_at :: timestamp
  up_expires_at :: timestamp

record deletion_identity =
  deletion_id :: uuid
  del_ref :: db_text
  del_digest :: db_text
  del_length :: int

record registry =
  objects :: "db_text \<rightharpoonup> object_row"
  references :: "reference_row list"
  uploads :: "upload_row list"
  requests :: "deletion_identity list"
  receipts :: "deletion_identity list"

definition empty_registry :: registry where
  "empty_registry = \<lparr>objects = Map.empty, references = [], uploads = [], requests = [], receipts = []\<rparr>"

subsection \<open>Column constraints\<close>

definition staging_kind :: db_text where
  "staging_kind = ''object_upload_staging''"

definition object_ref :: "db_text \<Rightarrow> db_text" where
  "object_ref hash = ''objects/'' @ hash"

definition is_lower_alnum :: "char \<Rightarrow> bool" where
  "is_lower_alnum c \<longleftrightarrow> c \<in> set ''abcdefghijklmnopqrstuvwxyz0123456789''"

definition is_sha256 :: "db_text \<Rightarrow> bool" where
  "is_sha256 s \<longleftrightarrow> length s = 64 \<and> list_all (\<lambda>c. c \<in> set ''0123456789abcdef'') s"

definition is_media_name :: "db_text \<Rightarrow> bool" where
  "is_media_name s \<longleftrightarrow> s \<noteq> [] \<and> length s \<le> 64 \<and> is_lower_alnum (hd s)
     \<and> list_all (\<lambda>c. is_lower_alnum c \<or> c \<in> set ''!#$&^_.+-'') (tl s)"

definition is_media_type :: "db_text \<Rightarrow> bool" where
  "is_media_type s \<longleftrightarrow>
     (let kind = takeWhile (\<lambda>c. c \<noteq> CHR ''/'') s; rest = dropWhile (\<lambda>c. c \<noteq> CHR ''/'') s
      in rest \<noteq> [] \<and> is_media_name kind \<and> is_media_name (tl rest))"

definition is_owner_kind :: "db_text \<Rightarrow> bool" where
  "is_owner_kind s \<longleftrightarrow> s \<noteq> [] \<and> length s \<le> 64
     \<and> hd s \<in> set ''abcdefghijklmnopqrstuvwxyz''
     \<and> list_all (\<lambda>c. is_lower_alnum c \<or> c \<in> set ''_.-'') (tl s)"

definition object_columns_ok :: "db_text \<Rightarrow> db_text \<Rightarrow> db_text \<Rightarrow> int \<Rightarrow> bool" where
  "object_columns_ok oref digest media len \<longleftrightarrow>
     is_sha256 digest \<and> oref = object_ref digest \<and> is_media_type media \<and> 0 \<le> len"

definition reference_columns_ok :: "db_text \<Rightarrow> db_text \<Rightarrow> bool" where
  "reference_columns_ok kind occ \<longleftrightarrow> is_owner_kind kind \<and> 1 \<le> length occ \<and> length occ \<le> 128"

subsection \<open>Row access\<close>

definition invalid :: "string \<Rightarrow> db_error" where
  "invalid message = Protocol message"

definition lock_object :: "registry \<Rightarrow> db_text \<Rightarrow> object_row db_result" where
  "lock_object r oref = fetch_one (objects r oref)"

definition check_object :: "object_row \<Rightarrow> db_text \<Rightarrow> db_text \<Rightarrow> int \<Rightarrow> unit db_result" where
  "check_object row digest media len =
     (if content_sha256 row \<noteq> digest \<or> media_type row \<noteq> media \<or> byte_length row \<noteq> len
         \<or> row_state row \<noteq> Available
      then Inl (invalid ''object registry identity mismatch or object unavailable'')
      else Inr ())"

definition load_deletion :: "registry \<Rightarrow> uuid \<Rightarrow> deletion_identity option" where
  "load_deletion r did = find (\<lambda>d. deletion_id d = did) (requests r)"

definition has_references :: "registry \<Rightarrow> db_text \<Rightarrow> bool" where
  "has_references r oref \<longleftrightarrow> exists_row (\<lambda>(o', k, i, c). o' = oref) (references r)"

definition find_upload :: "registry \<Rightarrow> uuid \<Rightarrow> upload_row option" where
  "find_upload r sid = find (\<lambda>u. up_id u = sid) (uploads r)"

subsection \<open>Adding and releasing references\<close>

text \<open>\<^verbatim>\<open>INSERT INTO platform_objects ... ON CONFLICT (object_ref) DO NOTHING\<close>\<close>

definition insert_object :: "registry \<Rightarrow> db_text \<Rightarrow> db_text \<Rightarrow> db_text \<Rightarrow> int \<Rightarrow> registry db_result" where
  "insert_object r oref digest media len =
     (if \<not> object_columns_ok oref digest media len then Inl (ConstraintViolation ''platform_objects'')
      else case objects r oref of
        Some row \<Rightarrow> Inr r
      | None \<Rightarrow> Inr (r\<lparr>objects := (objects r)(oref \<mapsto>
          \<lparr>content_sha256 = digest, media_type = media, byte_length = len,
           row_state = Available, deleting_at = None, deleted_at = None\<rparr>)\<rparr>))"

text \<open>
  \<^verbatim>\<open>INSERT INTO platform_object_references ... ON CONFLICT DO NOTHING\<close>: the primary key and the
  unique key \<open>(owner_kind, owner_id, occurrence)\<close> both suppress the insert; the second covers the first.
\<close>

definition insert_reference ::
  "registry \<Rightarrow> db_text \<Rightarrow> db_text \<Rightarrow> uuid \<Rightarrow> db_text \<Rightarrow> registry db_result" where
  "insert_reference r oref kind owner occ =
     (if \<not> reference_columns_ok kind occ then Inl (ConstraintViolation ''platform_object_references'')
      else if exists_row (\<lambda>(o', k, i, c). k = kind \<and> i = owner \<and> c = occ) (references r) then Inr r
      else Inr (r\<lparr>references := references r @ [(oref, kind, owner, occ)]\<rparr>))"

definition add_object_reference ::
  "registry \<Rightarrow> db_text \<Rightarrow> db_text \<Rightarrow> db_text \<Rightarrow> int \<Rightarrow> db_text \<Rightarrow> uuid \<Rightarrow> db_text \<Rightarrow> registry db_result" where
  "add_object_reference r oref digest media len kind owner occ =
     rbind (insert_object r oref digest media len) (\<lambda>r1.
     rbind (lock_object r1 oref) (\<lambda>row.
     if exists_row (\<lambda>d. del_ref d = oref) (receipts r1)
     then Inl (invalid ''deleted object digest cannot be revived'')
     else
       rbind (check_object row digest media len) (\<lambda>_.
       rbind (insert_reference r1 oref kind owner occ) (\<lambda>r2.
       if (oref, kind, owner, occ) \<in> set (references r2) then Inr r2
       else Inl (invalid ''object owner occurrence already references another object'')))))"

text \<open>\<^verbatim>\<open>INSERT INTO platform_object_deletion_requests\<close>: primary key \<open>id\<close>, unique \<open>object_ref\<close>.\<close>

definition insert_request :: "registry \<Rightarrow> deletion_identity \<Rightarrow> registry db_result" where
  "insert_request r d =
     (if exists_row (\<lambda>d'. deletion_id d' = deletion_id d \<or> del_ref d' = del_ref d) (requests r)
         \<or> del_ref d \<noteq> object_ref (del_digest d) \<or> del_length d < 0
      then Inl (ConstraintViolation ''platform_object_deletion_requests'')
      else Inr (r\<lparr>requests := requests r @ [d]\<rparr>))"

definition release_object_reference ::
  "timestamp \<Rightarrow> registry \<Rightarrow> db_text \<Rightarrow> db_text \<Rightarrow> uuid \<Rightarrow> db_text \<Rightarrow> uuid \<Rightarrow>
    (deletion_identity option \<times> registry) db_result" where
  "release_object_reference now r oref kind owner occ did =
     rbind (lock_object r oref) (\<lambda>row.
     let r1 = r\<lparr>references := delete_rows (\<lambda>q. q = (oref, kind, owner, occ)) (references r)\<rparr>;
         transitioned = (row_state row = Available \<and> \<not> has_references r1 oref);
         r2 = (if transitioned
               then r1\<lparr>objects := (objects r1)(oref \<mapsto> row\<lparr>row_state := Deleting, deleting_at := Some now\<rparr>)\<rparr>
               else r1)
     in rbind (if transitioned
               then insert_request r2 \<lparr>deletion_id = did, del_ref = oref,
                      del_digest = content_sha256 row, del_length = byte_length row\<rparr>
               else Inr r2) (\<lambda>r3.
        case load_deletion r3 did of
          None \<Rightarrow> Inr (None, r3)
        | Some value \<Rightarrow>
            if del_ref value \<noteq> oref \<or> del_digest value \<noteq> content_sha256 row
               \<or> del_length value \<noteq> byte_length row
            then Inl (invalid ''object deletion identity mismatch'')
            else Inr (Some value, r3)))"

subsection \<open>Staged uploads\<close>

definition upload_lease :: timestamp where
  "upload_lease = 24 * 60 * 60 * 1000000"

definition stage_object_upload ::
  "timestamp \<Rightarrow> registry \<Rightarrow> uuid \<Rightarrow> db_text \<Rightarrow> db_text \<Rightarrow> db_text \<Rightarrow> int \<Rightarrow> uuid option \<Rightarrow> registry db_result" where
  "stage_object_upload now r sid oref digest media len owner =
     rbind (add_object_reference r oref digest media len staging_kind sid ''payload'') (\<lambda>r1.
     let r2 = (case find_upload r1 sid of
                 Some _ \<Rightarrow> r1
               | None \<Rightarrow> r1\<lparr>uploads := uploads r1 @ [\<lparr>up_id = sid, up_ref = oref, up_owner = owner,
                           up_created_at = now, up_expires_at = now + upload_lease\<rparr>]\<rparr>)
     in if exists_row (\<lambda>u. up_id u = sid \<and> up_ref u = oref \<and> up_owner u = owner) (uploads r2)
        then Inr r2
        else Inl (invalid ''object upload staging identity mismatch''))"

definition check_staging ::
  "timestamp \<Rightarrow> registry \<Rightarrow> uuid option \<Rightarrow> db_text \<Rightarrow> uuid option \<Rightarrow> unit db_result" where
  "check_staging now r staging oref owner =
     (case staging of
        None \<Rightarrow> Inr ()
      | Some sid \<Rightarrow>
          rbind (fetch_one (find_upload r sid)) (\<lambda>u.
          if up_expires_at u \<le> now then Inl (invalid ''object upload staging lease expired'')
          else if up_ref u \<noteq> oref \<or> up_owner u \<noteq> owner
          then Inl (invalid ''object upload staging owner mismatch'')
          else Inr ()))"

definition drop_upload :: "registry \<Rightarrow> uuid \<Rightarrow> registry" where
  "drop_upload r sid = r\<lparr>uploads := delete_rows (\<lambda>u. up_id u = sid) (uploads r)\<rparr>"

definition publish_object_reference ::
  "timestamp \<Rightarrow> registry \<Rightarrow> uuid option \<Rightarrow> db_text \<Rightarrow> db_text \<Rightarrow> db_text \<Rightarrow> int \<Rightarrow> db_text \<Rightarrow> uuid \<Rightarrow>
    db_text \<Rightarrow> uuid option \<Rightarrow> registry db_result" where
  "publish_object_reference now r staging oref digest media len kind owner_id occ owner =
     rbind (check_staging now r staging oref owner) (\<lambda>_.
     rbind (lock_object r oref) (\<lambda>row.
     rbind (check_object row digest media len) (\<lambda>_.
     if staging = None \<and> \<not> exists_row (\<lambda>(o', k, i, c). o' = oref \<and> k \<noteq> staging_kind) (references r)
     then Inl (invalid ''object requires a valid upload staging identity'')
     else
       rbind (add_object_reference r oref digest media len kind owner_id occ) (\<lambda>r1.
       case staging of
         None \<Rightarrow> Inr r1
       | Some sid \<Rightarrow>
           rbind (release_object_reference now (drop_upload r1 sid) oref staging_kind sid ''payload'' sid)
             (\<lambda>(_, r2). Inr r2)))))"

definition abandon_object_upload ::
  "timestamp \<Rightarrow> registry \<Rightarrow> uuid \<Rightarrow> uuid option \<Rightarrow> (deletion_identity option \<times> registry) db_result" where
  "abandon_object_upload now r sid owner =
     (case find_upload r sid of
        Some u \<Rightarrow>
          if up_owner u \<noteq> owner then Inl (invalid ''object upload staging owner mismatch'')
          else release_object_reference now (drop_upload r sid) (up_ref u) staging_kind sid ''payload'' sid
      | None \<Rightarrow> Inr (load_deletion r sid, r))"

definition request_object_upload_expiry ::
  "timestamp \<Rightarrow> registry \<Rightarrow> uuid \<Rightarrow> uuid option \<Rightarrow> registry db_result" where
  "request_object_upload_expiry now r sid owner =
     (case find_upload r sid of
        None \<Rightarrow> Inr r
      | Some u \<Rightarrow>
          if up_owner u \<noteq> owner then Inl (invalid ''object upload staging owner mismatch'')
          else Inr (r\<lparr>uploads := update_rows (\<lambda>v. up_id v = sid)
                 (\<lambda>v. v\<lparr>up_expires_at := max now (up_created_at v + 1)\<rparr>) (uploads r)\<rparr>))"

definition expired_object_upload_candidates :: "timestamp \<Rightarrow> registry \<Rightarrow> uuid list" where
  "expired_object_upload_candidates now r =
     take 100 (map up_id (sort_key up_expires_at (sort_key up_id
       (filter (\<lambda>u. up_expires_at u \<le> now) (uploads r)))))"

definition expire_one_object_upload ::
  "timestamp \<Rightarrow> registry \<Rightarrow> uuid \<Rightarrow> (deletion_identity option \<times> registry) db_result" where
  "expire_one_object_upload now r sid =
     (case find_upload r sid of
        Some u \<Rightarrow>
          if up_expires_at u \<le> now
          then release_object_reference now (drop_upload r sid) (up_ref u) staging_kind sid ''payload'' sid
          else Inr (None, r)
      | None \<Rightarrow> Inr (load_deletion r sid, r))"

subsection \<open>Deletion of unowned bytes\<close>

definition object_deletion_preflight ::
  "timestamp \<Rightarrow> registry \<Rightarrow> deletion_identity \<Rightarrow> bool db_result" where
  "object_deletion_preflight now r d =
     rbind (lock_object r (del_ref d)) (\<lambda>row.
     if load_deletion r (deletion_id d) \<noteq> Some d \<or> content_sha256 row \<noteq> del_digest d
        \<or> byte_length row \<noteq> del_length d
     then Inl (invalid ''object deletion business fence is not current'')
     else if d \<in> set (receipts r) then Inr True
     else if row_state row \<noteq> Deleting \<or> has_references r (del_ref d)
             \<or> exists_row (\<lambda>u. up_ref u = del_ref d \<and> now < up_expires_at u) (uploads r)
     then Inl (invalid ''object deletion business fence is not current'')
     else Inr False)"

definition complete_object_deletion ::
  "timestamp \<Rightarrow> registry \<Rightarrow> deletion_identity \<Rightarrow> registry db_result" where
  "complete_object_deletion now r d =
     rbind (object_deletion_preflight now r d) (\<lambda>completed.
     if completed then Inr r
     else if exists_row (\<lambda>q. del_ref q = del_ref d \<or> del_digest q = del_digest d
                              \<or> deletion_id q = deletion_id d) (receipts r)
     then Inl (ConstraintViolation ''platform_object_deletion_receipts'')
     else Inr (r\<lparr>receipts := receipts r @ [d],
             objects := (objects r)(del_ref d := map_option
               (\<lambda>row. row\<lparr>row_state := Deleted, deleted_at := Some now\<rparr>) (objects r (del_ref d)))\<rparr>))"



subsection \<open>What a successful operation did\<close>

lemma has_references_iff [table_simps]:
  "has_references r oref \<longleftrightarrow> (\<exists>k i c. (oref, k, i, c) \<in> set (references r))"
  by (auto simp: has_references_def exists_row_iff)

definition new_object :: "db_text \<Rightarrow> db_text \<Rightarrow> int \<Rightarrow> object_row" where
  "new_object digest media len = \<lparr>content_sha256 = digest, media_type = media, byte_length = len,
     row_state = Available, deleting_at = None, deleted_at = None\<rparr>"

lemma insert_object_cases:
  assumes "insert_object r oref digest media len = Inr r1"
  shows "object_columns_ok oref digest media len"
    and "(objects r oref \<noteq> None \<and> r1 = r)
       \<or> (objects r oref = None \<and> r1 = r\<lparr>objects := (objects r)(oref \<mapsto> new_object digest media len)\<rparr>)"
  using assms by (auto simp: insert_object_def new_object_def split: if_splits option.splits)

lemma insert_reference_cases:
  assumes "insert_reference r oref kind owner occ = Inr r1"
  shows "reference_columns_ok kind occ"
    and "r1 = r \<or> (r1 = r\<lparr>references := references r @ [(oref, kind, owner, occ)]\<rparr>
           \<and> (\<forall>o'. (o', kind, owner, occ) \<notin> set (references r)))"
  using assms by (auto simp: insert_reference_def exists_row_iff split: if_splits)

lemma add_object_reference_cases:
  assumes "add_object_reference r oref digest media len kind owner occ = Inr r'"
  obtains (same) row where
      "objects r' = objects r" "objects r oref = Some row" "row_state row = Available"
      "content_sha256 row = digest" "media_type row = media" "byte_length row = len"
      "references r' = references r \<or>
         (references r' = references r @ [(oref, kind, owner, occ)]
          \<and> (\<forall>o'. (o', kind, owner, occ) \<notin> set (references r)))"
      "(oref, kind, owner, occ) \<in> set (references r')"
      "uploads r' = uploads r" "requests r' = requests r" "receipts r' = receipts r"
      "\<forall>d\<in>set (receipts r). del_ref d \<noteq> oref" "object_columns_ok oref digest media len"
    | (fresh) "objects r oref = None" "objects r' = (objects r)(oref \<mapsto> new_object digest media len)"
      "references r' = references r \<or>
         (references r' = references r @ [(oref, kind, owner, occ)]
          \<and> (\<forall>o'. (o', kind, owner, occ) \<notin> set (references r)))"
      "(oref, kind, owner, occ) \<in> set (references r')"
      "uploads r' = uploads r" "requests r' = requests r" "receipts r' = receipts r"
      "\<forall>d\<in>set (receipts r). del_ref d \<noteq> oref" "object_columns_ok oref digest media len"
proof -
  from assms obtain r1 row where ins: "insert_object r oref digest media len = Inr r1"
    and row: "objects r1 oref = Some row" and rec: "\<forall>d\<in>set (receipts r1). del_ref d \<noteq> oref"
    and chk: "check_object row digest media len = Inr ()"
    and insr: "insert_reference r1 oref kind owner occ = Inr r'"
    and mem: "(oref, kind, owner, occ) \<in> set (references r')"
    by (auto simp: add_object_reference_def result_simps lock_object_def exists_row_iff split: if_splits)
  from chk have "row_state row = Available" "content_sha256 row = digest" "media_type row = media"
      "byte_length row = len" by (auto simp: check_object_def split: if_splits)
  with insert_object_cases [OF ins] insert_reference_cases(2) [OF insr] row rec mem same fresh
  show thesis by (elim disjE conjE) (auto simp: new_object_def)
qed

lemma release_object_reference_cases:
  assumes "release_object_reference now r oref kind owner occ did = Inr (del, r')"
  obtains (kept) row where "objects r oref = Some row" "objects r' = objects r"
      "references r' = delete_rows (\<lambda>q. q = (oref, kind, owner, occ)) (references r)"
      "row_state row \<noteq> Available \<or> (\<exists>k i c. (oref, k, i, c) \<in> set (references r'))"
      "uploads r' = uploads r" "requests r' = requests r" "receipts r' = receipts r"
    | (last) row d where "objects r oref = Some row" "row_state row = Available"
      "objects r' = (objects r)(oref \<mapsto> row\<lparr>row_state := Deleting, deleting_at := Some now\<rparr>)"
      "references r' = delete_rows (\<lambda>q. q = (oref, kind, owner, occ)) (references r)"
      "\<forall>k i c. (oref, k, i, c) \<notin> set (references r')"
      "d = \<lparr>deletion_id = did, del_ref = oref, del_digest = content_sha256 row, del_length = byte_length row\<rparr>"
      "requests r' = requests r @ [d]"
      "\<forall>d'\<in>set (requests r). deletion_id d' \<noteq> did \<and> del_ref d' \<noteq> oref"
      "uploads r' = uploads r" "receipts r' = receipts r"
proof -
  let ?refs = "delete_rows (\<lambda>q. q = (oref, kind, owner, occ)) (references r)"
  from assms obtain row where row: "objects r oref = Some row"
    by (auto simp: release_object_reference_def result_simps lock_object_def)
  show thesis
  proof (cases "row_state row = Available \<and> \<not> has_references (r\<lparr>references := ?refs\<rparr>) oref")
    case True
    with assms row last show thesis
      by (auto simp: release_object_reference_def result_simps lock_object_def insert_request_def
          exists_row_iff has_references_iff Let_def split: if_splits option.splits)
  next
    case False
    with assms row kept show thesis
      by (auto simp: release_object_reference_def result_simps lock_object_def has_references_iff
          Let_def split: if_splits option.splits)
  qed
qed

subsection \<open>The registry invariant\<close>

definition inv_columns :: "registry \<Rightarrow> bool" where
  "inv_columns r \<longleftrightarrow> (\<forall>oref row. objects r oref = Some row \<longrightarrow>
     object_columns_ok oref (content_sha256 row) (media_type row) (byte_length row)
     \<and> (row_state row = Available \<longleftrightarrow> deleting_at row = None)
     \<and> (row_state row = Deleted \<longleftrightarrow> deleted_at row \<noteq> None))"

definition inv_references :: "registry \<Rightarrow> bool" where
  "inv_references r \<longleftrightarrow>
     (\<forall>oref row. objects r oref = Some row \<longrightarrow> (row_state row = Available \<longleftrightarrow> oref \<in> fst ` set (references r)))
     \<and> fst ` set (references r) \<subseteq> dom (objects r)
     \<and> distinct (map snd (references r))"

definition inv_requests :: "registry \<Rightarrow> bool" where
  "inv_requests r \<longleftrightarrow>
     (\<forall>oref row. objects r oref = Some row \<longrightarrow>
        (row_state row \<noteq> Available \<longleftrightarrow> (\<exists>d\<in>set (requests r). del_ref d = oref)))
     \<and> (\<forall>d\<in>set (requests r). \<exists>row. objects r (del_ref d) = Some row
          \<and> content_sha256 row = del_digest d \<and> byte_length row = del_length d)
     \<and> distinct (map deletion_id (requests r)) \<and> distinct (map del_ref (requests r))"

definition inv_receipts :: "registry \<Rightarrow> bool" where
  "inv_receipts r \<longleftrightarrow>
     set (receipts r) \<subseteq> set (requests r)
     \<and> (\<forall>oref row. objects r oref = Some row \<longrightarrow>
          (row_state row = Deleted \<longleftrightarrow> (\<exists>d\<in>set (receipts r). del_ref d = oref)))"

definition inv_uploads :: "registry \<Rightarrow> bool" where
  "inv_uploads r \<longleftrightarrow>
     (\<forall>u\<in>set (uploads r). (up_ref u, staging_kind, up_id u, ''payload'') \<in> set (references r)
        \<and> up_created_at u < up_expires_at u)
     \<and> distinct (map up_id (uploads r))"

definition registry_inv :: "registry \<Rightarrow> bool" where
  "registry_inv r \<longleftrightarrow> inv_columns r \<and> inv_references r \<and> inv_requests r \<and> inv_receipts r \<and> inv_uploads r"

lemmas registry_inv_defs =
  inv_columns_def inv_references_def inv_requests_def inv_receipts_def inv_uploads_def

lemma inv_columns_cong: "objects r' = objects r \<Longrightarrow> inv_columns r' = inv_columns r"
  and inv_references_cong: "objects r' = objects r \<Longrightarrow> references r' = references r \<Longrightarrow>
    inv_references r' = inv_references r"
  and inv_requests_cong: "objects r' = objects r \<Longrightarrow> requests r' = requests r \<Longrightarrow>
    inv_requests r' = inv_requests r"
  and inv_receipts_cong: "objects r' = objects r \<Longrightarrow> requests r' = requests r \<Longrightarrow>
    receipts r' = receipts r \<Longrightarrow> inv_receipts r' = inv_receipts r"
  by (simp_all add: registry_inv_defs)

lemmas inv_congs = inv_columns_cong inv_references_cong inv_requests_cong inv_receipts_cong

lemma registry_inv_fk: "registry_inv r \<Longrightarrow> fst ` set (references r) \<subseteq> dom (objects r)"
  by (simp add: registry_inv_def inv_references_def)

lemma registry_inv_row:
  assumes "registry_inv r" and "objects r oref = Some row"
  shows "object_columns_ok oref (content_sha256 row) (media_type row) (byte_length row)"
    and "row_state row = Available \<longleftrightarrow> oref \<in> fst ` set (references r)"
    and "row_state row \<noteq> Available \<longleftrightarrow> (\<exists>d\<in>set (requests r). del_ref d = oref)"
    and "row_state row = Deleted \<longleftrightarrow> (\<exists>d\<in>set (receipts r). del_ref d = oref)"
proof -
  have "inv_columns r" "inv_references r" "inv_requests r" "inv_receipts r"
    using assms(1) by (simp_all add: registry_inv_def)
  with assms(2) show "object_columns_ok oref (content_sha256 row) (media_type row) (byte_length row)"
    and "row_state row = Available \<longleftrightarrow> oref \<in> fst ` set (references r)"
    and "row_state row \<noteq> Available \<longleftrightarrow> (\<exists>d\<in>set (requests r). del_ref d = oref)"
    and "row_state row = Deleted \<longleftrightarrow> (\<exists>d\<in>set (receipts r). del_ref d = oref)"
    unfolding registry_inv_defs by meson+
qed

lemma registry_inv_empty: "registry_inv empty_registry"
  by (simp add: registry_inv_def registry_inv_defs empty_registry_def)

lemma add_object_reference_inv:
  assumes add: "add_object_reference r oref digest media len kind owner occ = Inr r'"
    and inv: "registry_inv r"
  shows "registry_inv r'"
  using add
proof (cases rule: add_object_reference_cases)
  case (same row)
  with inv have "inv_columns r'" "inv_requests r'" "inv_receipts r'"
    by (simp_all add: registry_inv_def inv_congs [of r' r])
  moreover have "inv_references r'"
    using same(7)
  proof (elim disjE conjE)
    assume "references r' = references r"
    with same(1) inv show ?thesis by (simp add: registry_inv_def inv_congs [of r' r])
  next
    assume new: "references r' = references r @ [(oref, kind, owner, occ)]"
      "\<forall>o'. (o', kind, owner, occ) \<notin> set (references r)"
    have "(\<lambda>x. x) ` fst ` set (references r') = insert oref (fst ` set (references r))"
      using new by auto
    moreover have "(kind, owner, occ) \<notin> snd ` set (references r)" using new(2) by auto
    ultimately show ?thesis
      using new(1) same(1,2,3) inv by (auto simp: registry_inv_def inv_references_def)
  qed
  moreover from same inv have "inv_uploads r'"
    unfolding registry_inv_def inv_uploads_def by auto
  ultimately show ?thesis by (simp add: registry_inv_def)
next
  case fresh
  from inv fresh(1) have nref: "(oref, k, i, c) \<notin> set (references r)" for k i c
    by (force simp: registry_inv_def inv_references_def)
  from inv fresh(1) have nreq: "d \<in> set (requests r) \<Longrightarrow> del_ref d \<noteq> oref" for d
    by (auto simp: registry_inv_def inv_requests_def)
  from fresh inv nref have "inv_columns r'"
    by (auto simp: registry_inv_def inv_columns_def new_object_def)
  moreover have "inv_references r'"
  proof -
    have new: "references r' = references r @ [(oref, kind, owner, occ)]"
      "(kind, owner, occ) \<notin> snd ` set (references r)"
      using fresh(3,4) nref by auto
    have "oref \<notin> fst ` set (references r)" using nref by auto
    then show ?thesis
      using new fresh(2) inv by (auto simp: registry_inv_def inv_references_def new_object_def)
  qed
  moreover from fresh inv nreq have "inv_requests r'"
    unfolding registry_inv_def inv_requests_def by (auto simp: new_object_def)
  moreover from fresh inv have "inv_receipts r'"
    unfolding registry_inv_def inv_receipts_def by (auto simp: new_object_def)
  moreover from fresh inv have "inv_uploads r'"
    unfolding registry_inv_def inv_uploads_def by auto
  ultimately show ?thesis by (simp add: registry_inv_def)
qed

text \<open>
  Releasing keeps everything but the uploads' references; those stay when the released reference
  is not the staging reference of a live upload.
\<close>

lemma release_object_reference_inv:
  assumes rel: "release_object_reference now r oref kind owner occ did = Inr (del, r')"
    and inv: "registry_inv r"
    and free: "kind = staging_kind \<Longrightarrow> \<forall>u\<in>set (uploads r). up_id u \<noteq> owner"
  shows "registry_inv r'"
  using rel
proof (cases rule: release_object_reference_cases)
  case (kept row)
  from kept inv have "inv_columns r'" "inv_requests r'" "inv_receipts r'"
    by (simp_all add: registry_inv_def inv_congs [of r' r])
  moreover have "inv_references r'"
  proof -
    have sub: "fst ` set (references r') \<subseteq> fst ` set (references r)"
      using kept(3) by (auto simp: table_simps)
    have other: "o' \<in> fst ` set (references r) \<Longrightarrow> o' \<noteq> oref \<Longrightarrow> o' \<in> fst ` set (references r')" for o'
      using kept(3) by (force simp: table_simps)
    have "distinct (map snd (references r'))"
      using kept(3) inv by (simp add: registry_inv_def inv_references_def delete_rows_def distinct_map_filter)
    moreover have "row_state w = Available \<longleftrightarrow> o' \<in> fst ` set (references r')" if "objects r o' = Some w" for o' w
    proof (cases "o' = oref")
      case True
      then have "w = row" using that kept(1) by simp
      have "oref \<in> fst ` set (references r') \<Longrightarrow> row_state row = Available"
        using sub inv kept(1) by (auto simp: registry_inv_def inv_references_def)
      with kept(4) True \<open>w = row\<close> show ?thesis by force
    next
      case False
      with that sub other [of o'] inv show ?thesis by (auto simp: registry_inv_def inv_references_def)
    qed
    moreover have "fst ` set (references r') \<subseteq> dom (objects r')"
      unfolding kept(2) using sub registry_inv_fk [OF inv] by (rule subset_trans)
    ultimately show ?thesis
      using kept(2) by (simp add: inv_references_def)
  qed
  moreover from kept inv free have "inv_uploads r'"
    unfolding registry_inv_def inv_uploads_def by (auto simp: table_simps)
  ultimately show ?thesis by (simp add: registry_inv_def)
next
  case (last row d)
  have cols: "object_columns_ok oref (content_sha256 row) (media_type row) (byte_length row)"
      "deleted_at row = None"
    using inv last(1,2) unfolding registry_inv_def inv_columns_def by (fastforce, fastforce)
  have "inv_columns r'"
    using inv cols last(3) by (simp add: registry_inv_def inv_columns_def)
  moreover have "inv_references r'"
  proof -
    have sub: "fst ` set (references r') \<subseteq> fst ` set (references r)"
      using last(4) by (auto simp: table_simps)
    have other: "o' \<in> fst ` set (references r) \<Longrightarrow> o' \<noteq> oref \<Longrightarrow> o' \<in> fst ` set (references r')" for o'
      using last(4) by (force simp: table_simps)
    have gone: "oref \<notin> fst ` set (references r')" using last(5) by auto
    have "distinct (map snd (references r'))"
      using last(4) inv by (simp add: registry_inv_def inv_references_def delete_rows_def distinct_map_filter)
    moreover have "fst ` set (references r') \<subseteq> dom (objects r')"
      unfolding last(3) using subset_trans [OF sub registry_inv_fk [OF inv]] by auto
    moreover have "row_state w = Available \<longleftrightarrow> o' \<in> fst ` set (references r')"
      if "objects r' o' = Some w" for o' w
      using that gone last(3) sub other [of o'] inv
      by (auto simp: registry_inv_def inv_references_def split: if_splits)
    ultimately show ?thesis by (simp add: inv_references_def)
  qed
  moreover have "inv_requests r'"
  proof -
    have "\<forall>d'\<in>set (requests r). del_ref d' \<noteq> oref"
      using last by blast
    then show ?thesis
      using last inv unfolding registry_inv_def inv_requests_def by (auto simp: image_iff)
  qed
  moreover from last inv have "inv_receipts r'"
    unfolding registry_inv_def inv_receipts_def by auto
  moreover from last inv free have "inv_uploads r'"
    unfolding registry_inv_def inv_uploads_def by (auto simp: table_simps)
  ultimately show ?thesis by (simp add: registry_inv_def)
qed

lemma drop_upload_simps [simp]:
  "objects (drop_upload r sid) = objects r"
  "references (drop_upload r sid) = references r"
  "requests (drop_upload r sid) = requests r"
  "receipts (drop_upload r sid) = receipts r"
  "set (uploads (drop_upload r sid)) = {u \<in> set (uploads r). up_id u \<noteq> sid}"
  by (auto simp: drop_upload_def table_simps)

lemma drop_upload_inv: "registry_inv r \<Longrightarrow> registry_inv (drop_upload r sid)"
  by (auto simp: registry_inv_def inv_congs [of "drop_upload r sid" r] inv_uploads_def)
    (simp add: drop_upload_def delete_rows_def distinct_map_filter)

lemma release_staging_inv:
  assumes "release_object_reference now (drop_upload r sid) oref staging_kind sid ''payload'' did = Inr (del, r')"
    and "registry_inv r"
  shows "registry_inv r'"
  by (rule release_object_reference_inv [OF assms(1) drop_upload_inv [OF assms(2)]]) simp

lemma find_upload_mem: "find_upload r sid = Some u \<Longrightarrow> u \<in> set (uploads r) \<and> up_id u = sid"
  unfolding find_upload_def by (drule find_Some_in_set) simp

lemma find_upload_None: "find_upload r sid = None \<longleftrightarrow> (\<forall>u\<in>set (uploads r). up_id u \<noteq> sid)"
  by (auto simp: find_upload_def find_None_iff)

lemma stage_object_upload_inv:
  assumes stage: "stage_object_upload now r sid oref digest media len owner = Inr r'"
    and inv: "registry_inv r"
  shows "registry_inv r'"
proof -
  from stage obtain r1 where add: "add_object_reference r oref digest media len staging_kind sid ''payload'' = Inr r1"
    and r': "r' = (case find_upload r1 sid of Some _ \<Rightarrow> r1
               | None \<Rightarrow> r1\<lparr>uploads := uploads r1 @ [\<lparr>up_id = sid, up_ref = oref, up_owner = owner,
                           up_created_at = now, up_expires_at = now + upload_lease\<rparr>]\<rparr>)"
    by (auto simp: stage_object_upload_def result_simps Let_def split: if_splits)
  have inv1: "registry_inv r1" by (rule add_object_reference_inv [OF add inv])
  have mem: "(oref, staging_kind, sid, ''payload'') \<in> set (references r1)"
    using add by (cases rule: add_object_reference_cases) auto
  show ?thesis
  proof (cases "find_upload r1 sid")
    case None
    with r' have "r' = r1\<lparr>uploads := uploads r1 @ [\<lparr>up_id = sid, up_ref = oref, up_owner = owner,
        up_created_at = now, up_expires_at = now + upload_lease\<rparr>]\<rparr>" by simp
    then have "inv_uploads r'"
      using inv1 mem None by (auto simp: registry_inv_def inv_uploads_def find_upload_None upload_lease_def)
    moreover from None r' have same: "objects r' = objects r1" "references r' = references r1"
        "requests r' = requests r1" "receipts r' = receipts r1" by auto
    ultimately show ?thesis
      using inv1 by (simp add: registry_inv_def inv_congs [OF same(1)] same)
  qed (use inv1 r' in simp)
qed

lemma publish_object_reference_cases:
  assumes "publish_object_reference now r staging oref digest media len kind owner occ user = Inr r'"
  obtains (reuse) "staging = None" "add_object_reference r oref digest media len kind owner occ = Inr r'"
      "\<exists>k i c. (oref, k, i, c) \<in> set (references r) \<and> k \<noteq> staging_kind"
    | (staged) sid u r1 del where "staging = Some sid" "find_upload r sid = Some u"
      "now < up_expires_at u" "up_ref u = oref" "up_owner u = user"
      "add_object_reference r oref digest media len kind owner occ = Inr r1"
      "release_object_reference now (drop_upload r1 sid) oref staging_kind sid ''payload'' sid = Inr (del, r')"
proof (cases staging)
  case None
  with assms show thesis
    by (intro reuse) (auto simp: publish_object_reference_def result_simps exists_row_iff split: if_splits)
next
  case (Some sid)
  with assms obtain u where "find_upload r sid = Some u" "now < up_expires_at u" "up_ref u = oref" "up_owner u = user"
    by (auto simp: publish_object_reference_def check_staging_def result_simps split: if_splits)
  moreover from assms Some obtain r1 del where
      "add_object_reference r oref digest media len kind owner occ = Inr r1"
      "release_object_reference now (drop_upload r1 sid) oref staging_kind sid ''payload'' sid = Inr (del, r')"
    by (auto simp: publish_object_reference_def result_simps split: if_splits)
  ultimately show thesis using Some staged by blast
qed

lemma publish_object_reference_inv:
  assumes pub: "publish_object_reference now r staging oref digest media len kind owner occ user = Inr r'"
    and inv: "registry_inv r"
  shows "registry_inv r'"
  using pub
proof (cases rule: publish_object_reference_cases)
  case reuse
  then show ?thesis using inv by (blast intro: add_object_reference_inv)
next
  case (staged sid u r1 del)
  then show ?thesis using inv by (blast intro: add_object_reference_inv release_staging_inv)
qed

lemma abandon_object_upload_inv:
  "abandon_object_upload now r sid owner = Inr (del, r') \<Longrightarrow> registry_inv r \<Longrightarrow> registry_inv r'"
  by (auto simp: abandon_object_upload_def split: option.splits if_splits intro: release_staging_inv)

lemma expire_one_object_upload_inv:
  "expire_one_object_upload now r sid = Inr (del, r') \<Longrightarrow> registry_inv r \<Longrightarrow> registry_inv r'"
  by (auto simp: expire_one_object_upload_def split: option.splits if_splits intro: release_staging_inv)

lemma request_object_upload_expiry_cases:
  assumes "request_object_upload_expiry now r sid owner = Inr r'"
  obtains f where "r' = r\<lparr>uploads := map f (uploads r)\<rparr>"
    "\<And>u. up_id (f u) = up_id u \<and> up_ref (f u) = up_ref u \<and> up_owner (f u) = up_owner u
       \<and> up_created_at (f u) = up_created_at u"
    "\<And>u. f u = u \<or> up_created_at u < up_expires_at (f u)"
proof (cases "find_upload r sid")
  case None
  with assms show thesis by (intro that [of id]) (simp_all add: request_object_upload_expiry_def)
next
  case (Some u)
  with assms show thesis
    by (intro that [of "\<lambda>v. if up_id v = sid then v\<lparr>up_expires_at := max now (up_created_at v + 1)\<rparr> else v"])
      (auto simp: request_object_upload_expiry_def update_rows_def split: if_splits)
qed

lemma request_object_upload_expiry_inv:
  assumes "request_object_upload_expiry now r sid owner = Inr r'" and inv: "registry_inv r"
  shows "registry_inv r'"
  using assms(1)
proof (cases rule: request_object_upload_expiry_cases)
  case (1 f)
  have "map up_id (uploads r') = map up_id (uploads r)" using 1 by simp
  moreover have "up_created_at u < up_expires_at u \<Longrightarrow> up_created_at (f u) < up_expires_at (f u)" for u
    using 1(2,3) [of u] by auto
  ultimately have "inv_uploads r'"
    using inv 1(1,2) by (simp add: registry_inv_def inv_uploads_def o_def)
  moreover have same: "objects r' = objects r" "references r' = references r" "requests r' = requests r"
      "receipts r' = receipts r" by (simp_all add: 1(1))
  ultimately show ?thesis
    using inv by (simp add: registry_inv_def inv_congs [OF same(1)] same)
qed

lemma preflight_False:
  assumes "object_deletion_preflight now r d = Inr False"
  shows "\<exists>row. objects r (del_ref d) = Some row \<and> row_state row = Deleting"
    and "d \<in> set (requests r)" and "d \<notin> set (receipts r)"
    and "\<forall>k i c. (del_ref d, k, i, c) \<notin> set (references r)"
  using assms
  by (auto simp: object_deletion_preflight_def result_simps lock_object_def has_references_iff
      load_deletion_def split: if_splits dest!: find_Some_in_set)

lemma complete_object_deletion_cases:
  assumes "complete_object_deletion now r d = Inr r'"
  obtains (already) "object_deletion_preflight now r d = Inr True" "r' = r"
    | (finished) row where "object_deletion_preflight now r d = Inr False"
      "objects r (del_ref d) = Some row" "row_state row = Deleting"
      "r' = r\<lparr>receipts := receipts r @ [d],
             objects := (objects r)(del_ref d \<mapsto> row\<lparr>row_state := Deleted, deleted_at := Some now\<rparr>)\<rparr>"
proof -
  from assms obtain b where b: "object_deletion_preflight now r d = Inr b"
    by (auto simp: complete_object_deletion_def result_simps)
  show thesis
  proof (cases b)
    case True
    show thesis by (rule already) (use True assms b in \<open>simp_all add: complete_object_deletion_def\<close>)
  next
    case False
    with b have pf: "object_deletion_preflight now r d = Inr False" by simp
    obtain row where "objects r (del_ref d) = Some row" "row_state row = Deleting"
      using preflight_False(1) [OF pf] by blast
    moreover from this assms b False have "r' = r\<lparr>receipts := receipts r @ [d],
        objects := (objects r)(del_ref d \<mapsto> row\<lparr>row_state := Deleted, deleted_at := Some now\<rparr>)\<rparr>"
      by (simp add: complete_object_deletion_def split: if_splits)
    ultimately show thesis using b False finished by simp
  qed
qed

lemma complete_object_deletion_inv:
  assumes "complete_object_deletion now r d = Inr r'" and inv: "registry_inv r"
  shows "registry_inv r'"
  using assms(1)
proof (cases rule: complete_object_deletion_cases)
  case (finished row)
  note pf = preflight_False [OF finished(1)]
  have cols: "object_columns_ok (del_ref d) (content_sha256 row) (media_type row) (byte_length row)"
      "deleting_at row \<noteq> None"
    using inv finished(2,3) unfolding registry_inv_def inv_columns_def by (fastforce, fastforce)
  have "inv_columns r'"
    using inv cols finished(4) by (simp add: registry_inv_def inv_columns_def)
  moreover have "inv_references r'"
    using inv pf(4) finished(2,3,4) by (auto simp: registry_inv_def inv_references_def image_iff)
  moreover have "inv_requests r'"
    using inv pf(2) finished(2,3,4) by (auto simp: registry_inv_def inv_requests_def)
  moreover have "inv_receipts r'"
    using inv pf(2) finished(4) by (auto simp: registry_inv_def inv_receipts_def)
  moreover have "inv_uploads r'"
    using inv finished(4) by (simp add: registry_inv_def inv_uploads_def)
  ultimately show ?thesis by (simp add: registry_inv_def)
qed (use inv in simp)

subsection \<open>The registry as a transition system\<close>

text \<open>
  One rule per operation that commits.  Business callers release references of their own kinds
  (\<^verbatim>\<open>knowledge_document\<close>, \<^verbatim>\<open>knowledge_image_artifact\<close>, the tender kinds); only the upload
  operations release staging references.
\<close>

inductive reg_step :: "registry \<Rightarrow> registry \<Rightarrow> bool" where
  step_add: "add_object_reference r oref digest media len kind owner occ = Inr r' \<Longrightarrow> reg_step r r'"
| step_release: "kind \<noteq> staging_kind \<Longrightarrow>
    release_object_reference now r oref kind owner occ did = Inr (del, r') \<Longrightarrow> reg_step r r'"
| step_stage: "stage_object_upload now r sid oref digest media len user = Inr r' \<Longrightarrow> reg_step r r'"
| step_publish: "publish_object_reference now r staging oref digest media len kind owner occ user = Inr r' \<Longrightarrow>
    reg_step r r'"
| step_abandon: "abandon_object_upload now r sid user = Inr (del, r') \<Longrightarrow> reg_step r r'"
| step_request_expiry: "request_object_upload_expiry now r sid user = Inr r' \<Longrightarrow> reg_step r r'"
| step_expire: "expire_one_object_upload now r sid = Inr (del, r') \<Longrightarrow> reg_step r r'"
| step_complete: "complete_object_deletion now r d = Inr r' \<Longrightarrow> reg_step r r'"

lemma reg_step_inv: "reg_step r r' \<Longrightarrow> registry_inv r \<Longrightarrow> registry_inv r'"
proof (induction rule: reg_step.induct)
  case (step_release kind now r oref owner occ did del r')
  then show ?case using release_object_reference_inv by blast
qed (blast intro: add_object_reference_inv stage_object_upload_inv publish_object_reference_inv
      abandon_object_upload_inv request_object_upload_expiry_inv expire_one_object_upload_inv
      complete_object_deletion_inv)+

interpretation reg: transition_invariant empty_registry reg_step registry_inv
  by unfold_locales (auto simp: registry_inv_empty intro: reg_step_inv)

subsection \<open>Objects only advance\<close>

fun state_rank :: "object_state \<Rightarrow> nat" where
  "state_rank Available = 0"
| "state_rank Deleting = 1"
| "state_rank Deleted = 2"

definition row_advances :: "object_row \<Rightarrow> object_row \<Rightarrow> bool" where
  "row_advances row row' \<longleftrightarrow> content_sha256 row' = content_sha256 row
     \<and> byte_length row' = byte_length row \<and> media_type row' = media_type row
     \<and> state_rank (row_state row) \<le> state_rank (row_state row')"

definition advances :: "registry \<Rightarrow> registry \<Rightarrow> bool" where
  "advances r r' \<longleftrightarrow>
     set (requests r) \<subseteq> set (requests r') \<and> set (receipts r) \<subseteq> set (receipts r')
     \<and> (\<forall>oref row. objects r oref = Some row \<longrightarrow> (\<exists>row'. objects r' oref = Some row' \<and> row_advances row row'))"

lemma row_advances_refl [simp]: "row_advances row row"
  by (simp add: row_advances_def)

lemma row_advances_trans: "row_advances a b \<Longrightarrow> row_advances b c \<Longrightarrow> row_advances a c"
  by (simp add: row_advances_def)

lemma advances_refl [simp]: "advances r r"
  by (simp add: advances_def)

lemma advances_trans: "advances r r' \<Longrightarrow> advances r' r'' \<Longrightarrow> advances r r''"
  unfolding advances_def by (blast intro: row_advances_trans)

lemma advances_same_objects:
  "objects r' = objects r \<Longrightarrow> requests r' = requests r \<Longrightarrow> receipts r' = receipts r \<Longrightarrow> advances r r'"
  by (simp add: advances_def)

lemma add_advances: "add_object_reference r oref digest media len kind owner occ = Inr r' \<Longrightarrow> advances r r'"
  by (erule add_object_reference_cases) (auto simp: advances_def)

lemma release_advances:
  "release_object_reference now r oref kind owner occ did = Inr (del, r') \<Longrightarrow> advances r r'"
  by (erule release_object_reference_cases) (auto simp: advances_def row_advances_def)

lemma drop_release_advances:
  "release_object_reference now (drop_upload r sid) oref kind owner occ did = Inr (del, r') \<Longrightarrow> advances r r'"
  using release_advances advances_trans advances_same_objects [of "drop_upload r sid" r] by fastforce

lemma stage_advances:
  assumes "stage_object_upload now r sid oref digest media len user = Inr r'"
  shows "advances r r'"
proof -
  from assms obtain r1 where add: "add_object_reference r oref digest media len staging_kind sid ''payload'' = Inr r1"
    and same: "objects r' = objects r1" "requests r' = requests r1" "receipts r' = receipts r1"
    by (auto simp: stage_object_upload_def result_simps Let_def split: if_splits option.splits)
  show ?thesis
    by (rule advances_trans [OF add_advances [OF add] advances_same_objects [OF same]])
qed

lemma publish_advances:
  assumes "publish_object_reference now r staging oref digest media len kind owner occ user = Inr r'"
  shows "advances r r'"
  using assms
proof (cases rule: publish_object_reference_cases)
  case reuse
  then show ?thesis by (blast intro: add_advances)
next
  case (staged sid u r1 del)
  then show ?thesis by (blast intro: add_advances drop_release_advances advances_trans)
qed

lemma reg_step_advances: "reg_step r r' \<Longrightarrow> advances r r'"
proof (induction rule: reg_step.induct)
  case (step_request_expiry now r sid user r')
  then show ?case by (elim request_object_upload_expiry_cases) (auto intro: advances_same_objects)
next
  case (step_complete now r d r')
  then show ?case
    by (cases rule: complete_object_deletion_cases) (auto simp: advances_def row_advances_def)
qed (auto simp: abandon_object_upload_def expire_one_object_upload_def split: option.splits if_splits
      intro: add_advances release_advances stage_advances publish_advances drop_release_advances)

lemma reg_steps_advance: "reg_step\<^sup>*\<^sup>* r r' \<Longrightarrow> advances r r'"
  by (induction rule: rtranclp_induct) (auto intro: advances_trans reg_step_advances)

subsection \<open>A concrete run\<close>

definition demo_digest :: db_text where
  "demo_digest = replicate 64 (CHR ''a'')"

definition demo_staged :: registry where
  "demo_staged = \<lparr>objects = [object_ref demo_digest \<mapsto> new_object demo_digest ''image/png'' 3],
     references = [(object_ref demo_digest, staging_kind, 7, ''payload'')],
     uploads = [\<lparr>up_id = 7, up_ref = object_ref demo_digest, up_owner = Some 1, up_created_at = 10,
       up_expires_at = 10 + upload_lease\<rparr>],
     requests = [], receipts = []\<rparr>"

definition demo_published :: registry where
  "demo_published = demo_staged\<lparr>references := [(object_ref demo_digest, ''knowledge_document'', 5, ''original'')],
     uploads := []\<rparr>"

definition demo_deletion :: deletion_identity where
  "demo_deletion = \<lparr>deletion_id = 9, del_ref = object_ref demo_digest, del_digest = demo_digest, del_length = 3\<rparr>"

definition demo_released :: registry where
  "demo_released = demo_published\<lparr>references := [],
     objects := [object_ref demo_digest \<mapsto> (new_object demo_digest ''image/png'' 3)\<lparr>row_state := Deleting,
       deleting_at := Some 30\<rparr>],
     requests := [demo_deletion]\<rparr>"

lemmas demo_defs = demo_staged_def demo_published_def demo_released_def demo_deletion_def
  new_object_def empty_registry_def

lemma demo_columns: "object_columns_ok (object_ref demo_digest) demo_digest ''image/png'' 3"
  by (simp add: object_columns_ok_def is_sha256_def demo_digest_def is_media_type_def is_media_name_def
      is_lower_alnum_def list_all_iff)

lemma demo_reference_columns:
  "reference_columns_ok staging_kind ''payload''" "reference_columns_ok ''knowledge_document'' ''original''"
  by (simp_all add: reference_columns_ok_def is_owner_kind_def is_lower_alnum_def staging_kind_def)

lemma demo_stage:
  "stage_object_upload 10 empty_registry 7 (object_ref demo_digest) demo_digest ''image/png'' 3 (Some 1) = Inr demo_staged"
  using demo_columns demo_reference_columns
  by (simp add: stage_object_upload_def add_object_reference_def insert_object_def lock_object_def
      check_object_def insert_reference_def find_upload_def exists_row_iff demo_defs)

lemma demo_publish:
  "publish_object_reference 20 demo_staged (Some 7) (object_ref demo_digest) demo_digest ''image/png'' 3
     ''knowledge_document'' 5 ''original'' (Some 1) = Inr demo_published"
  using demo_columns demo_reference_columns
  by (simp add: publish_object_reference_def check_staging_def add_object_reference_def insert_object_def
      lock_object_def check_object_def insert_reference_def find_upload_def exists_row_iff
      release_object_reference_def delete_rows_def has_references_iff load_deletion_def drop_upload_def
      staging_kind_def upload_lease_def demo_defs Let_def)

lemma demo_release:
  "release_object_reference 30 demo_published (object_ref demo_digest) ''knowledge_document'' 5 ''original'' 9
     = Inr (Some demo_deletion, demo_released)"
  by (simp add: release_object_reference_def lock_object_def delete_rows_def has_references_iff
      insert_request_def exists_row_iff load_deletion_def demo_defs Let_def)


lemma demo_reachable: "reg_step\<^sup>*\<^sup>* empty_registry demo_staged" "reg_step\<^sup>*\<^sup>* empty_registry demo_published"
  "reg_step\<^sup>*\<^sup>* empty_registry demo_released"
proof -
  have 1: "reg_step empty_registry demo_staged" by (rule step_stage [OF demo_stage])
  have 2: "reg_step demo_staged demo_published" by (rule step_publish [OF demo_publish])
  have 3: "reg_step demo_published demo_released"
    by (rule step_release [OF _ demo_release]) (simp add: staging_kind_def)
  from 1 2 3 show "reg_step\<^sup>*\<^sup>* empty_registry demo_staged" "reg_step\<^sup>*\<^sup>* empty_registry demo_published"
    "reg_step\<^sup>*\<^sup>* empty_registry demo_released" by auto
qed

subsection \<open>Ownership and deletion\<close>



text \<open>
  C7: a digest whose bytes are being or have been deleted is never revived: whatever operations
  run afterwards, the object stays unavailable and unreferenced, and every attempt to add a
  reference to it fails.
\<close>

theorem deleted_object_never_revived:
  assumes reach: "reg_step\<^sup>*\<^sup>* empty_registry r" and row: "objects r oref = Some row"
    and gone: "row_state row \<noteq> Available" and steps: "reg_step\<^sup>*\<^sup>* r r'"
  shows "(\<exists>row'. objects r' oref = Some row' \<and> row_state row' \<noteq> Available
           \<and> (row_state row = Deleted \<longrightarrow> row_state row' = Deleted))
    \<and> \<not> has_references r' oref
    \<and> (\<forall>digest media len kind owner occ r''.
         add_object_reference r' oref digest media len kind owner occ \<noteq> Inr r'')"
proof -
  from reg_steps_advance [OF steps] row obtain row' where row': "objects r' oref = Some row'"
      and adv: "row_advances row row'"
    unfolding advances_def by blast
  from adv gone have st: "row_state row' \<noteq> Available \<and> (row_state row = Deleted \<longrightarrow> row_state row' = Deleted)"
    by (cases "row_state row"; cases "row_state row'") (auto simp: row_advances_def)
  have inv: "registry_inv r'" using reach steps by (intro reg.inv_reachable) simp
  then have "\<not> has_references r' oref"
    using row' st by (force simp: registry_inv_def inv_references_def has_references_iff)
  moreover have "add_object_reference r' oref digest media len kind owner occ \<noteq> Inr r''"
    for digest media len kind owner occ r''
    using row' st by (auto elim!: add_object_reference_cases)
  ultimately show ?thesis using row' st by blast
qed

theorem deleted_object_never_revived_witness:
  "\<not> has_references demo_released (object_ref demo_digest)
   \<and> (\<forall>r''. add_object_reference demo_released (object_ref demo_digest) demo_digest ''image/png'' 3 ''tender'' 2 ''x'' \<noteq> Inr r'')"
proof -
  obtain row where row: "objects demo_released (object_ref demo_digest) = Some row" "row_state row \<noteq> Available"
    by (simp add: demo_defs)
  show ?thesis using deleted_object_never_revived [OF demo_reachable(3) row rtranclp.rtrancl_refl] by blast
qed








text \<open>
  Publishing a staged upload moves ownership in one transaction: it needs a live lease of the
  same user on the same object, afterwards the business owner references the object, the staging
  row and the staging reference are gone, and the object is available throughout.
\<close>

lemma publish_transfers_ownership:
  assumes reach: "reg_step\<^sup>*\<^sup>* empty_registry r"
    and pub: "publish_object_reference now r (Some sid) oref digest media len kind owner occ user = Inr r'"
    and other: "(kind, owner, occ) \<noteq> (staging_kind, sid, ''payload'')"
  shows "(\<exists>u. find_upload r sid = Some u \<and> now < up_expires_at u \<and> up_ref u = oref \<and> up_owner u = user)
    \<and> (oref, kind, owner, occ) \<in> set (references r')
    \<and> (oref, staging_kind, sid, ''payload'') \<notin> set (references r')
    \<and> find_upload r' sid = None
    \<and> (\<exists>row. objects r' oref = Some row \<and> row_state row = Available
          \<and> content_sha256 row = digest \<and> byte_length row = len)"
proof -
  have inv: "registry_inv r" by (rule reg.inv_reachable [OF reach])
  from pub obtain u r1 del where u: "find_upload r sid = Some u" "now < up_expires_at u" "up_ref u = oref" "up_owner u = user"
    and add: "add_object_reference r oref digest media len kind owner occ = Inr r1"
    and rel: "release_object_reference now (drop_upload r1 sid) oref staging_kind sid ''payload'' sid = Inr (del, r')"
    by (cases rule: publish_object_reference_cases) auto
  have mem1: "(oref, kind, owner, occ) \<in> set (references r1)"
    and row1: "\<exists>row. objects r1 oref = Some row \<and> content_sha256 row = digest \<and> byte_length row = len"
    using add by (cases rule: add_object_reference_cases; auto simp: new_object_def)+
  have refs: "set (references r') = set (references r1) - {(oref, staging_kind, sid, ''payload'')}"
    and ups: "uploads r' = uploads (drop_upload r1 sid)"
    using rel by (cases rule: release_object_reference_cases; auto simp: table_simps)+
  have mem: "(oref, kind, owner, occ) \<in> set (references r')" using refs mem1 other by auto
  have inv': "registry_inv r'" by (rule publish_object_reference_inv [OF pub inv])
  obtain row where row: "objects r' oref = Some row" "content_sha256 row = digest" "byte_length row = len"
    using drop_release_advances [OF rel] row1 unfolding advances_def row_advances_def by metis
  have "row_state row = Available"
    using registry_inv_row(2) [OF inv' row(1)] mem by force
  moreover have "find_upload r' sid = None" by (simp add: find_upload_None ups)
  ultimately show ?thesis using u mem refs row by auto
qed

text \<open>
  Releasing an owned reference of a business owner always succeeds with a fresh deletion id.
  The last release marks the object as deleting and returns exactly one durable deletion identity
  (the object's digest and length); any earlier release returns none and the object stays available.
\<close>

lemma release_object_reference_total:
  assumes reach: "reg_step\<^sup>*\<^sup>* empty_registry r"
    and mem: "(oref, kind, owner, occ) \<in> set (references r)"
    and fresh: "\<forall>d\<in>set (requests r). deletion_id d \<noteq> did"
  shows "\<exists>del r' row row'. release_object_reference now r oref kind owner occ did = Inr (del, r')
    \<and> set (references r') = set (references r) - {(oref, kind, owner, occ)}
    \<and> objects r oref = Some row \<and> objects r' oref = Some row'
    \<and> (if has_references r' oref then del = None \<and> row_state row' = Available
       else del = Some \<lparr>deletion_id = did, del_ref = oref, del_digest = content_sha256 row,
                         del_length = byte_length row\<rparr>
            \<and> row_state row' = Deleting)"
proof -
  have inv: "registry_inv r" by (rule reg.inv_reachable [OF reach])
  obtain row where row: "objects r oref = Some row"
    using registry_inv_fk [OF inv] mem by force
  have avail: "row_state row = Available" using registry_inv_row(2) [OF inv row] mem by force
  have req: "\<forall>d\<in>set (requests r). del_ref d \<noteq> oref" using registry_inv_row(3) [OF inv row] avail by blast
  have cols: "object_ref (content_sha256 row) = oref" "0 \<le> byte_length row"
    using registry_inv_row(1) [OF inv row] by (auto simp: object_columns_ok_def)
  have nl: "find (\<lambda>d. deletion_id d = did) (requests r) = None" using fresh by (simp add: find_None_iff)
  let ?r1 = "r\<lparr>references := delete_rows (\<lambda>q. q = (oref, kind, owner, occ)) (references r)\<rparr>"
  show ?thesis
  proof (cases "has_references ?r1 oref")
    case True
    then have "release_object_reference now r oref kind owner occ did = Inr (None, ?r1)"
      by (simp add: release_object_reference_def lock_object_def row load_deletion_def nl Let_def)
    moreover have "set (references ?r1) = set (references r) - {(oref, kind, owner, occ)}"
      by (auto simp: table_simps)
    ultimately show ?thesis using True row avail by auto
  next
    case False
    let ?d = "\<lparr>deletion_id = did, del_ref = oref, del_digest = content_sha256 row, del_length = byte_length row\<rparr>"
    let ?r2 = "?r1\<lparr>objects := (objects r)(oref \<mapsto> row\<lparr>row_state := Deleting, deleting_at := Some now\<rparr>),
                  requests := requests r @ [?d]\<rparr>"
    have "find (\<lambda>d. deletion_id d = did) (requests r @ [?d]) = Some ?d"
      by (rule find_unique_row) (use fresh in auto)
    then have "release_object_reference now r oref kind owner occ did = Inr (Some ?d, ?r2)"
      using False avail req fresh cols
      by (simp add: release_object_reference_def lock_object_def row load_deletion_def insert_request_def
          exists_row_iff Let_def)
    moreover have "set (references ?r2) = set (references r) - {(oref, kind, owner, occ)}"
      by (auto simp: table_simps)
    moreover have "\<not> has_references ?r2 oref" using False by (simp add: has_references_iff)
    ultimately show ?thesis using row by auto
  qed
qed

subsection \<open>Staged upload cleanup\<close>

text \<open>
  \<^verbatim>\<open>StagedObjectCleanupTracker\<close>: the staging ids a handler created and has not handed over yet.
  The Oxana queue is not part of the repository: \<open>enqueue\<close> is its answer for a staging id
  (\<open>Inr None\<close> when no queue is configured).  \<open>clock sid\<close> is the database time at which the expiry
  request for \<open>sid\<close> runs.  The supervisor runs \<open>cleanup_pending\<close> after its producer has stopped,
  so no other thread changes the list meanwhile.
\<close>

type_synonym tracker = "uuid list"

definition tracker_register :: "tracker \<Rightarrow> uuid \<Rightarrow> tracker" where
  "tracker_register ids sid = (if sid \<in> set ids then ids else ids @ [sid])"

definition tracker_disarm :: "tracker \<Rightarrow> uuid \<Rightarrow> tracker" where
  "tracker_disarm ids sid = filter (\<lambda>v. v \<noteq> sid) ids"

definition tracker_disarm_all :: "tracker \<Rightarrow> tracker" where
  "tracker_disarm_all ids = []"

datatype cleanup_error = ExpiryRequestFailed uuid db_error | SchedulingFailed uuid string

definition schedule_object_upload_cleanup :: "(uuid \<Rightarrow> string + string option) \<Rightarrow> uuid \<Rightarrow> string + unit" where
  "schedule_object_upload_cleanup enqueue sid =
     rbind (enqueue sid) (\<lambda>queued. case queued of
        None \<Rightarrow> Inl ''Oxana Redis is not configured for upload cleanup''
      | Some _ \<Rightarrow> Inr ())"

fun cleanup_pending ::
  "(uuid \<Rightarrow> string + string option) \<Rightarrow> (uuid \<Rightarrow> timestamp) \<Rightarrow> tracker \<Rightarrow> registry \<Rightarrow>
    tracker \<times> registry \<times> (cleanup_error + unit)" where
  "cleanup_pending enqueue clock [] r = ([], r, Inr ())"
| "cleanup_pending enqueue clock (sid # ids) r =
     (case request_object_upload_expiry (clock sid) r sid None of
        Inl e \<Rightarrow> (sid # ids, r, Inl (ExpiryRequestFailed sid e))
      | Inr r' \<Rightarrow>
          (case schedule_object_upload_cleanup enqueue sid of
             Inl e \<Rightarrow> (sid # ids, r', Inl (SchedulingFailed sid e))
           | Inr _ \<Rightarrow> cleanup_pending enqueue clock ids r'))"

lemma tracker_distinct:
  "distinct ids \<Longrightarrow> distinct (tracker_register ids sid)"
  "distinct ids \<Longrightarrow> distinct (tracker_disarm ids sid)"
  by (simp_all add: tracker_register_def tracker_disarm_def)

lemma cleanup_pending_inv:
  "cleanup_pending enqueue clock ids r = (rest, r', res) \<Longrightarrow> registry_inv r \<Longrightarrow> registry_inv r'"
  by (induction enqueue clock ids r rule: cleanup_pending.induct)
    (auto split: sum.splits dest: request_object_upload_expiry_inv)

text \<open>
  C26: cleanup loses no staging id.  The ids still pending afterwards are a suffix of those before;
  every id taken off the list was acknowledged by the queue; the run succeeds only with an empty
  list, and on an error the failing id is still first in the list, so a retry resumes there.
\<close>

theorem cleanup_pending_loses_nothing:
  assumes "cleanup_pending enqueue clock ids r = (rest, r', result)"
  shows "\<exists>handed. ids = handed @ rest
    \<and> (\<forall>sid\<in>set handed. \<exists>job. enqueue sid = Inr (Some job))
    \<and> (result = Inr () \<longleftrightarrow> rest = [])
    \<and> (\<forall>e. result = Inl e \<longrightarrow> (\<exists>sid. rest \<noteq> [] \<and> hd rest = sid
          \<and> ((\<exists>d. e = ExpiryRequestFailed sid d) \<or> (\<exists>m. e = SchedulingFailed sid m))))"
  using assms
proof (induction enqueue clock ids r rule: cleanup_pending.induct)
  case (1 enqueue clock r)
  then show ?case by auto
next
  case (2 enqueue clock sid ids r)
  show ?case
  proof (cases "request_object_upload_expiry (clock sid) r sid None")
    case (Inl e)
    with "2.prems" show ?thesis by auto
  next
    case (Inr r1)
    show ?thesis
    proof (cases "schedule_object_upload_cleanup enqueue sid")
      case (Inl m)
      with Inr "2.prems" show ?thesis by auto
    next
      case ok: (Inr u)
      from ok have ack: "\<exists>job. enqueue sid = Inr (Some job)"
        by (auto simp: schedule_object_upload_cleanup_def result_simps split: option.splits)
      from ok Inr "2.prems" have rec: "cleanup_pending enqueue clock ids r1 = (rest, r', result)" by simp
      from "2.IH" [OF Inr ok rec] obtain handed where h: "ids = handed @ rest"
        "\<forall>sid\<in>set handed. \<exists>job. enqueue sid = Inr (Some job)" "result = Inr () \<longleftrightarrow> rest = []"
        "\<forall>e. result = Inl e \<longrightarrow> (\<exists>sid. rest \<noteq> [] \<and> hd rest = sid
          \<and> ((\<exists>d. e = ExpiryRequestFailed sid d) \<or> (\<exists>m. e = SchedulingFailed sid m)))"
        by blast
      show ?thesis
        by (rule exI [of _ "sid # handed"]) (use h ack in auto)
    qed
  qed
qed

theorem cleanup_pending_loses_nothing_witness:
  "\<exists>r'. cleanup_pending (\<lambda>sid. if sid = 4 then Inl ''down'' else Inr (Some ''job'')) (\<lambda>_. 5) [3, 4, 8] empty_registry
     = ([4, 8], r', Inl (SchedulingFailed 4 ''down'')) \<and> hd [4, 8 :: nat] = 4"
proof -
  let ?enq = "\<lambda>sid. if sid = (4::nat) then Inl ''down'' else Inr (Some ''job'')"
  have run: "cleanup_pending ?enq (\<lambda>_. 5) [3, 4, 8] empty_registry
      = ([4, 8], empty_registry, Inl (SchedulingFailed 4 ''down''))"
    by (simp add: request_object_upload_expiry_def find_upload_def empty_registry_def
        schedule_object_upload_cleanup_def)
  show ?thesis using cleanup_pending_loses_nothing [OF run] run by auto
qed

end
