(* ===== verification/Knowledge_Db.thy ===== *)
theory Knowledge_Db
  imports Status Object_Registry
begin

text \<open>
  The tables of \<^verbatim>\<open>migrations/20261028000002_knowledge_base.sql\<close> that the document workflow reads and
  writes, each a list of rows in a record \<open>kdb\<close> that also carries the object registry.  A
  transaction sees a \<open>kdb\<close> and returns the new one.  Foreign keys are part of the statements
  that can break or trigger them: a deletion of chunks cascades to their embeddings and clears
  the parent of the chunks below them, an insertion into the outbox or the receipts needs its document.

  \<open>source_refs\<close> of a wiki page is the list of the document ids it cites (the column stores their
  text), \<open>source_passages\<close> is \<open>None\<close> for any JSON value that is not an array.
\<close>

record document_row =
  doc_id :: uuid
  doc_version :: uuid
  doc_kind :: db_text
  doc_title :: db_text
  doc_file_name :: db_text
  doc_byte_length :: int
  doc_sha256 :: db_text
  doc_object_ref :: db_text
  doc_parse :: parse_status
  doc_pending :: int
  doc_summary :: summary_status
  doc_enable :: enable_status
  doc_index_ready :: bool
  doc_description :: db_text
  doc_attempt :: int
  doc_active :: int
  doc_passages :: "db_text list option"
  doc_error :: "db_text option"
  doc_updated :: timestamp
  doc_deleted :: "timestamp option"

datatype work =
    Convert "db_text list" bool
  | Postprocess bool
  | Summary
  | Datatable
  | Questions "uuid list" "uuid option list" "uuid option list" nat
  | Extract uuid
  | Image db_text db_text
  | Wiki
  | Reconcile

record outbox_row =
  ob_doc :: uuid
  ob_version :: uuid
  ob_attempt :: int
  ob_key :: db_text
  ob_payload :: work
  ob_derived :: bool
  ob_state :: outbox_state
  ob_deliveries :: int
  ob_revision :: int
  ob_next :: timestamp
  ob_error :: "db_text option"

type_synonym receipt_row = "uuid \<times> int \<times> db_text"
  \<comment> \<open>\<open>(document_id, attempt, job_key)\<close>\<close>

record chunk_row =
  ck_id :: uuid
  ck_version :: uuid
  ck_doc :: uuid
  ck_generation :: int
  ck_type :: db_text
  ck_content :: db_text
  ck_header :: db_text
  ck_start :: int
  ck_end :: int
  ck_parent :: "uuid option"
  ck_questions :: "db_text list"
  ck_locator :: "db_text option"

record embedding_row =
  em_chunk :: uuid
  em_version :: uuid
  em_doc :: uuid
  em_vector :: "nat list"
  em_content :: db_text

record wiki_page_row =
  wp_version :: uuid
  wp_slug :: db_text
  wp_status :: wiki_status
  wp_source_refs :: "uuid list"
  wp_updated :: timestamp

record span_row =
  sp_doc :: uuid
  sp_attempt :: int
  sp_name :: db_text
  sp_id :: "uuid option"
  sp_parent :: "uuid option"
  sp_kind :: "db_text option"
  sp_status :: "db_text option"
  sp_input :: "db_text option"
  sp_output :: "db_text option"
  sp_error_code :: "db_text option"
  sp_error :: "db_text option"
  sp_started :: "timestamp option"
  sp_finished :: "timestamp option"
  sp_duration :: "int option"

record version_row =
  ver_id :: uuid
  ver_status :: version_status
  ver_deleted :: "timestamp option"

type_synonym audit_row = "db_text \<times> db_text \<times> uuid"
  \<comment> \<open>\<open>(operation, idempotency_key, document_id)\<close>; the digest columns are left out\<close>

record kdb =
  k_documents :: "document_row list"
  k_outbox :: "outbox_row list"
  k_receipts :: "receipt_row list"
  k_chunks :: "chunk_row list"
  k_embeddings :: "embedding_row list"
  k_pages :: "wiki_page_row list"
  k_spans :: "span_row list"
  k_versions :: "version_row list"
  k_registry :: registry
  k_audit :: "audit_row list"

definition empty_kdb :: kdb where
  "empty_kdb = \<lparr>k_documents = [], k_outbox = [], k_receipts = [], k_chunks = [], k_embeddings = [],
     k_pages = [], k_spans = [], k_versions = [], k_registry = empty_registry, k_audit = []\<rparr>"

subsection \<open>Statements\<close>

definition find_document :: "kdb \<Rightarrow> uuid \<Rightarrow> document_row option" where
  "find_document db did = find (\<lambda>d. doc_id d = did) (k_documents db)"

definition update_documents ::
  "(document_row \<Rightarrow> bool) \<Rightarrow> (document_row \<Rightarrow> document_row) \<Rightarrow> kdb \<Rightarrow> kdb" where
  "update_documents P f db = db\<lparr>k_documents := update_rows P f (k_documents db)\<rparr>"

definition update_outbox :: "(outbox_row \<Rightarrow> bool) \<Rightarrow> (outbox_row \<Rightarrow> outbox_row) \<Rightarrow> kdb \<Rightarrow> kdb" where
  "update_outbox P f db = db\<lparr>k_outbox := update_rows P f (k_outbox db)\<rparr>"

definition update_spans :: "(span_row \<Rightarrow> bool) \<Rightarrow> (span_row \<Rightarrow> span_row) \<Rightarrow> kdb \<Rightarrow> kdb" where
  "update_spans P f db = db\<lparr>k_spans := update_rows P f (k_spans db)\<rparr>"

definition outbox_at :: "uuid \<Rightarrow> int \<Rightarrow> db_text \<Rightarrow> outbox_row \<Rightarrow> bool" where
  "outbox_at did attempt key o' \<longleftrightarrow> ob_doc o' = did \<and> ob_attempt o' = attempt \<and> ob_key o' = key"

definition ob_ident :: "outbox_row \<Rightarrow> uuid \<times> int \<times> db_text" where
  "ob_ident o' = (ob_doc o', ob_attempt o', ob_key o')"

definition live :: "outbox_row \<Rightarrow> bool" where
  "live o' \<longleftrightarrow> ob_state o' \<in> {ObPending, ObPublished}"

text \<open>
  \<open>INSERT INTO knowledge_job_outbox\<close> with the defaults of the table: pending, never delivered,
  revision one, due now.
\<close>

definition new_outbox :: "timestamp \<Rightarrow> uuid \<Rightarrow> uuid \<Rightarrow> int \<Rightarrow> db_text \<Rightarrow> work \<Rightarrow> bool \<Rightarrow> outbox_row" where
  "new_outbox now did vid attempt key payload derived =
     \<lparr>ob_doc = did, ob_version = vid, ob_attempt = attempt, ob_key = key, ob_payload = payload,
      ob_derived = derived, ob_state = ObPending, ob_deliveries = 0, ob_revision = 1, ob_next = now,
      ob_error = None\<rparr>"

definition insert_outbox :: "outbox_row \<Rightarrow> kdb \<Rightarrow> kdb" where
  "insert_outbox o' db =
     (if exists_row (outbox_at (ob_doc o') (ob_attempt o') (ob_key o')) (k_outbox db) then db
      else db\<lparr>k_outbox := k_outbox db @ [o']\<rparr>)"

definition delete_chunks :: "(chunk_row \<Rightarrow> bool) \<Rightarrow> kdb \<Rightarrow> kdb" where
  "delete_chunks P db =
     (let gone = map ck_id (filter P (k_chunks db)) in
      db\<lparr>k_chunks := map (\<lambda>c. case ck_parent c of
                              None \<Rightarrow> c
                            | Some p \<Rightarrow> if p \<in> set gone then c\<lparr>ck_parent := None\<rparr> else c)
                      (delete_rows P (k_chunks db)),
         k_embeddings := delete_rows (\<lambda>e. em_chunk e \<in> set gone) (k_embeddings db)\<rparr>)"

subsection \<open>Objects of documents\<close>

text \<open>
  \<^verbatim>\<open>object_registry/knowledge.rs\<close>: a document row owns one \<open>original\<close> reference of its stored
  object.  Both operations run in the transaction of their caller and leave an audit event.
\<close>

definition owns_original :: "kdb \<Rightarrow> uuid \<Rightarrow> bool" where
  "owns_original db did \<longleftrightarrow>
     exists_row (\<lambda>(r, k, o', occ). k = ''knowledge_document'' \<and> o' = did \<and> occ = ''original'')
       (references (k_registry db))"

definition register_knowledge_document_object_in_tx ::
  "kdb \<Rightarrow> uuid \<Rightarrow> db_text \<Rightarrow> db_text \<Rightarrow> (db_text \<times> kdb) db_result" where
  "register_knowledge_document_object_in_tx db did media idem =
     rbind (fetch_one (find_document db did)) (\<lambda>d.
       if doc_deleted d \<noteq> None
       then Inl (Protocol ''deleted knowledge document cannot acquire an object'')
       else rbind (add_object_reference (k_registry db) (doc_object_ref d) (doc_sha256 d) media
                     (doc_byte_length d) ''knowledge_document'' did ''original'') (\<lambda>r.
         Inr (doc_object_ref d,
              db\<lparr>k_registry := r,
                 k_audit := (if owns_original db did then k_audit db
                             else k_audit db @ [(''knowledge.document.object.register'', idem, did)])\<rparr>)))"

definition release_knowledge_document_object_in_tx ::
  "timestamp \<Rightarrow> kdb \<Rightarrow> uuid \<Rightarrow> db_text \<Rightarrow> uuid \<Rightarrow> (deletion_identity option \<times> kdb) db_result" where
  "release_knowledge_document_object_in_tx now db did idem audit_id =
     rbind (fetch_one (find_document db did)) (\<lambda>d.
       if doc_deleted d \<noteq> None \<and> \<not> owns_original db did then Inr (None, db)
       else rbind (release_object_reference now (k_registry db) (doc_object_ref d)
                     ''knowledge_document'' did ''original'' audit_id) (\<lambda>(deletion, r).
         Inr (deletion,
              update_documents (\<lambda>d. doc_id d = did)
                (\<lambda>d. d\<lparr>doc_deleted := Some (case doc_deleted d of Some t \<Rightarrow> t | None \<Rightarrow> now), doc_updated := now\<rparr>)
                (db\<lparr>k_registry := r,
                    k_audit := k_audit db @ [(''knowledge.document.object.release'', idem, did)]\<rparr>))))"

subsection \<open>What the statements leave alone\<close>

lemma update_documents_sel [simp]:
  "k_documents (update_documents P f db) = update_rows P f (k_documents db)"
  "k_outbox (update_documents P f db) = k_outbox db"
  "k_receipts (update_documents P f db) = k_receipts db"
  "k_chunks (update_documents P f db) = k_chunks db"
  "k_embeddings (update_documents P f db) = k_embeddings db"
  "k_pages (update_documents P f db) = k_pages db"
  "k_spans (update_documents P f db) = k_spans db"
  "k_versions (update_documents P f db) = k_versions db"
  "k_registry (update_documents P f db) = k_registry db"
  by (simp_all add: update_documents_def)

lemma update_outbox_sel [simp]:
  "k_documents (update_outbox P g db) = k_documents db"
  "k_outbox (update_outbox P g db) = update_rows P g (k_outbox db)"
  "k_receipts (update_outbox P g db) = k_receipts db"
  "k_chunks (update_outbox P g db) = k_chunks db"
  "k_embeddings (update_outbox P g db) = k_embeddings db"
  "k_pages (update_outbox P g db) = k_pages db"
  "k_spans (update_outbox P g db) = k_spans db"
  "k_versions (update_outbox P g db) = k_versions db"
  "k_registry (update_outbox P g db) = k_registry db"
  by (simp_all add: update_outbox_def)

lemma update_spans_sel [simp]:
  "k_documents (update_spans P h db) = k_documents db"
  "k_outbox (update_spans P h db) = k_outbox db"
  "k_receipts (update_spans P h db) = k_receipts db"
  "k_chunks (update_spans P h db) = k_chunks db"
  "k_embeddings (update_spans P h db) = k_embeddings db"
  "k_spans (update_spans P h db) = update_rows P h (k_spans db)"
  by (simp_all add: update_spans_def)

lemma delete_chunks_sel [simp]:
  "k_documents (delete_chunks Q db) = k_documents db"
  "k_outbox (delete_chunks Q db) = k_outbox db"
  "k_receipts (delete_chunks Q db) = k_receipts db"
  "k_spans (delete_chunks Q db) = k_spans db"
  "k_pages (delete_chunks Q db) = k_pages db"
  "k_registry (delete_chunks Q db) = k_registry db"
  by (simp_all add: delete_chunks_def Let_def)

lemma insert_outbox_sel [simp]:
  "k_documents (insert_outbox o' db) = k_documents db"
  "k_receipts (insert_outbox o' db) = k_receipts db"
  "k_chunks (insert_outbox o' db) = k_chunks db"
  "k_embeddings (insert_outbox o' db) = k_embeddings db"
  "k_pages (insert_outbox o' db) = k_pages db"
  "k_spans (insert_outbox o' db) = k_spans db"
  "k_registry (insert_outbox o' db) = k_registry db"
  by (simp_all add: insert_outbox_def)

lemma find_document_cong [simp]:
  "find_document (update_outbox P g db) did = find_document db did"
  "find_document (update_spans R h db) did = find_document db did"
  "find_document (delete_chunks Q db) did = find_document db did"
  "find_document (insert_outbox o' db) did = find_document db did"
  by (simp_all add: find_document_def)

lemma find_document_update:
  assumes "\<And>d. doc_id (f d) = doc_id d"
  shows "find_document (update_documents P f db) did
         = map_option (\<lambda>d. if P d then f d else d) (find_document db did)"
  unfolding find_document_def update_documents_sel
  by (rule find_update_rows) (simp add: assms)

lemma find_document_Some: "find_document db did = Some d \<Longrightarrow> d \<in> set (k_documents db) \<and> doc_id d = did"
  unfolding find_document_def by (rule find_Some_in_set)

lemma find_document_in:
  assumes "distinct (map doc_id (k_documents db))" and "d \<in> set (k_documents db)"
  shows "find_document db (doc_id d) = Some d"
  unfolding find_document_def
  by (rule find_unique_row) (use assms in \<open>auto dest: eq_key_imp_eq_value simp: distinct_map inj_on_def\<close>)

lemma outbox_at_ident: "outbox_at did attempt key o' \<longleftrightarrow> ob_ident o' = (did, attempt, key)"
  by (auto simp: outbox_at_def ob_ident_def)

lemma exists_outbox_ident:
  "exists_row (outbox_at did attempt key) rows \<longleftrightarrow> (did, attempt, key) \<in> ob_ident ` set rows"
  unfolding exists_row_iff outbox_at_ident by (metis (no_types, lifting) image_iff)

lemma ob_ident_insert_outbox:
  "ob_ident ` set (k_outbox (insert_outbox o' db)) = insert (ob_ident o') (ob_ident ` set (k_outbox db))"
  by (simp add: insert_outbox_def exists_outbox_ident ob_ident_def [of o', symmetric] insert_absorb)

lemma distinct_insert_outbox:
  "distinct (map ob_ident (k_outbox db)) \<Longrightarrow> distinct (map ob_ident (k_outbox (insert_outbox o' db)))"
  by (simp add: insert_outbox_def exists_outbox_ident ob_ident_def [of o', symmetric])

lemma set_insert_outbox_subset: "set (k_outbox (insert_outbox o' db)) \<subseteq> insert o' (set (k_outbox db))"
  by (auto simp: insert_outbox_def)

lemma set_insert_outbox_mono: "set (k_outbox db) \<subseteq> set (k_outbox (insert_outbox o' db))"
  by (auto simp: insert_outbox_def)

end
