(* ===== verification/Workflow.thy ===== *)
theory Workflow
  imports Knowledge_Db
begin

text \<open>
  The durable workflow of a document generation (\<^verbatim>\<open>crates/knowledge/src/workflow.rs\<close>,
  \<^verbatim>\<open>workflow/lifecycle.rs\<close> and the state-changing operations of \<^verbatim>\<open>catalog/document.rs\<close>).

  A document has an \<open>attempt\<close> (the generation being built) and an \<open>active_generation\<close> (the one
  readers see).  Each operation is one transaction: it locks the document, changes it, and
  \<open>record_document_change\<close> derives from the difference the queue obligations and the clean-up of
  derived data.  A worker's result is accepted only while its attempt is the document's, and at
  most once, by a receipt written in the same transaction.

  \<open>now\<close> is the transaction's time in microseconds.  The text of a \<^verbatim>\<open>Uuid\<close> is the parameter \<open>ut\<close>
  (the \<^verbatim>\<open>uuid\<close> crate prints it), the queue and the semantic index are the parameters \<open>enqueue\<close>
  and \<open>prepare\<close> of \<open>dispatch\<close>.  \<open>attempt\<close> is a PostgreSQL \<^verbatim>\<open>integer\<close> whose increment fails at the
  maximum; \<open>revision\<close> (\<^verbatim>\<open>bigint\<close>) and the counters are integers.
\<close>

subsection \<open>Work\<close>

fun work_key :: "(uuid \<Rightarrow> string) \<Rightarrow> work \<Rightarrow> db_text" where
  "work_key ut (Convert passages manual) = ''convert''"
| "work_key ut (Postprocess clone_keep) = ''postprocess''"
| "work_key ut Summary = ''summary''"
| "work_key ut Datatable = ''datatable''"
| "work_key ut (Questions chunk_ids prev_ids next_ids batch) = ''questions:'' @ nat_to_dec batch"
| "work_key ut (Extract chunk_id) = ''extract:'' @ ut chunk_id"
| "work_key ut (Image image_key source_type) = ''image:'' @ image_key"
| "work_key ut Wiki = ''wiki''"
| "work_key ut Reconcile = ''reconcile''"

fun work_derived :: "work \<Rightarrow> bool" where
  "work_derived Summary = True"
| "work_derived Datatable = True"
| "work_derived (Questions chunk_ids prev_ids next_ids batch) = True"
| "work_derived (Extract chunk_id) = True"
| "work_derived Wiki = True"
| "work_derived (Convert passages manual) = False"
| "work_derived (Postprocess clone_keep) = False"
| "work_derived (Image image_key source_type) = False"
| "work_derived Reconcile = False"

fun is_image :: "work \<Rightarrow> bool" where
  "is_image (Image image_key source_type) = True"
| "is_image w = False"

subsection \<open>Recording a change\<close>

record document_state =
  st_attempt :: int
  st_parse :: parse_status
  st_source :: "timestamp option \<times> enable_status \<times> bool \<times> parse_status \<times> summary_status \<times> int"

definition document_state_of :: "document_row \<Rightarrow> document_state" where
  "document_state_of d = \<lparr>st_attempt = doc_attempt d, st_parse = doc_parse d,
     st_source = (doc_deleted d, doc_enable d, doc_index_ready d, doc_parse d, doc_summary d, doc_active d)\<rparr>"

definition capture_document_state :: "kdb \<Rightarrow> uuid \<Rightarrow> document_state option" where
  "capture_document_state db did = map_option document_state_of (find_document db did)"

definition terminal_status :: "parse_status \<Rightarrow> bool" where
  "terminal_status s \<longleftrightarrow> s \<in> {PsCancelled, PsDeleting, PsDeleted}"

definition upsert_reconcile :: "timestamp \<Rightarrow> document_row \<Rightarrow> kdb \<Rightarrow> kdb" where
  "upsert_reconcile now d db =
     (if exists_row (outbox_at (doc_id d) (doc_attempt d) ''reconcile'') (k_outbox db)
      then update_outbox (outbox_at (doc_id d) (doc_attempt d) ''reconcile'')
             (\<lambda>w. w\<lparr>ob_state := ObPending, ob_deliveries := 0, ob_revision := ob_revision w + 1,
                    ob_next := now, ob_error := None\<rparr>) db
      else insert_outbox (new_outbox now (doc_id d) (doc_version d) (doc_attempt d) ''reconcile'' Reconcile False) db)"

definition convert_work :: "document_row \<Rightarrow> work" where
  "convert_work d = Convert (case doc_passages d of Some ps \<Rightarrow> ps | None \<Rightarrow> []) (doc_kind d = ''manual'')"

definition page_depends_on :: "document_row \<Rightarrow> wiki_page_row \<Rightarrow> bool" where
  "page_depends_on d p \<longleftrightarrow> wp_version p = doc_version d
     \<and> (doc_id d \<in> set (wp_source_refs p) \<or> wp_source_refs p = [])"

definition withdraw_wiki :: "timestamp \<Rightarrow> document_row \<Rightarrow> kdb \<Rightarrow> kdb" where
  "withdraw_wiki now d db =
     (let db1 = delete_chunks (\<lambda>c. ck_version c = doc_version d \<and> ck_type c = ''wiki_page''
                  \<and> exists_row (\<lambda>p. page_depends_on d p \<and> wp_slug p = ck_header c) (k_pages db)) db
      in db1\<lparr>k_pages := update_rows (page_depends_on d)
               (\<lambda>p. p\<lparr>wp_status := WsDraft, wp_updated := now\<rparr>) (k_pages db1)\<rparr>)"

definition record_document_change ::
  "timestamp \<Rightarrow> uuid \<Rightarrow> document_state option \<Rightarrow> kdb \<Rightarrow> kdb" where
  "record_document_change now did before db =
     (case find_document db did of
        None \<Rightarrow> db
      | Some d \<Rightarrow>
          (let after = document_state_of d;
               attempt_changed = (case before of None \<Rightarrow> False | Some old \<Rightarrow> st_attempt old \<noteq> st_attempt after);
               terminal = terminal_status (st_parse after);
               db1 = (if (case before of None \<Rightarrow> False | Some old \<Rightarrow> st_source old \<noteq> st_source after)
                      then upsert_reconcile now d db else db);
               db2 = (if attempt_changed \<or> terminal
                      then update_outbox
                             (\<lambda>w. ob_doc w = did \<and> ob_key w \<noteq> ''reconcile'' \<and> (ob_attempt w \<noteq> st_attempt after \<or> terminal))
                             (\<lambda>w. w\<lparr>ob_state := ObComplete\<rparr>) db1
                      else db1);
               db3 = (if st_parse after = PsPending \<and> (before = None \<or> attempt_changed)
                      then insert_outbox (new_outbox now did (doc_version d) (doc_attempt d) ''convert''
                             (convert_work d) False) db2
                      else db2)
           in if attempt_changed
                 \<or> (terminal \<and> (case before of None \<Rightarrow> False | Some old \<Rightarrow> st_parse old \<noteq> st_parse after))
              then withdraw_wiki now d db3 else db3))"

text \<open>
  Most operations have one shape: lock and read the document, update it, record the change.
\<close>

definition change_document ::
  "timestamp \<Rightarrow> uuid \<Rightarrow> (document_row \<Rightarrow> bool) \<Rightarrow> (document_row \<Rightarrow> document_row) \<Rightarrow> kdb \<Rightarrow> kdb" where
  "change_document now did P f db =
     record_document_change now did (capture_document_state db did)
       (update_documents (\<lambda>d. doc_id d = did \<and> P d) (\<lambda>d. (f d)\<lparr>doc_updated := now\<rparr>) db)"

subsection \<open>Obligations and receipts\<close>

definition in_progress :: "parse_status \<Rightarrow> bool" where
  "in_progress s \<longleftrightarrow> s \<in> {PsPending, PsProcessing, PsFinalizing}"

definition current_row :: "int \<Rightarrow> document_row \<Rightarrow> bool" where
  "current_row attempt d \<longleftrightarrow> doc_attempt d = attempt \<and> doc_deleted d = None \<and> in_progress (doc_parse d)"

definition current :: "kdb \<Rightarrow> uuid \<Rightarrow> int \<Rightarrow> bool" where
  "current db did attempt \<longleftrightarrow> exists_row (\<lambda>d. doc_id d = did \<and> current_row attempt d) (k_documents db)"

definition lock_current :: "kdb \<Rightarrow> uuid \<Rightarrow> int \<Rightarrow> bool" where
  "lock_current db did attempt \<longleftrightarrow>
     find (\<lambda>d. doc_id d = did \<and> current_row attempt d) (k_documents db) \<noteq> None"

definition put_tx ::
  "(uuid \<Rightarrow> string) \<Rightarrow> timestamp \<Rightarrow> uuid \<Rightarrow> uuid \<Rightarrow> int \<Rightarrow> work \<Rightarrow> kdb \<Rightarrow> kdb db_result" where
  "put_tx ut now did vid attempt w db =
     (if exists_row (outbox_at did attempt (work_key ut w)) (k_outbox db) then Inr db
      else if \<not> exists_row (\<lambda>d. doc_id d = did \<and> doc_version d = vid) (k_documents db)
      then Inl (ConstraintViolation ''knowledge_job_outbox_source_fk'')
      else Inr (insert_outbox (new_outbox now did vid attempt (work_key ut w) w (work_derived w)) db))"

definition put ::
  "(uuid \<Rightarrow> string) \<Rightarrow> timestamp \<Rightarrow> uuid \<Rightarrow> uuid \<Rightarrow> int \<Rightarrow> work \<Rightarrow> kdb \<Rightarrow> kdb db_result" where
  "put ut now did vid attempt w db =
     (if lock_current db did attempt then put_tx ut now did vid attempt w db else Inr db)"

definition pending :: "kdb \<Rightarrow> uuid \<Rightarrow> int \<Rightarrow> db_text \<Rightarrow> bool" where
  "pending db did attempt key \<longleftrightarrow>
     (if \<not> current db did attempt then False
      else exists_row (\<lambda>w. outbox_at did attempt key w \<and> live w) (k_outbox db)
           \<and> (did, attempt, key) \<notin> set (k_receipts db))"

definition starts_with :: "string \<Rightarrow> string \<Rightarrow> bool" where
  "starts_with prefix s \<longleftrightarrow> take (length prefix) s = prefix"

definition epoch_ms :: "timestamp \<Rightarrow> int" where
  "epoch_ms us = (if us \<ge> 0 then (us + 500) div 1000 else - ((- us + 500) div 1000))"

definition images_done :: "kdb \<Rightarrow> uuid \<Rightarrow> int \<Rightarrow> bool" where
  "images_done db did attempt \<longleftrightarrow>
     \<not> exists_row (\<lambda>w. ob_doc w = did \<and> ob_attempt w = attempt \<and> is_image (ob_payload w)
                      \<and> ob_state w \<noteq> ObComplete) (k_outbox db)"

definition join_images :: "timestamp \<Rightarrow> uuid \<Rightarrow> int \<Rightarrow> kdb \<Rightarrow> kdb" where
  "join_images now did attempt db =
     (let db1 = update_spans
                  (\<lambda>s. sp_doc s = did \<and> sp_attempt s = attempt \<and> sp_name s = ''multimodal'' \<and> images_done db did attempt)
                  (\<lambda>s. s\<lparr>sp_status := Some ''done'', sp_finished := Some now,
                         sp_duration := Some (epoch_ms (now - (case sp_started s of Some t \<Rightarrow> t | None \<Rightarrow> now)))\<rparr>) db
      in case find (\<lambda>d. doc_id d = did \<and> doc_attempt d = attempt) (k_documents db1) of
           None \<Rightarrow> db1
         | Some d \<Rightarrow>
             if images_done db1 did attempt
             then insert_outbox (new_outbox now did (doc_version d) attempt ''postprocess'' (Postprocess False) False) db1
             else db1)"

definition open_derived :: "kdb \<Rightarrow> uuid \<Rightarrow> int \<Rightarrow> nat" where
  "open_derived db did attempt =
     length (filter (\<lambda>w. ob_doc w = did \<and> ob_attempt w = attempt \<and> ob_derived w \<and> ob_state w \<noteq> ObComplete) (k_outbox db))"

definition no_error :: "document_row \<Rightarrow> bool" where
  "no_error d \<longleftrightarrow> (case doc_error d of None \<Rightarrow> True | Some e \<Rightarrow> e = '''')"

definition publish_generation :: "int \<Rightarrow> document_row \<Rightarrow> document_row" where
  "publish_generation attempt d = d\<lparr>doc_parse := PsCompleted, doc_active := attempt,
     doc_index_ready := True, doc_enable := EsEnabled\<rparr>"

definition complete_writes :: "timestamp \<Rightarrow> uuid \<Rightarrow> int \<Rightarrow> db_text \<Rightarrow> kdb \<Rightarrow> kdb" where
  "complete_writes now did attempt key db =
     (let db1 = db\<lparr>k_receipts := k_receipts db @ [(did, attempt, key)]\<rparr>;
          db2 = update_outbox (outbox_at did attempt key) (\<lambda>w. w\<lparr>ob_state := ObComplete, ob_error := None\<rparr>) db1;
          db3 = (if starts_with ''image:'' key then join_images now did attempt db2 else db2);
          db4 = update_documents (\<lambda>d. doc_id d = did \<and> doc_attempt d = attempt)
                  (\<lambda>d. d\<lparr>doc_pending := int (open_derived db3 did attempt), doc_updated := now\<rparr>) db3
      in update_documents
           (\<lambda>d. doc_id d = did \<and> doc_attempt d = attempt \<and> doc_parse d = PsFinalizing \<and> doc_pending d = 0
                \<and> doc_summary d \<notin> {SsPending, SsProcessing, SsFailed} \<and> no_error d)
           (\<lambda>d. (publish_generation attempt d)\<lparr>doc_updated := now\<rparr>) db4)"

definition complete_tx ::
  "timestamp \<Rightarrow> uuid \<Rightarrow> int \<Rightarrow> db_text \<Rightarrow> kdb \<Rightarrow> (bool \<times> kdb) db_result" where
  "complete_tx now did attempt key db =
     (let before = capture_document_state db did in
      if (did, attempt, key) \<in> set (k_receipts db) then Inr (False, db)
      else if find_document db did = None then Inl (ConstraintViolation ''knowledge_job_receipts_document_id_fkey'')
      else Inr (True, record_document_change now did before (complete_writes now did attempt key db)))"

definition complete :: "timestamp \<Rightarrow> uuid \<Rightarrow> int \<Rightarrow> db_text \<Rightarrow> kdb \<Rightarrow> (bool \<times> kdb) db_result" where
  "complete now did attempt key db =
     (if \<not> lock_current db did attempt then Inr (False, db) else complete_tx now did attempt key db)"

fun put_all ::
  "(uuid \<Rightarrow> string) \<Rightarrow> timestamp \<Rightarrow> uuid \<Rightarrow> uuid \<Rightarrow> int \<Rightarrow> work list \<Rightarrow> kdb \<Rightarrow> kdb db_result" where
  "put_all ut now did vid attempt [] db = Inr db"
| "put_all ut now did vid attempt (w # ws) db =
     rbind (put_tx ut now did vid attempt w db) (put_all ut now did vid attempt ws)"

definition begin_postprocess ::
  "(uuid \<Rightarrow> string) \<Rightarrow> timestamp \<Rightarrow> uuid \<Rightarrow> uuid \<Rightarrow> int \<Rightarrow> work list \<Rightarrow> kdb \<Rightarrow> (bool \<times> kdb) db_result" where
  "begin_postprocess ut now did vid attempt ws db =
     (let before = capture_document_state db did in
      if \<not> lock_current db did attempt then Inr (False, db)
      else rbind (fetch_one (find_document db did)) (\<lambda>d.
        if doc_parse d \<noteq> PsProcessing then Inr (False, db)
        else rbind (put_all ut now did vid attempt ws db) (\<lambda>db1.
          let db2 = update_documents (\<lambda>d. doc_id d = did \<and> doc_attempt d = attempt)
                      (\<lambda>d. d\<lparr>doc_parse := PsFinalizing, doc_pending := int (length (filter work_derived ws)),
                             doc_summary := (if Summary \<in> set ws then SsPending else SsNone), doc_updated := now\<rparr>) db1
          in rbind (complete_tx now did attempt ''postprocess'' db2) (\<lambda>(fresh, db3).
               Inr (True, record_document_change now did before db3)))))"

definition update_status ::
  "timestamp \<Rightarrow> uuid \<Rightarrow> int \<Rightarrow> parse_status \<Rightarrow> db_text \<Rightarrow> kdb \<Rightarrow> kdb" where
  "update_status now did attempt status error =
     change_document now did
       (\<lambda>d. doc_attempt d = attempt \<and> doc_deleted d = None \<and> (in_progress (doc_parse d) \<or> doc_parse d = PsFailed))
       (\<lambda>d. d\<lparr>doc_parse := status, doc_error := Some error\<rparr>)"

definition publish_empty :: "timestamp \<Rightarrow> uuid \<Rightarrow> int \<Rightarrow> kdb \<Rightarrow> kdb" where
  "publish_empty now did attempt =
     change_document now did
       (\<lambda>d. doc_attempt d = attempt \<and> doc_parse d = PsProcessing \<and> doc_deleted d = None)
       (publish_generation attempt)"

definition delete_generation :: "uuid \<Rightarrow> int \<Rightarrow> kdb \<Rightarrow> kdb" where
  "delete_generation did attempt db =
     (case find_document db did of
        None \<Rightarrow> db
      | Some d \<Rightarrow>
          if (attempt < doc_attempt d \<and> attempt \<noteq> doc_active d)
             \<or> (attempt = doc_attempt d \<and> doc_parse d \<in> {PsDeleting, PsDeleted})
          then delete_chunks (\<lambda>c. ck_doc c = did \<and> ck_generation c = attempt \<and> ck_type c \<noteq> ''wiki_page'') db
          else db)"

definition fail_job :: "timestamp \<Rightarrow> uuid \<Rightarrow> int \<Rightarrow> db_text \<Rightarrow> db_text \<Rightarrow> kdb \<Rightarrow> kdb" where
  "fail_job now did attempt key error db =
     (let before = capture_document_state db did;
          accepts = (\<lambda>d. doc_id d = did \<and> doc_attempt d = attempt \<and> doc_deleted d = None
                         \<and> (in_progress (doc_parse d) \<or> doc_parse d = PsFailed));
          open_job = (\<lambda>w. outbox_at did attempt key w \<and> live w)
      in if find accepts (k_documents db) = None then db
         else let db1 = update_outbox open_job (\<lambda>w. w\<lparr>ob_state := ObFailed, ob_error := Some error\<rparr>) db;
                  db2 = (if exists_row open_job (k_outbox db)
                         then update_documents (\<lambda>d. doc_id d = did \<and> doc_attempt d = attempt)
                                (\<lambda>d. d\<lparr>doc_parse := PsFailed, doc_error := Some error,
                                       doc_summary := (if doc_summary d \<in> {SsPending, SsProcessing} then SsFailed else doc_summary d),
                                       doc_index_ready := False, doc_updated := now\<rparr>) db1
                         else db1)
              in record_document_change now did before db2)"

end
