(* ===== verification/Documents.thy ===== *)
theory Documents
  imports Workflow
begin

text \<open>
  The operations of \<^verbatim>\<open>catalog/document.rs\<close> that insert a document or move it between states, chunk
  staging (\<^verbatim>\<open>stage_index\<close> with \<^verbatim>\<open>append_document_chunks_tx\<close>), tombstone purging and the periodic
  \<open>dispatch\<close> and \<open>housekeep_documents\<close>.
\<close>

subsection \<open>Creation\<close>

record new_document =
  nd_id :: uuid
  nd_version :: uuid
  nd_title :: db_text
  nd_file_name :: db_text
  nd_file_size :: int
  nd_file_hash :: db_text
  nd_object_ref :: db_text

definition document_kind_ok :: "db_text \<Rightarrow> bool" where
  "document_kind_ok k \<longleftrightarrow> k \<in> {''file'', ''url'', ''passage'', ''manual''}"

definition find_duplicate_document ::
  "kdb \<Rightarrow> uuid \<Rightarrow> db_text \<Rightarrow> int \<Rightarrow> db_text \<Rightarrow> uuid option" where
  "find_duplicate_document db vid file_name file_size file_hash =
     map_option doc_id (find (\<lambda>d. doc_version d = vid \<and> doc_file_name d = file_name \<and> doc_byte_length d = file_size
       \<and> doc_sha256 d = file_hash \<and> doc_deleted d = None) (k_documents db))"

definition insert_document_row ::
  "timestamp \<Rightarrow> new_document \<Rightarrow> db_text \<Rightarrow> db_text list option \<Rightarrow> kdb \<Rightarrow> kdb db_result" where
  "insert_document_row now nd kind passages db =
     (if \<not> document_kind_ok kind \<or> nd_file_size nd < 0 \<or> \<not> is_sha256 (nd_file_hash nd)
         \<or> nd_object_ref nd \<noteq> object_ref (nd_file_hash nd)
      then Inl (ConstraintViolation ''knowledge_documents'')
      else if find_document db (nd_id nd) \<noteq> None then Inl (ConstraintViolation ''knowledge_documents_pkey'')
      else if find_duplicate_document db (nd_version nd) (nd_file_name nd) (nd_file_size nd) (nd_file_hash nd) \<noteq> None
      then Inl (ConstraintViolation ''knowledge_documents_live_file_uidx'')
      else if \<not> exists_row (\<lambda>v. ver_id v = nd_version nd) (k_versions db)
      then Inl (ConstraintViolation ''knowledge_documents_product_version_id_fkey'')
      else Inr (db\<lparr>k_documents := k_documents db @
             [\<lparr>doc_id = nd_id nd, doc_version = nd_version nd, doc_kind = kind, doc_title = nd_title nd,
               doc_file_name = nd_file_name nd, doc_byte_length = nd_file_size nd, doc_sha256 = nd_file_hash nd,
               doc_object_ref = nd_object_ref nd, doc_parse = PsPending, doc_pending = 0, doc_summary = SsNone,
               doc_enable = EsDisabled, doc_index_ready = False, doc_description = '''', doc_attempt = 1,
               doc_active = 1, doc_passages = passages, doc_error = None, doc_updated = now,
               doc_deleted = None\<rparr>]\<rparr>))"

definition insert_document ::
  "(uuid \<Rightarrow> string) \<Rightarrow> timestamp \<Rightarrow> new_document \<Rightarrow> kdb \<Rightarrow> kdb db_result" where
  "insert_document ut now nd db =
     rbind (insert_document_row now nd ''file'' None db) (\<lambda>db1.
     rbind (register_knowledge_document_object_in_tx db1 (nd_id nd) ''application/octet-stream''
              (''knowledge-document:'' @ ut (nd_id nd))) (\<lambda>(r, db2).
       Inr (record_document_change now (nd_id nd) None db2)))"

subsection \<open>State changes\<close>

definition next_attempt :: "int \<Rightarrow> int db_result" where
  "next_attempt a = (if a \<ge> 2147483647 then Inl (ConstraintViolation ''integer out of range'') else Inr (a + 1))"

definition set_index_ready :: "timestamp \<Rightarrow> uuid \<Rightarrow> bool \<Rightarrow> kdb \<Rightarrow> kdb" where
  "set_index_ready now did ready = change_document now did (\<lambda>d. True) (\<lambda>d. d\<lparr>doc_index_ready := ready\<rparr>)"

definition set_finalizing :: "timestamp \<Rightarrow> uuid \<Rightarrow> int \<Rightarrow> kdb \<Rightarrow> bool \<times> kdb" where
  "set_finalizing now did n db =
     (exists_row (\<lambda>d. doc_id d = did \<and> doc_parse d = PsProcessing) (k_documents db),
      change_document now did (\<lambda>d. doc_parse d = PsProcessing)
        (\<lambda>d. d\<lparr>doc_parse := PsFinalizing, doc_pending := n\<rparr>) db)"

definition set_document_progress :: "timestamp \<Rightarrow> uuid \<Rightarrow> parse_status \<Rightarrow> int \<Rightarrow> kdb \<Rightarrow> kdb" where
  "set_document_progress now did status n =
     change_document now did (\<lambda>d. True) (\<lambda>d. d\<lparr>doc_parse := status, doc_pending := n\<rparr>)"

definition set_summary_status :: "timestamp \<Rightarrow> uuid \<Rightarrow> summary_status \<Rightarrow> kdb \<Rightarrow> kdb" where
  "set_summary_status now did status = change_document now did (\<lambda>d. True) (\<lambda>d. d\<lparr>doc_summary := status\<rparr>)"

definition set_parse_status :: "timestamp \<Rightarrow> uuid \<Rightarrow> parse_status \<Rightarrow> db_text \<Rightarrow> kdb \<Rightarrow> kdb" where
  "set_parse_status now did status error =
     change_document now did (\<lambda>d. True) (\<lambda>d. d\<lparr>doc_parse := status, doc_error := Some error\<rparr>)"

definition try_set_processing :: "timestamp \<Rightarrow> uuid \<Rightarrow> kdb \<Rightarrow> bool \<times> kdb" where
  "try_set_processing now did db =
     (exists_row (\<lambda>d. doc_id d = did \<and> doc_parse d \<in> {PsPending, PsFailed}) (k_documents db),
      change_document now did (\<lambda>d. doc_parse d \<in> {PsPending, PsFailed})
        (\<lambda>d. d\<lparr>doc_parse := PsProcessing, doc_error := Some ''''\<rparr>) db)"

definition restartable :: "document_row \<Rightarrow> bool" where
  "restartable d \<longleftrightarrow> doc_deleted d = None \<and> doc_parse d \<notin> {PsDeleting, PsDeleted}"

definition restart_row :: "int \<Rightarrow> document_row \<Rightarrow> document_row" where
  "restart_row attempt d = d\<lparr>doc_attempt := attempt, doc_parse := PsPending, doc_enable := EsDisabled,
     doc_index_ready := False, doc_pending := 0, doc_error := Some ''''\<rparr>"

definition mark_reparse_queued :: "timestamp \<Rightarrow> uuid \<Rightarrow> kdb \<Rightarrow> (int \<times> kdb) db_result" where
  "mark_reparse_queued now did db =
     rbind (fetch_one (find (\<lambda>d. doc_id d = did \<and> restartable d) (k_documents db))) (\<lambda>d.
     rbind (if doc_parse d = PsPending \<and> doc_enable d = EsDisabled then Inr (doc_attempt d)
            else next_attempt (doc_attempt d)) (\<lambda>attempt.
       Inr (attempt, change_document now did restartable (restart_row attempt) db)))"

definition bump_document_attempt :: "timestamp \<Rightarrow> uuid \<Rightarrow> kdb \<Rightarrow> (int \<times> kdb) db_result" where
  "bump_document_attempt now did db =
     rbind (fetch_one (find (\<lambda>d. doc_id d = did \<and> restartable d) (k_documents db))) (\<lambda>d.
     rbind (next_attempt (doc_attempt d)) (\<lambda>attempt.
       Inr (attempt, change_document now did restartable (restart_row attempt) db)))"

definition retry_document :: "timestamp \<Rightarrow> uuid \<Rightarrow> kdb \<Rightarrow> (int \<times> kdb) db_result" where
  "retry_document = bump_document_attempt"

definition cancel_active_docs_for_versions :: "timestamp \<Rightarrow> uuid list \<Rightarrow> kdb \<Rightarrow> nat \<times> kdb" where
  "cancel_active_docs_for_versions now vids db =
     (let ids = sort (map doc_id (filter (\<lambda>d. doc_version d \<in> set vids \<and> in_progress (doc_parse d)
                                              \<and> doc_deleted d = None) (k_documents db)))
      in (length ids,
          fold (\<lambda>did. change_document now did (\<lambda>d. True) (\<lambda>d. d\<lparr>doc_parse := PsCancelled\<rparr>)) ids db))"

definition seconds :: "int \<Rightarrow> timestamp" where
  "seconds n = n * 1000000"

definition heartbeat :: "kdb \<Rightarrow> document_row \<Rightarrow> timestamp" where
  "heartbeat db d =
     (case List.map_filter (\<lambda>s. if sp_doc s \<noteq> doc_id d then None
                     else case sp_finished s of Some t \<Rightarrow> Some t | None \<Rightarrow> sp_started s) (k_spans db) of
        [] \<Rightarrow> doc_updated d
      | t # ts \<Rightarrow> fold max ts t)"

definition stuck_message :: "int \<Rightarrow> db_text" where
  "stuck_message secs = ''task stuck in processing > '' @ int_to_dec secs @ ''s, recovered by housekeeping''"

definition housekeep_documents :: "timestamp \<Rightarrow> int \<Rightarrow> kdb \<Rightarrow> nat \<times> kdb" where
  "housekeep_documents now secs db =
     (let ids = sort (map doc_id (filter (\<lambda>d. doc_parse d \<in> {PsProcessing, PsFinalizing}
                  \<and> \<not> exists_row (\<lambda>w. ob_doc w = doc_id d \<and> ob_attempt w = doc_attempt d \<and> live w) (k_outbox db)
                  \<and> heartbeat db d < now - seconds secs) (k_documents db)));
          db1 = fold (\<lambda>did. change_document now did (\<lambda>d. True)
                  (\<lambda>d. d\<lparr>doc_parse := PsFailed, doc_error := Some (stuck_message secs), doc_pending := 0\<rparr>)) ids db;
          db2 = (if ids = [] then db1
                 else update_spans
                   (\<lambda>s. sp_doc s \<in> set ids
                        \<and> (case find_document db1 (sp_doc s) of None \<Rightarrow> False | Some d \<Rightarrow> sp_attempt s = doc_attempt d)
                        \<and> sp_status s \<in> {Some ''running'', Some ''pending''})
                   (\<lambda>s. s\<lparr>sp_status := Some ''failed'',
                          sp_finished := Some (case sp_finished s of Some t \<Rightarrow> t | None \<Rightarrow> now),
                          sp_duration := Some (case sp_duration s of Some n \<Rightarrow> n | None \<Rightarrow> 0)\<rparr>) db1)
      in (length ids, db2))"

definition purge_document_index :: "uuid \<Rightarrow> kdb \<Rightarrow> kdb" where
  "purge_document_index did db =
     (if \<not> exists_row (\<lambda>d. doc_id d = did \<and> doc_parse d \<in> {PsDeleting, PsDeleted}) (k_documents db) then db
      else let db1 = delete_chunks (\<lambda>c. ck_doc c = did \<and> ck_type c \<noteq> ''wiki_page'') db
           in db1\<lparr>k_pages := delete_rows (\<lambda>p. did \<in> set (wp_source_refs p)) (k_pages db1)\<rparr>)"

subsection \<open>Staging chunks\<close>

definition upsert_chunk :: "chunk_row \<Rightarrow> kdb \<Rightarrow> kdb db_result" where
  "upsert_chunk c db =
     (case find_document db (ck_doc c) of
        None \<Rightarrow> Inl (ConstraintViolation ''knowledge_chunks.generation'')
      | Some d \<Rightarrow>
          if exists_row (\<lambda>c'. ck_id c' = ck_id c) (k_chunks db)
          then Inr (db\<lparr>k_chunks := update_rows (\<lambda>c'. ck_id c' = ck_id c)
                 (\<lambda>c'. c'\<lparr>ck_content := ck_content c, ck_questions := ck_questions c, ck_locator := ck_locator c\<rparr>)
                 (k_chunks db)\<rparr>)
          else if doc_version d \<noteq> ck_version c then Inl (ConstraintViolation ''knowledge_chunks_source_fk'')
          else Inr (db\<lparr>k_chunks := k_chunks db @ [c\<lparr>ck_generation := doc_attempt d\<rparr>]\<rparr>))"

definition upsert_embedding :: "embedding_row \<Rightarrow> kdb \<Rightarrow> kdb db_result" where
  "upsert_embedding e db =
     (if exists_row (\<lambda>e'. em_chunk e' = em_chunk e) (k_embeddings db)
      then Inr (db\<lparr>k_embeddings := update_rows (\<lambda>e'. em_chunk e' = em_chunk e)
             (\<lambda>e'. e'\<lparr>em_vector := em_vector e, em_content := em_content e\<rparr>) (k_embeddings db)\<rparr>)
      else if \<not> exists_row (\<lambda>c. ck_id c = em_chunk e \<and> ck_version c = em_version e \<and> ck_doc c = em_doc e) (k_chunks db)
      then Inl (ConstraintViolation ''knowledge_chunk_embeddings_source_fk'')
      else Inr (db\<lparr>k_embeddings := k_embeddings db @ [e]\<rparr>))"

fun upsert_each :: "('r \<Rightarrow> kdb \<Rightarrow> kdb db_result) \<Rightarrow> 'r list \<Rightarrow> kdb \<Rightarrow> kdb db_result" where
  "upsert_each up [] db = Inr db"
| "upsert_each up (r # rs) db = rbind (up r db) (upsert_each up rs)"

text \<open>\<open>append_document_chunks_tx\<close> for a call with no prepared image artifacts.\<close>

definition append_document_chunks_tx :: "chunk_row list \<Rightarrow> embedding_row list \<Rightarrow> kdb \<Rightarrow> kdb db_result" where
  "append_document_chunks_tx cs es db =
     rbind (upsert_each upsert_chunk cs db) (upsert_each upsert_embedding es)"

definition parents_ok :: "kdb \<Rightarrow> bool" where
  "parents_ok db \<longleftrightarrow> list_all (\<lambda>c. case ck_parent c of
       None \<Rightarrow> True
     | Some p \<Rightarrow> exists_row (\<lambda>c'. ck_id c' = p \<and> ck_version c' = ck_version c \<and> ck_doc c' = ck_doc c) (k_chunks db))
     (k_chunks db)"

definition stage_index ::
  "uuid \<Rightarrow> int \<Rightarrow> chunk_row list \<Rightarrow> embedding_row list \<Rightarrow> bool \<Rightarrow> kdb \<Rightarrow> (bool \<times> kdb) db_result" where
  "stage_index did attempt cs es replace_chunks db =
     (if \<not> lock_current db did attempt then Inr (False, db)
      else let db1 = (if replace_chunks
                      then delete_chunks (\<lambda>c. ck_doc c = did \<and> ck_generation c = attempt \<and> ck_type c \<noteq> ''wiki_page'') db
                      else db\<lparr>k_embeddings := delete_rows
                             (\<lambda>e. exists_row (\<lambda>c. ck_id c = em_chunk e \<and> ck_doc c = did \<and> ck_generation c = attempt) (k_chunks db))
                             (k_embeddings db)\<rparr>)
           in rbind (append_document_chunks_tx (if replace_chunks then cs else []) es db1) (\<lambda>db2.
                if parents_ok db2 then Inr (True, db2)
                else Inl (ConstraintViolation ''knowledge_chunks_parent_fk'')))"

subsection \<open>Delivery\<close>

datatype delivery =
    ManualProcess uuid uuid int
  | DocumentProcess uuid uuid int "db_text list"
  | PostProcess uuid uuid bool int
  | SummaryJob uuid int
  | DatatableJob uuid int
  | QuestionJob uuid "uuid list" "uuid option list" "uuid option list" int nat
  | ExtractJob uuid uuid int
  | ImageJob uuid db_text db_text bool bool int
  | WikiIngest uuid uuid db_text int
  | SemanticIndex uuid int

datatype preparation =
    PUnbound | PPendingDerived | PEnqueue uuid int | PReady | PTerminal | PSuperseded

fun delivery_of :: "uuid \<Rightarrow> uuid \<Rightarrow> int \<Rightarrow> work \<Rightarrow> delivery option" where
  "delivery_of did vid a (Convert passages manual) =
     Some (if manual then ManualProcess did vid a else DocumentProcess did vid a passages)"
| "delivery_of did vid a (Postprocess clone_keep) = Some (PostProcess did vid clone_keep a)"
| "delivery_of did vid a Summary = Some (SummaryJob did a)"
| "delivery_of did vid a Datatable = Some (DatatableJob did a)"
| "delivery_of did vid a (Questions cs ps ns batch) = Some (QuestionJob did cs ps ns a batch)"
| "delivery_of did vid a (Extract cid) = Some (ExtractJob cid did a)"
| "delivery_of did vid a (Image key source_type) = Some (ImageJob did key source_type True True a)"
| "delivery_of did vid a Wiki = Some (WikiIngest vid did ''ingest'' a)"
| "delivery_of did vid a Reconcile = None"

definition outbox_max_deliveries :: "int option \<Rightarrow> int" where
  "outbox_max_deliveries setting = (case setting of Some n \<Rightarrow> if n > 0 then n else 20 | None \<Rightarrow> 20)"

definition housekeep_stale_secs :: int where
  "housekeep_stale_secs = 2 * 60 * 60 + 10 * 60"

definition recovery_row :: "document_row \<Rightarrow> document_row" where
  "recovery_row d = (restart_row (doc_attempt d + 1) d)\<lparr>doc_summary := SsNone\<rparr>"

fun recover_stale :: "timestamp \<Rightarrow> uuid list \<Rightarrow> kdb \<Rightarrow> kdb db_result" where
  "recover_stale now [] db = Inr db"
| "recover_stale now (did # ids) db =
     (case find_document db did of
        None \<Rightarrow> recover_stale now ids db
      | Some d \<Rightarrow> rbind (next_attempt (doc_attempt d)) (\<lambda>a.
          recover_stale now ids (change_document now did (\<lambda>d. True) recovery_row db)))"

definition stale_documents :: "timestamp \<Rightarrow> kdb \<Rightarrow> uuid list" where
  "stale_documents now db =
     sort (map doc_id (filter (\<lambda>d. doc_parse d = PsProcessing \<and> doc_deleted d = None
        \<and> doc_updated d < now - seconds housekeep_stale_secs
        \<and> exists_row (\<lambda>w. outbox_at (doc_id d) (doc_attempt d) ''convert'' w \<and> live w) (k_outbox db)) (k_documents db)))"

definition deliverable :: "kdb \<Rightarrow> outbox_row \<Rightarrow> bool" where
  "deliverable db w \<longleftrightarrow> ob_key w = ''reconcile''
     \<or> exists_row (\<lambda>d. doc_id d = ob_doc w \<and> doc_attempt d = ob_attempt w \<and> doc_deleted d = None
          \<and> (in_progress (doc_parse d) \<or> (doc_parse d = PsFailed \<and> ob_key w = ''convert''))) (k_documents db)"

definition due_rows :: "timestamp \<Rightarrow> kdb \<Rightarrow> outbox_row list" where
  "due_rows now db =
     take 100 (sort_key ob_next (filter (\<lambda>w. live w \<and> ob_next w \<le> now \<and> deliverable db w) (k_outbox db)))"

definition outbox_revision :: "outbox_row \<Rightarrow> outbox_row \<Rightarrow> bool" where
  "outbox_revision r w \<longleftrightarrow> outbox_at (ob_doc r) (ob_attempt r) (ob_key r) w \<and> ob_revision w = ob_revision r"

definition record_delivery :: "timestamp \<Rightarrow> outbox_row \<Rightarrow> string + string option \<Rightarrow> kdb \<Rightarrow> kdb" where
  "record_delivery now r result =
     (let error = (case result of Inr (Some v) \<Rightarrow> None | Inr None \<Rightarrow> Some ''queue unavailable'' | Inl e \<Rightarrow> Some e)
      in update_outbox (\<lambda>w. outbox_revision r w \<and> live w)
           (\<lambda>w. w\<lparr>ob_state := (if error = None then ObPublished else ObPending),
                  ob_deliveries := ob_deliveries w + 1, ob_error := error,
                  ob_next := now + (if error = None then seconds (15 * 60) else seconds 60)\<rparr>))"

definition exhausted_message :: db_text where
  "exhausted_message = ''outbox delivery retries exhausted; retry the document generation''"

definition version_live :: "kdb \<Rightarrow> uuid \<Rightarrow> bool" where
  "version_live db vid \<longleftrightarrow> exists_row (\<lambda>v. ver_id v = vid \<and> ver_deleted v = None \<and> ver_status v = VsActive) (k_versions db)"

definition dispatch_row ::
  "(delivery \<Rightarrow> string + string option) \<Rightarrow> (kdb \<Rightarrow> uuid \<Rightarrow> preparation db_result) \<Rightarrow> int \<Rightarrow> timestamp \<Rightarrow>
    outbox_row \<Rightarrow> kdb \<Rightarrow> (kdb \<times> delivery list) db_result" where
  "dispatch_row enqueue prepare max_attempts now r db =
     (if ob_payload r \<noteq> Reconcile \<and> ob_deliveries r \<ge> max_attempts
      then Inr (fail_job now (ob_doc r) (ob_attempt r) (ob_key r) exhausted_message db, [])
      else case delivery_of (ob_doc r) (ob_version r) (ob_attempt r) (ob_payload r) of
        Some j \<Rightarrow> Inr (record_delivery now r (enqueue j) db, [j])
      | None \<Rightarrow>
          if \<not> version_live db (ob_version r)
          then Inr (update_outbox (outbox_revision r) (\<lambda>w. w\<lparr>ob_state := ObComplete\<rparr>) db, [])
          else rbind (prepare db (ob_version r)) (\<lambda>p.
            case p of
              PEnqueue intent target \<Rightarrow>
                if ob_deliveries r \<ge> max_attempts
                then Inr (update_outbox (outbox_revision r)
                       (\<lambda>w. w\<lparr>ob_state := ObFailed, ob_error := Some ''semantic delivery retries exhausted''\<rparr>) db, [])
                else Inr (record_delivery now r (enqueue (SemanticIndex intent target)) db, [SemanticIndex intent target])
            | PPendingDerived \<Rightarrow>
                Inr (update_outbox (\<lambda>w. outbox_revision r w \<and> live w)
                       (\<lambda>w. w\<lparr>ob_error := Some ''waiting for derived work'', ob_next := now + seconds 60\<rparr>) db, [])
            | PTerminal \<Rightarrow>
                Inr (update_outbox (outbox_revision r)
                       (\<lambda>w. w\<lparr>ob_state := ObFailed, ob_error := Some ''semantic index needs attention''\<rparr>) db, [])
            | _ \<Rightarrow> Inr (update_outbox (outbox_revision r) (\<lambda>w. w\<lparr>ob_state := ObComplete\<rparr>) db, [])))"

text \<open>
  The rows are delivered one transaction each: when one fails the loop stops with its error, and
  what the earlier rows did stays.
\<close>

fun dispatch_rows ::
  "(delivery \<Rightarrow> string + string option) \<Rightarrow> (kdb \<Rightarrow> uuid \<Rightarrow> preparation db_result) \<Rightarrow> int \<Rightarrow> timestamp \<Rightarrow>
    outbox_row list \<Rightarrow> kdb \<Rightarrow> kdb \<times> delivery list \<times> (db_error + unit)" where
  "dispatch_rows enqueue prepare m now [] db = (db, [], Inr ())"
| "dispatch_rows enqueue prepare m now (r # rs) db =
     (case dispatch_row enqueue prepare m now r db of
        Inl e \<Rightarrow> (db, [], Inl e)
      | Inr (db1, js) \<Rightarrow>
          (case dispatch_rows enqueue prepare m now rs db1 of (db2, js', res) \<Rightarrow> (db2, js @ js', res)))"

definition dispatch ::
  "(delivery \<Rightarrow> string + string option) \<Rightarrow> (kdb \<Rightarrow> uuid \<Rightarrow> preparation db_result) \<Rightarrow> int option \<Rightarrow> timestamp \<Rightarrow>
    kdb \<Rightarrow> kdb \<times> delivery list \<times> (db_error + unit)" where
  "dispatch enqueue prepare setting now db =
     (case recover_stale now (stale_documents now db) db of
        Inl e \<Rightarrow> (db, [], Inl e)
      | Inr db1 \<Rightarrow> dispatch_rows enqueue prepare (outbox_max_deliveries setting) now (due_rows now db1) db1)"

end
