(* ===== verification/Workflow_Inv.thy ===== *)
theory Workflow_Inv
  imports Documents
begin

text \<open>
  The invariant of the document tables and that recording a change restores it.  \<open>inv_live\<close> and
  \<open>inv_convert\<close> are broken between the update of a document and \<open>record_document_change\<close>; the
  lemma \<open>record_restores\<close> states what the update must keep for the record to re-establish them.
\<close>

definition inv_keys :: "kdb \<Rightarrow> bool" where
  "inv_keys db \<longleftrightarrow> distinct (map doc_id (k_documents db)) \<and> distinct (map ob_ident (k_outbox db))
     \<and> distinct (k_receipts db)"

definition owned_by :: "document_row list \<Rightarrow> outbox_row \<Rightarrow> bool" where
  "owned_by docs w \<longleftrightarrow> (\<exists>d\<in>set docs. doc_id d = ob_doc w \<and> doc_version d = ob_version w \<and> ob_attempt w \<le> doc_attempt d)"

definition inv_fk :: "kdb \<Rightarrow> bool" where
  "inv_fk db \<longleftrightarrow> (\<forall>w\<in>set (k_outbox db). owned_by (k_documents db) w)"

definition document_ok :: "document_row \<Rightarrow> bool" where
  "document_ok d \<longleftrightarrow> 1 \<le> doc_active d \<and> doc_active d \<le> doc_attempt d
     \<and> (doc_parse d = PsCompleted \<longrightarrow> doc_active d = doc_attempt d \<and> doc_index_ready d \<and> doc_enable d = EsEnabled)"

definition inv_docs :: "kdb \<Rightarrow> bool" where
  "inv_docs db \<longleftrightarrow> (\<forall>d\<in>set (k_documents db). document_ok d)"

definition owed :: "outbox_row \<Rightarrow> bool" where
  "owed w \<longleftrightarrow> live w \<and> ob_key w \<noteq> ''reconcile''"

definition live_ok :: "document_row list \<Rightarrow> outbox_row \<Rightarrow> bool" where
  "live_ok docs w \<longleftrightarrow> (\<exists>d\<in>set docs. doc_id d = ob_doc w \<and> doc_attempt d = ob_attempt w \<and> \<not> terminal_status (doc_parse d))"

definition inv_live :: "kdb \<Rightarrow> bool" where
  "inv_live db \<longleftrightarrow> (\<forall>w\<in>set (k_outbox db). owed w \<longrightarrow> live_ok (k_documents db) w)"

definition has_convert :: "kdb \<Rightarrow> document_row \<Rightarrow> bool" where
  "has_convert db d \<longleftrightarrow> (doc_id d, doc_attempt d, ''convert'') \<in> ob_ident ` set (k_outbox db)"

definition inv_convert :: "kdb \<Rightarrow> bool" where
  "inv_convert db \<longleftrightarrow> (\<forall>d\<in>set (k_documents db). doc_parse d = PsPending \<longrightarrow> has_convert db d)"

definition workflow_inv :: "kdb \<Rightarrow> bool" where
  "workflow_inv db \<longleftrightarrow> inv_keys db \<and> inv_fk db \<and> inv_docs db \<and> inv_live db \<and> inv_convert db"

subsection \<open>What recording a change does to the tables\<close>

lemma withdraw_wiki_sel [simp]:
  "k_documents (withdraw_wiki now d db) = k_documents db"
  "k_outbox (withdraw_wiki now d db) = k_outbox db"
  "k_receipts (withdraw_wiki now d db) = k_receipts db"
  "k_spans (withdraw_wiki now d db) = k_spans db"
  by (simp_all add: withdraw_wiki_def Let_def)

lemma upsert_reconcile_sel [simp]:
  "k_documents (upsert_reconcile now d db) = k_documents db"
  "k_receipts (upsert_reconcile now d db) = k_receipts db"
  "k_chunks (upsert_reconcile now d db) = k_chunks db"
  "k_spans (upsert_reconcile now d db) = k_spans db"
  by (simp_all add: upsert_reconcile_def)

definition complete_superseded :: "uuid \<Rightarrow> int \<Rightarrow> bool \<Rightarrow> kdb \<Rightarrow> kdb" where
  "complete_superseded did attempt terminal =
     update_outbox (\<lambda>w. ob_doc w = did \<and> ob_key w \<noteq> ''reconcile'' \<and> (ob_attempt w \<noteq> attempt \<or> terminal))
       (\<lambda>w. w\<lparr>ob_state := ObComplete\<rparr>)"

lemma complete_superseded_sel [simp]:
  "k_documents (complete_superseded did a t db) = k_documents db"
  "k_receipts (complete_superseded did a t db) = k_receipts db"
  "k_chunks (complete_superseded did a t db) = k_chunks db"
  "k_spans (complete_superseded did a t db) = k_spans db"
  by (simp_all add: complete_superseded_def)

text \<open>The record is a sequence of at most four statements, each under its own condition.\<close>

lemma record_document_change_stages:
  assumes "find_document db did = Some d"
  shows "record_document_change now did before db =
    (let changed = (before \<noteq> None \<and> st_attempt (the before) \<noteq> doc_attempt d);
         terminal = terminal_status (doc_parse d);
         db1 = (if before \<noteq> None \<and> st_source (the before) \<noteq> st_source (document_state_of d)
                then upsert_reconcile now d db else db);
         db2 = (if changed \<or> terminal then complete_superseded did (doc_attempt d) terminal db1 else db1);
         db3 = (if doc_parse d = PsPending \<and> (before = None \<or> changed)
                then insert_outbox (new_outbox now did (doc_version d) (doc_attempt d) ''convert'' (convert_work d) False) db2
                else db2)
     in if changed \<or> terminal \<and> before \<noteq> None \<and> st_parse (the before) \<noteq> doc_parse d
        then withdraw_wiki now d db3 else db3)"
  using assms
  by (cases before)
     (simp_all add: record_document_change_def document_state_of_def Let_def complete_superseded_def)

lemma record_preserves:
  assumes "Q db"
    and "\<And>db d. Q db \<Longrightarrow> find_document db did = Some d \<Longrightarrow> Q (upsert_reconcile now d db)"
    and "\<And>db a t. Q db \<Longrightarrow> Q (complete_superseded did a t db)"
    and "\<And>db d. Q db \<Longrightarrow> find_document db did = Some d \<Longrightarrow>
           Q (insert_outbox (new_outbox now did (doc_version d) (doc_attempt d) ''convert'' (convert_work d) False) db)"
    and "\<And>db d. Q db \<Longrightarrow> find_document db did = Some d \<Longrightarrow> Q (withdraw_wiki now d db)"
  shows "Q (record_document_change now did before db)"
proof (cases "find_document db did")
  case None
  with assms(1) show ?thesis by (simp add: record_document_change_def)
next
  case (Some d)
  have find: "k_documents db' = k_documents db \<Longrightarrow> find_document db' did = Some d" for db'
    using Some by (simp add: find_document_def)
  show ?thesis
    unfolding record_document_change_stages [OF Some] Let_def
    by (auto intro!: assms find)
qed

lemma record_sel [simp]:
  "k_documents (record_document_change now did before db) = k_documents db"
  "k_receipts (record_document_change now did before db) = k_receipts db"
  "k_spans (record_document_change now did before db) = k_spans db"
proof -
  have "k_documents (record_document_change now did before db) = k_documents db
    \<and> k_receipts (record_document_change now did before db) = k_receipts db
    \<and> k_spans (record_document_change now did before db) = k_spans db"
    by (rule record_preserves) simp_all
  then show "k_documents (record_document_change now did before db) = k_documents db"
    "k_receipts (record_document_change now did before db) = k_receipts db"
    "k_spans (record_document_change now did before db) = k_spans db" by simp_all
qed

subsection \<open>Keys and foreign keys\<close>

lemma ob_ident_update_outbox:
  assumes "\<And>w. ob_ident (g w) = ob_ident w"
  shows "map ob_ident (k_outbox (update_outbox P g db)) = map ob_ident (k_outbox db)"
  unfolding update_outbox_sel by (rule map_update_rows) (rule assms)

lemma idents_update_outbox:
  assumes "\<And>w. ob_ident (g w) = ob_ident w"
  shows "ob_ident ` set (k_outbox (update_outbox P g db)) = ob_ident ` set (k_outbox db)"
  using arg_cong [OF ob_ident_update_outbox [of g P db, OF assms], of set] by simp

lemma ob_ident_update [simp]:
  "ob_ident (w\<lparr>ob_state := s\<rparr>) = ob_ident w"
  "ob_ident (w\<lparr>ob_error := e\<rparr>) = ob_ident w"
  "ob_ident (w\<lparr>ob_next := t\<rparr>) = ob_ident w"
  "ob_ident (w\<lparr>ob_deliveries := n\<rparr>) = ob_ident w"
  "ob_ident (w\<lparr>ob_revision := r\<rparr>) = ob_ident w"
  "ob_ident (new_outbox now did vid a key p dv) = (did, a, key)"
  by (simp_all add: ob_ident_def new_outbox_def)

lemma owned_by_cong:
  "ob_ident w' = ob_ident w \<Longrightarrow> ob_version w' = ob_version w \<Longrightarrow> owned_by docs w' = owned_by docs w"
  by (simp add: owned_by_def ob_ident_def)

lemma inv_keys_update_outbox:
  "inv_keys db \<Longrightarrow> (\<And>w. ob_ident (g w) = ob_ident w) \<Longrightarrow> inv_keys (update_outbox P g db)"
  using ob_ident_update_outbox [of g P db] by (simp add: inv_keys_def)

lemma inv_fk_update_outbox:
  assumes "inv_fk db" and "\<And>w. ob_ident (g w) = ob_ident w" and "\<And>w. ob_version (g w) = ob_version w"
  shows "inv_fk (update_outbox P g db)"
  using assms owned_by_cong [of "g w" w for w] by (auto simp: inv_fk_def set_update_rows)

lemma inv_keys_insert_outbox: "inv_keys db \<Longrightarrow> inv_keys (insert_outbox w db)"
  by (simp add: inv_keys_def distinct_insert_outbox)

lemma inv_fk_insert_outbox:
  "inv_fk db \<Longrightarrow> owned_by (k_documents db) w \<Longrightarrow> inv_fk (insert_outbox w db)"
  using set_insert_outbox_subset [of w db] by (auto simp: inv_fk_def)

lemma owned_by_new:
  "find_document db did = Some d \<Longrightarrow>
   owned_by (k_documents db) (new_outbox now did (doc_version d) (doc_attempt d) key p dv)"
  using find_document_Some by (force simp: owned_by_def new_outbox_def)

lemma doc_id_find: "find_document db did = Some d \<Longrightarrow> doc_id d = did"
  using find_document_Some by blast

lemma inv_fk_upsert_reconcile:
  "inv_fk db \<Longrightarrow> find_document db did = Some d \<Longrightarrow> inv_fk (upsert_reconcile now d db)"
  unfolding upsert_reconcile_def
  by (auto intro!: inv_fk_update_outbox inv_fk_insert_outbox simp: owned_by_new doc_id_find)

lemma inv_keys_upsert_reconcile: "inv_keys db \<Longrightarrow> inv_keys (upsert_reconcile now d db)"
  unfolding upsert_reconcile_def by (auto intro!: inv_keys_update_outbox inv_keys_insert_outbox)

lemma inv_keys_cong:
  "k_documents db' = k_documents db \<Longrightarrow> k_outbox db' = k_outbox db \<Longrightarrow> k_receipts db' = k_receipts db \<Longrightarrow>
   inv_keys db' = inv_keys db"
  by (simp add: inv_keys_def)

lemma inv_fk_cong: "k_documents db' = k_documents db \<Longrightarrow> k_outbox db' = k_outbox db \<Longrightarrow> inv_fk db' = inv_fk db"
  by (simp add: inv_fk_def)

lemma inv_keys_record: "inv_keys db \<Longrightarrow> inv_keys (record_document_change now did before db)"
  by (rule record_preserves)
     (simp_all add: inv_keys_upsert_reconcile inv_keys_insert_outbox complete_superseded_def inv_keys_update_outbox
        inv_keys_cong [of "withdraw_wiki now d db" db for d db])

lemma inv_fk_record: "inv_fk db \<Longrightarrow> inv_fk (record_document_change now did before db)"
  by (rule record_preserves)
     (simp_all add: inv_fk_upsert_reconcile inv_fk_insert_outbox owned_by_new complete_superseded_def
        inv_fk_update_outbox inv_fk_cong [of "withdraw_wiki now d db" db for d db])

lemma inv_docs_cong: "k_documents db' = k_documents db \<Longrightarrow> inv_docs db' = inv_docs db"
  by (simp add: inv_docs_def)

subsection \<open>Owed work and conversion\<close>

lemma owed_upsert_reconcile:
  assumes "w \<in> set (k_outbox (upsert_reconcile now d db))" and "owed w"
  shows "w \<in> set (k_outbox db)"
  using assms set_insert_outbox_subset
  by (fastforce simp: upsert_reconcile_def set_update_rows owed_def outbox_at_def new_outbox_def split: if_splits)

lemma owed_complete_superseded:
  assumes "w \<in> set (k_outbox (complete_superseded did a t db))" and "owed w"
  shows "w \<in> set (k_outbox db) \<and> (ob_doc w = did \<longrightarrow> ob_attempt w = a \<and> \<not> t)"
  using assms by (auto simp: complete_superseded_def set_update_rows owed_def live_def split: if_splits)

lemma ident_upsert_reconcile:
  "ob_ident ` set (k_outbox db) \<subseteq> ob_ident ` set (k_outbox (upsert_reconcile now d db))"
proof (cases "exists_row (outbox_at (doc_id d) (doc_attempt d) ''reconcile'') (k_outbox db)")
  case True
  then show ?thesis
    by (simp add: upsert_reconcile_def idents_update_outbox del: update_outbox_sel)
next
  case False
  then show ?thesis using ob_ident_insert_outbox by (auto simp: upsert_reconcile_def)
qed

lemma ident_complete_superseded:
  "ob_ident ` set (k_outbox (complete_superseded did a t db)) = ob_ident ` set (k_outbox db)"
  by (simp add: complete_superseded_def idents_update_outbox del: update_outbox_sel)

lemma record_idents_mono:
  "ob_ident ` set (k_outbox db) \<subseteq> ob_ident ` set (k_outbox (record_document_change now did before db))"
  by (rule record_preserves)
     (simp_all add: ident_complete_superseded ob_ident_insert_outbox subset_insertI2
        subset_trans [OF _ ident_upsert_reconcile])

definition before_ok :: "uuid \<Rightarrow> document_state option \<Rightarrow> kdb \<Rightarrow> document_row \<Rightarrow> bool" where
  "before_ok did before db d \<longleftrightarrow>
     (case before of
        None \<Rightarrow> \<forall>w\<in>set (k_outbox db). ob_doc w \<noteq> did
      | Some b \<Rightarrow> st_attempt b \<le> doc_attempt d \<and> (st_attempt b = doc_attempt d \<longrightarrow>
          (\<forall>w\<in>set (k_outbox db). owed w \<longrightarrow> ob_doc w = did \<longrightarrow> ob_attempt w = doc_attempt d)
          \<and> (doc_parse d = PsPending \<longrightarrow> has_convert db d)))"

definition record_ready :: "uuid \<Rightarrow> document_state option \<Rightarrow> kdb \<Rightarrow> bool" where
  "record_ready did before db \<longleftrightarrow>
     inv_keys db \<and> inv_fk db \<and> inv_docs db
     \<and> (\<forall>w\<in>set (k_outbox db). owed w \<longrightarrow> ob_doc w \<noteq> did \<longrightarrow> live_ok (k_documents db) w)
     \<and> (\<forall>d\<in>set (k_documents db). doc_parse d = PsPending \<longrightarrow> doc_id d \<noteq> did \<longrightarrow> has_convert db d)
     \<and> (\<forall>d. find_document db did = Some d \<longrightarrow>
 before_ok did before db d)"

lemma owed_record:
  assumes found: "find_document db did = Some d"
    and w: "w \<in> set (k_outbox (record_document_change now did before db))" "owed w"
    and changed: "changed \<longleftrightarrow> before \<noteq> None \<and> st_attempt (the before) \<noteq> doc_attempt d"
  shows "ob_doc w = did \<and> ob_attempt w = doc_attempt d \<and> doc_parse d = PsPending
       \<or> w \<in> set (k_outbox db)
         \<and> (changed \<or> terminal_status (doc_parse d) \<longrightarrow> ob_doc w = did \<longrightarrow>
              ob_attempt w = doc_attempt d \<and> \<not> terminal_status (doc_parse d))"
proof -
  define db1 where "db1 = (if before \<noteq> None \<and> st_source (the before) \<noteq> st_source (document_state_of d)
                then upsert_reconcile now d db else db)"
  define db2 where "db2 = (if changed \<or> terminal_status (doc_parse d)
     then complete_superseded did (doc_attempt d) (terminal_status (doc_parse d)) db1 else db1)"
  let ?row = "new_outbox now did (doc_version d) (doc_attempt d) ''convert'' (convert_work d) False"
  have "w \<in> set (k_outbox (if doc_parse d = PsPending \<and> (before = None \<or> changed) then insert_outbox ?row db2 else db2))"
    using w(1) unfolding record_document_change_stages [OF found] Let_def changed [symmetric]
      db1_def [symmetric] db2_def [symmetric] by (auto split: if_splits)
  then have "w = ?row \<and> doc_parse d = PsPending \<or> w \<in> set (k_outbox db2)"
    using set_insert_outbox_subset [of ?row db2] by (auto split: if_splits)
  moreover have "w \<in> set (k_outbox db)" if "w \<in> set (k_outbox db1)"
    using that w(2) owed_upsert_reconcile by (auto simp: db1_def split: if_splits)
  ultimately show ?thesis
    using w(2) owed_complete_superseded [of w did "doc_attempt d" "terminal_status (doc_parse d)" db1]
    by (auto simp: db2_def new_outbox_def split: if_splits)
qed

lemma convert_recorded:
  assumes "find_document db did = Some d" and "doc_parse d = PsPending"
    and "before = None \<or> st_attempt (the before) \<noteq> doc_attempt d"
  shows "has_convert (record_document_change now did before db) d"
  using assms ob_ident_insert_outbox doc_id_find
  by (auto simp: record_document_change_stages Let_def has_convert_def)

lemma record_restores:
  assumes ready: "record_ready did before db"
  shows "workflow_inv (record_document_change now did before db)"
proof -
  note parts = ready [unfolded record_ready_def]
  let ?db = "record_document_change now did before db"
  have uniq: "distinct (map doc_id (k_documents db))" using parts by (simp add: inv_keys_def)
  have "live_ok (k_documents db) w" if w: "w \<in> set (k_outbox ?db)" "owed w" for w
  proof (cases "find_document db did")
    case None
    then have "w \<in> set (k_outbox db)" using w by (simp add: record_document_change_def)
    moreover from this have "ob_doc w \<noteq> did"
      using parts None by (auto simp: inv_fk_def owned_by_def find_document_def find_None_iff)
    ultimately show ?thesis using parts w(2) by blast
  next
    case (Some d)
    then have d: "d \<in> set (k_documents db)" "doc_id d = did" using find_document_Some by blast+
    have "ob_doc w \<noteq> did \<and> w \<in> set (k_outbox db)
        \<or> ob_doc w = did \<and> ob_attempt w = doc_attempt d \<and> \<not> terminal_status (doc_parse d)"
      using owed_record [OF Some w refl] parts Some w(2)
      by (cases before) (auto simp: terminal_status_def before_ok_def)
    then show ?thesis using d parts w(2) by (auto simp: live_ok_def)
  qed
  moreover have "has_convert ?db d" if d: "d \<in> set (k_documents db)" "doc_parse d = PsPending" for d
  proof (cases "has_convert db d")
    case True
    then show ?thesis using record_idents_mono unfolding has_convert_def by blast
  next
    case False
    with parts d have "doc_id d = did" by blast
    then have "find_document db did = Some d" using find_document_in [OF uniq] d by blast
    moreover from this False parts d have "before = None \<or> st_attempt (the before) \<noteq> doc_attempt d"
      by (cases before) (auto simp: before_ok_def)
    ultimately show ?thesis using convert_recorded d by blast
  qed
  ultimately show ?thesis
    using parts inv_docs_cong [of ?db db]
    by (simp add: workflow_inv_def inv_keys_record inv_fk_record inv_live_def inv_convert_def)
qed

subsection \<open>Statements inside a transaction\<close>

text \<open>\<open>record_ready\<close> holds at the start of every transaction and is kept by its statements.\<close>

lemma ready_start:
  assumes inv: "workflow_inv db" and "find_document db did = Some d"
  shows "record_ready did (capture_document_state db did) db"
proof -
  have d: "d \<in> set (k_documents db)" "doc_id d = did" using find_document_Some [OF assms(2)] by simp_all
  have uniq: "distinct (map doc_id (k_documents db))" using inv by (simp add: workflow_inv_def inv_keys_def)
  have "ob_attempt w = doc_attempt d" if w: "w \<in> set (k_outbox db)" "owed w" "ob_doc w = did" for w
  proof -
    obtain e where "e \<in> set (k_documents db)" "doc_id e = did" "doc_attempt e = ob_attempt w"
      using inv w unfolding workflow_inv_def inv_live_def live_ok_def by metis
    then show ?thesis using find_document_in [OF uniq] assms(2) by fastforce
  qed
  then show ?thesis
    using inv d assms(2)
    by (auto simp: record_ready_def workflow_inv_def inv_live_def inv_convert_def capture_document_state_def
      document_state_of_def before_ok_def)
qed

lemma live_ok_update_other:
  assumes "live_ok docs w" and "\<And>d. doc_id (f d) = doc_id d" and "\<And>d. Q d \<Longrightarrow> doc_id d \<noteq> ob_doc w"
  shows "live_ok (update_rows Q f docs) w"
  using assms by (fastforce simp: live_ok_def set_update_rows)

lemma owned_by_update:
  assumes "owned_by docs w" and "\<And>d. doc_id (f d) = doc_id d" and "\<And>d. doc_version (f d) = doc_version d"
    and "\<And>d. d \<in> set docs \<Longrightarrow> Q d \<Longrightarrow> doc_attempt d \<le> doc_attempt (f d)"
  shows "owned_by (update_rows Q f docs) w"
proof -
  obtain d where d: "d \<in> set docs" "doc_id d = ob_doc w" "doc_version d = ob_version w" "ob_attempt w \<le> doc_attempt d"
    using assms(1) by (auto simp: owned_by_def)
  let ?d = "if Q d then f d else d"
  have "?d \<in> set (update_rows Q f docs)" using d(1) by (auto simp: set_update_rows)
  moreover have "doc_id ?d = ob_doc w \<and> doc_version ?d = ob_version w \<and> ob_attempt w \<le> doc_attempt ?d"
    using d assms(2-4) [of d] by auto
  ultimately show ?thesis unfolding owned_by_def by blast
qed

definition good_change :: "document_row \<Rightarrow> document_row \<Rightarrow> bool" where
  "good_change d d' \<longleftrightarrow> document_ok d' \<and> doc_attempt d \<le> doc_attempt d'
     \<and> (doc_attempt d' = doc_attempt d \<longrightarrow> doc_parse d' = PsPending \<longrightarrow> doc_parse d = PsPending)"

lemma ready_update_documents:
  assumes ready: "record_ready did before db"
    and ids: "\<And>d. doc_id (f d) = doc_id d" "\<And>d. doc_version (f d) = doc_version d"
    and own: "\<And>d. Q d \<Longrightarrow> doc_id d = did"
    and good: "\<And>d. d \<in> set (k_documents db) \<Longrightarrow> Q d \<Longrightarrow> good_change d (f d)"
  shows "record_ready did before (update_documents Q f db)"
proof -
  note parts = ready [unfolded record_ready_def]
  let ?db = "update_documents Q f db"
  have "inv_keys ?db" using parts map_update_rows [of doc_id f] ids by (simp add: inv_keys_def)
  moreover have "inv_fk ?db"
    using parts good ids by (auto simp: inv_fk_def good_change_def intro!: owned_by_update)
  moreover have "inv_docs ?db"
    using parts good by (auto simp: inv_docs_def set_update_rows good_change_def)
  moreover have "\<forall>w\<in>set (k_outbox ?db). owed w \<longrightarrow> ob_doc w \<noteq> did \<longrightarrow> live_ok (k_documents ?db) w"
    using parts own ids by (auto intro!: live_ok_update_other)
  moreover have "\<forall>d\<in>set (k_documents ?db). doc_parse d = PsPending \<longrightarrow> doc_id d \<noteq> did \<longrightarrow> has_convert ?db d"
  proof (intro ballI impI)
    fix d' assume d': "d' \<in> set (k_documents ?db)" "doc_parse d' = PsPending" "doc_id d' \<noteq> did"
    then obtain d where "d \<in> set (k_documents db)" "d' = (if Q d then f d else d)"
      by (auto simp: set_update_rows)
    with d' own [of d] ids [of d] have "d' \<in> set (k_documents db)" by (auto split: if_splits)
    then show "has_convert ?db d'" using d' parts by (simp add: has_convert_def)
  qed
  moreover have "before_ok did before ?db d'"
    if found': "find_document ?db did = Some d'" for d'
  proof -
    obtain d where d: "find_document db did = Some d" "d \<in> set (k_documents db)" "d' = (if Q d then f d else d)"
      using find_document_update [of f Q db did, OF ids(1)] found' find_document_Some [of db did]
      by (cases "find_document db did") auto
    have "doc_id d' = doc_id d \<and> doc_attempt d \<le> doc_attempt d'
        \<and> (doc_attempt d' = doc_attempt d \<longrightarrow> doc_parse d' = PsPending \<longrightarrow> doc_parse d = PsPending)"
      using d ids good [of d] by (auto simp: good_change_def)
    moreover have "before_ok did before db d"
      using parts d(1) by blast
    ultimately show ?thesis by (cases before) (auto simp: before_ok_def has_convert_def)
  qed
  ultimately show ?thesis unfolding record_ready_def by blast
qed

lemma ready_update_outbox:
  assumes ready: "record_ready did before db"
    and keep: "\<And>w. ob_ident (g w) = ob_ident w" "\<And>w. ob_version (g w) = ob_version w" "\<And>w. owed (g w) \<Longrightarrow> owed w"
  shows "record_ready did before (update_outbox P g db)"
proof -
  note parts = ready [unfolded record_ready_def]
  let ?db = "update_outbox P g db"
  have same: "\<exists>w. w \<in> set (k_outbox db) \<and> ob_doc w' = ob_doc w \<and> ob_attempt w' = ob_attempt w \<and> (owed w' \<longrightarrow> owed w)"
    if "w' \<in> set (k_outbox ?db)" for w'
    using that keep by (auto simp: set_update_rows ob_ident_def)
  have conv: "has_convert ?db d \<longleftrightarrow> has_convert db d" for d
    using idents_update_outbox [of g P db] keep(1) by (simp add: has_convert_def del: update_outbox_sel)
  have live: "live_ok (k_documents ?db) w' \<longleftrightarrow> live_ok (k_documents db) w"
    if "ob_doc w' = ob_doc w" "ob_attempt w' = ob_attempt w" for w w' using that by (simp add: live_ok_def)
  have "inv_keys ?db" "inv_fk ?db" "inv_docs ?db"
    using parts keep inv_docs_cong [of ?db db] by (simp_all add: inv_keys_update_outbox inv_fk_update_outbox)
  moreover have "\<forall>w\<in>set (k_outbox ?db). owed w \<longrightarrow> ob_doc w \<noteq> did \<longrightarrow> live_ok (k_documents ?db) w"
    using parts same live by metis
  moreover have "\<forall>d\<in>set (k_documents ?db). doc_parse d = PsPending \<longrightarrow> doc_id d \<noteq> did \<longrightarrow> has_convert ?db d"
    using parts conv by simp
  moreover have "before_ok did before ?db d"
    if "find_document ?db did = Some d" for d
  proof -
    have "before_ok did before db d"
      using parts that by (simp del: update_outbox_sel)
    then show ?thesis using same conv by (cases before) (simp_all add: before_ok_def del: update_outbox_sel, metis+)
  qed
  ultimately show ?thesis unfolding record_ready_def by blast
qed

lemma ready_insert_outbox:
  assumes ready: "record_ready did (Some b) db" and found: "find_document db did = Some d"
    and w: "ob_doc w = did" "ob_version w = doc_version d" "ob_attempt w = doc_attempt d"
  shows "record_ready did (Some b) (insert_outbox w db)"
proof -
  note parts = ready [unfolded record_ready_def]
  let ?db = "insert_outbox w db"
  have rows: "w' = w \<or> w' \<in> set (k_outbox db)" if "w' \<in> set (k_outbox ?db)" for w'
    using that set_insert_outbox_subset by blast
  have conv: "has_convert db d \<Longrightarrow> has_convert ?db d" for d
    using ob_ident_insert_outbox [of w db] by (simp add: has_convert_def)
  have "owned_by (k_documents db) w"
    using found w find_document_Some [OF found] by (auto simp: owned_by_def)
  then have "inv_keys ?db" "inv_fk ?db" "inv_docs ?db"
    using parts inv_docs_cong [of ?db db] by (simp_all add: inv_keys_insert_outbox inv_fk_insert_outbox)
  moreover have "\<forall>w\<in>set (k_outbox ?db). owed w \<longrightarrow> ob_doc w \<noteq> did \<longrightarrow> live_ok (k_documents ?db) w"
    using parts rows w(1) by auto
  moreover have "\<forall>d\<in>set (k_documents ?db). doc_parse d = PsPending \<longrightarrow> doc_id d \<noteq> did \<longrightarrow> has_convert ?db d"
    using parts conv by simp
  moreover have "before_ok did (Some b) ?db d"
  proof -
    have "before_ok did (Some b) db d" using parts found by blast
    then show ?thesis using rows w(3) conv unfolding before_ok_def option.case by metis
  qed
  ultimately show ?thesis using found unfolding record_ready_def by simp
qed

lemma before_ok_cong: "k_outbox db' = k_outbox db \<Longrightarrow> before_ok did before db' d = before_ok did before db d"
  by (cases before) (simp_all add: before_ok_def has_convert_def)

lemma record_ready_cong:
  "k_documents db' = k_documents db \<Longrightarrow> k_outbox db' = k_outbox db \<Longrightarrow> distinct (k_receipts db') \<Longrightarrow>
   record_ready did before db \<Longrightarrow> record_ready did before db'"
  using before_ok_cong [of db' db]
  by (simp add: record_ready_def inv_keys_def inv_fk_def inv_docs_def has_convert_def find_document_def)

lemma find_attempt:
  assumes "distinct (map doc_id (k_documents db))"
    and "find (\<lambda>d. doc_id d = did \<and> R d) (k_documents db) = Some d"
  shows "find_document db did = Some d \<and> R d"
  using find_Some_in_set [OF assms(2)] find_document_in [OF assms(1), of d] by simp

lemma join_images_sel [simp]:
  "k_documents (join_images now did attempt db) = k_documents db"
  "k_receipts (join_images now did attempt db) = k_receipts db"
  "k_chunks (join_images now did attempt db) = k_chunks db"
  by (simp_all add: join_images_def Let_def split: option.splits)

lemma ready_join_images:
  assumes ready: "record_ready did (Some b) db"
  shows "record_ready did (Some b) (join_images now did attempt db)"
proof -
  define db1 where "db1 = update_spans
    (\<lambda>s. sp_doc s = did \<and> sp_attempt s = attempt \<and> sp_name s = ''multimodal'' \<and> images_done db did attempt)
    (\<lambda>s. s\<lparr>sp_status := Some ''done'', sp_finished := Some now,
           sp_duration := Some (epoch_ms (now - (case sp_started s of Some t \<Rightarrow> t | None \<Rightarrow> now)))\<rparr>) db"
  have keys: "inv_keys db" using ready by (simp add: record_ready_def)
  have ready1: "record_ready did (Some b) db1"
    by (rule record_ready_cong [OF _ _ _ ready]) (use keys in \<open>simp_all add: db1_def inv_keys_def\<close>)
  have eq: "join_images now did attempt db =
     (case find (\<lambda>d. doc_id d = did \<and> doc_attempt d = attempt) (k_documents db1) of
        None \<Rightarrow> db1
      | Some d \<Rightarrow> if images_done db1 did attempt
          then insert_outbox (new_outbox now did (doc_version d) attempt ''postprocess'' (Postprocess False) False) db1
          else db1)"
    unfolding join_images_def Let_def db1_def by (rule refl)
  show ?thesis
  proof (cases "find (\<lambda>d. doc_id d = did \<and> doc_attempt d = attempt) (k_documents db1)")
    case None
    then show ?thesis using ready1 eq by simp
  next
    case (Some d)
    then have "find_document db1 did = Some d \<and> doc_attempt d = attempt"
      using keys by (intro find_attempt) (simp_all add: db1_def inv_keys_def)
    then show ?thesis
      using ready1 eq Some by (auto intro: ready_insert_outbox simp: new_outbox_def)
  qed
qed

end
