(* ===== verification/Workflow_Steps.thy ===== *)
theory Workflow_Steps
  imports Workflow_Inv
begin

text \<open>
  Every operation of the workflow keeps \<open>workflow_inv\<close>; the step relation \<open>wf_step\<close> has one rule per
  operation that a caller of the crate can commit, and \<open>wf\<close> interprets the invariant locale on it.
\<close>

subsection \<open>Operations of one shape\<close>

lemma change_document_none: "find_document db did = None \<Longrightarrow> change_document now did P f db = db"
proof -
  assume none: "find_document db did = None"
  then have "update_rows (\<lambda>d. doc_id d = did \<and> P d) (\<lambda>d. (f d)\<lparr>doc_updated := now\<rparr>) (k_documents db) = k_documents db"
    by (auto simp: find_document_def find_None_iff update_rows_def intro!: map_idI)
  then have "update_documents (\<lambda>d. doc_id d = did \<and> P d) (\<lambda>d. (f d)\<lparr>doc_updated := now\<rparr>) db = db"
    by (simp add: update_documents_def)
  with none show ?thesis by (simp add: change_document_def record_document_change_def)
qed

lemma document_ok_updated [simp]: "document_ok (d\<lparr>doc_updated := t\<rparr>) = document_ok d"
  by (simp add: document_ok_def)

lemma good_change_updated [simp]: "good_change d (d'\<lparr>doc_updated := t\<rparr>) = good_change d d'"
  by (simp add: good_change_def)

lemma change_document_inv:
  assumes inv: "workflow_inv db"
    and ids: "\<And>d. doc_id (f d) = doc_id d" "\<And>d. doc_version (f d) = doc_version d"
    and good: "\<And>d. find_document db did = Some d \<Longrightarrow> P d \<Longrightarrow> document_ok d \<Longrightarrow> good_change d (f d)"
  shows "workflow_inv (change_document now did P f db)"
proof (cases "find_document db did")
  case None
  then show ?thesis using inv by (simp add: change_document_none)
next
  case (Some d)
  have "inv_docs db" "distinct (map doc_id (k_documents db))"
    using inv by (simp_all add: workflow_inv_def inv_keys_def)
  then have "good_change e (f e)" if "e \<in> set (k_documents db)" "doc_id e = did" "P e" for e
    using that good [of e] find_document_in [of db e] by (auto simp: inv_docs_def)
  then show ?thesis
    unfolding change_document_def
    by (intro record_restores ready_update_documents ready_start [OF inv Some]) (auto simp: ids)
qed

lemma good_change_status:
  "document_ok d \<Longrightarrow> status \<noteq> PsCompleted \<Longrightarrow> status = PsPending \<longrightarrow> doc_parse d = PsPending \<Longrightarrow>
   good_change d (d\<lparr>doc_parse := status\<rparr>)"
  by (simp add: good_change_def document_ok_def)

lemma good_change_publish:
  "document_ok d \<Longrightarrow> doc_attempt d = attempt \<Longrightarrow> good_change d (publish_generation attempt d)"
  by (simp add: good_change_def document_ok_def publish_generation_def)

lemma update_status_inv:
  assumes "workflow_inv db" and "status \<notin> {PsPending, PsCompleted}"
  shows "workflow_inv (update_status now did attempt status error db)"
  unfolding update_status_def using assms
  by (intro change_document_inv) (simp_all add: good_change_def document_ok_def)

lemma publish_empty_inv: "workflow_inv db \<Longrightarrow> workflow_inv (publish_empty now did attempt db)"
  unfolding publish_empty_def
  by (rule change_document_inv) (simp_all add: good_change_publish, simp_all add: publish_generation_def)

lemma set_parse_status_inv:
  assumes "workflow_inv db" and "status \<notin> {PsPending, PsCompleted}"
  shows "workflow_inv (set_parse_status now did status error db)"
  unfolding set_parse_status_def using assms
  by (intro change_document_inv) (simp_all add: good_change_def document_ok_def)

lemma try_set_processing_inv: "workflow_inv db \<Longrightarrow> workflow_inv (snd (try_set_processing now did db))"
  unfolding try_set_processing_def snd_conv
  by (rule change_document_inv) (simp_all add: good_change_def document_ok_def)

lemma set_finalizing_inv: "workflow_inv db \<Longrightarrow> workflow_inv (snd (set_finalizing now did n db))"
  unfolding set_finalizing_def snd_conv
  by (rule change_document_inv) (simp_all add: good_change_def document_ok_def)

lemma restart_inv:
  assumes "workflow_inv db"
    and "\<And>d. find_document db did = Some d \<Longrightarrow> P d \<Longrightarrow>
           doc_attempt d < attempt \<or> doc_attempt d = attempt \<and> doc_parse d = PsPending"
  shows "workflow_inv (change_document now did P (restart_row attempt) db)"
  by (rule change_document_inv [OF assms(1)])
     (use assms(2) in \<open>force simp: good_change_def document_ok_def restart_row_def\<close>)+

lemma restartable_found:
  assumes "inv_keys db" and "find (\<lambda>d. doc_id d = did \<and> restartable d) (k_documents db) = Some d"
  shows "find_document db did = Some d"
  using find_attempt [OF _ assms(2)] assms(1) by (simp add: inv_keys_def)

lemma next_attempt_eq [result_simps]: "next_attempt a = Inr b \<longleftrightarrow> a < 2147483647 \<and> b = a + 1"
  by (auto simp: next_attempt_def)

lemma bump_document_attempt_inv:
  assumes "workflow_inv db" and "bump_document_attempt now did db = Inr (a, db')"
  shows "workflow_inv db'"
  using assms restartable_found [of db did]
  by (auto simp: bump_document_attempt_def result_simps workflow_inv_def [of db] intro!: restart_inv)

lemma mark_reparse_queued_inv:
  assumes "workflow_inv db" and "mark_reparse_queued now did db = Inr (a, db')"
  shows "workflow_inv db'"
  using assms restartable_found [of db did]
  by (auto simp: mark_reparse_queued_def result_simps workflow_inv_def [of db] intro!: restart_inv split: if_splits)

lemma fold_inv:
  assumes "\<And>x s. Q s \<Longrightarrow> Q (f x s)"
  shows "Q s \<Longrightarrow> Q (fold f xs s)"
  by (induction xs arbitrary: s) (simp_all add: assms)

lemma cancel_active_inv: "workflow_inv db \<Longrightarrow> workflow_inv (snd (cancel_active_docs_for_versions now vids db))"
  unfolding cancel_active_docs_for_versions_def Let_def snd_conv
  by (rule fold_inv, rule change_document_inv) (simp_all add: good_change_status)

lemma workflow_inv_cong:
  "k_documents db' = k_documents db \<Longrightarrow> k_outbox db' = k_outbox db \<Longrightarrow> k_receipts db' = k_receipts db \<Longrightarrow>
   workflow_inv db' = workflow_inv db"
  by (simp add: workflow_inv_def inv_keys_def inv_fk_def inv_docs_def inv_live_def inv_convert_def has_convert_def)

lemma housekeep_inv: "workflow_inv db \<Longrightarrow> workflow_inv (snd (housekeep_documents now secs db))"
proof -
  assume inv: "workflow_inv db"
  define ids where "ids = sort (map doc_id (filter (\<lambda>d. doc_parse d \<in> {PsProcessing, PsFinalizing}
                  \<and> \<not> exists_row (\<lambda>w. ob_doc w = doc_id d \<and> ob_attempt w = doc_attempt d \<and> live w) (k_outbox db)
                  \<and> heartbeat db d < now - seconds secs) (k_documents db)))"
  define db1 where "db1 = fold (\<lambda>did. change_document now did (\<lambda>d. True)
      (\<lambda>d. d\<lparr>doc_parse := PsFailed, doc_error := Some (stuck_message secs), doc_pending := 0\<rparr>)) ids db"
  have "workflow_inv db1"
    unfolding db1_def
    by (rule fold_inv [where Q = workflow_inv, OF _ inv], rule change_document_inv)
       (simp_all add: good_change_def document_ok_def)
  then show ?thesis
    unfolding housekeep_documents_def Let_def ids_def [symmetric] db1_def [symmetric]
    by (simp add: workflow_inv_cong [of "update_spans P f db1" db1 for P f])
qed

subsection \<open>Receipts\<close>

lemma owed_settled: "owed (w\<lparr>ob_state := ObComplete, ob_error := e\<rparr>) \<Longrightarrow> owed w"
  by (simp add: owed_def live_def)

lemma good_change_pending: "document_ok d \<Longrightarrow> good_change d (d\<lparr>doc_pending := n\<rparr>)"
  by (simp add: good_change_def document_ok_def)

lemma ready_documents_ok: "record_ready did before db \<Longrightarrow> d \<in> set (k_documents db) \<Longrightarrow> document_ok d"
  by (simp add: record_ready_def inv_docs_def)

lemma ready_complete_writes:
  assumes ready: "record_ready did (Some b) db" and fresh: "(did, attempt, key) \<notin> set (k_receipts db)"
  shows "record_ready did (Some b) (complete_writes now did attempt key db)"
proof -
  define db1 where "db1 = db\<lparr>k_receipts := k_receipts db @ [(did, attempt, key)]\<rparr>"
  define db2 where "db2 = update_outbox (outbox_at did attempt key) (\<lambda>w. w\<lparr>ob_state := ObComplete, ob_error := None\<rparr>) db1"
  define db3 where "db3 = (if starts_with ''image:'' key then join_images now did attempt db2 else db2)"
  define db4 where "db4 = update_documents (\<lambda>d. doc_id d = did \<and> doc_attempt d = attempt)
                  (\<lambda>d. d\<lparr>doc_pending := int (open_derived db3 did attempt), doc_updated := now\<rparr>) db3"
  have "record_ready did (Some b) db1"
    by (rule record_ready_cong [OF _ _ _ ready]) (use ready fresh in \<open>simp_all add: db1_def record_ready_def inv_keys_def\<close>)
  then have "record_ready did (Some b) db2"
    unfolding db2_def by (rule ready_update_outbox) (simp_all add: owed_settled)
  then have ready3: "record_ready did (Some b) db3"
    unfolding db3_def by (simp add: ready_join_images)
  have ready4: "record_ready did (Some b) db4"
    unfolding db4_def
    by (rule ready_update_documents [OF ready3]) (auto simp: good_change_pending ready_documents_ok [OF ready3])
  show ?thesis
    unfolding complete_writes_def Let_def db1_def [symmetric] db2_def [symmetric] db3_def [symmetric] db4_def [symmetric]
    by (rule ready_update_documents [OF ready4])
       (use ready_documents_ok [OF ready4] in \<open>auto simp: good_change_publish, auto simp: publish_generation_def\<close>)
qed

lemma complete_tx_cases:
  assumes "complete_tx now did attempt key db = Inr (r, db')"
  obtains (duplicate) "r = False" "db' = db" "(did, attempt, key) \<in> set (k_receipts db)"
  | (fresh) d where "r = True" "find_document db did = Some d" "(did, attempt, key) \<notin> set (k_receipts db)"
      "db' = record_document_change now did (Some (document_state_of d)) (complete_writes now did attempt key db)"
  using assms by (auto simp: complete_tx_def Let_def capture_document_state_def split: if_splits)

lemma complete_tx_inv:
  assumes "workflow_inv db" and "complete_tx now did attempt key db = Inr (r, db')"
  shows "workflow_inv db'"
  using assms(2)
proof (cases rule: complete_tx_cases)
  case (fresh d)
  then show ?thesis
    using ready_start [OF assms(1) fresh(2)]
    by (auto intro!: record_restores ready_complete_writes simp: capture_document_state_def)
qed (use assms in simp)

lemma complete_inv:
  "workflow_inv db \<Longrightarrow> complete now did attempt key db = Inr (r, db') \<Longrightarrow> workflow_inv db'"
  by (auto simp: complete_def dest: complete_tx_inv split: if_splits)

subsection \<open>Obligations\<close>

lemma put_tx_cases:
  assumes "put_tx ut now did vid attempt w db = Inr db'"
  obtains (present) "db' = db"
  | (inserted) "db' = insert_outbox (new_outbox now did vid attempt (work_key ut w) w (work_derived w)) db"
      "exists_row (\<lambda>d. doc_id d = did \<and> doc_version d = vid) (k_documents db)"
  using assms by (auto simp: put_tx_def split: if_splits)

lemma unique_document:
  "inv_keys db \<Longrightarrow> find_document db did = Some d \<Longrightarrow> e \<in> set (k_documents db) \<Longrightarrow> doc_id e = did \<Longrightarrow> e = d"
  using find_document_in [of db e] by (simp add: inv_keys_def)

lemma ready_put_tx:
  assumes ready: "record_ready did (Some b) db" and found: "find_document db did = Some d"
    and "doc_attempt d = attempt" and "put_tx ut now did vid attempt w db = Inr db'"
  shows "record_ready did (Some b) db' \<and> k_documents db' = k_documents db \<and> k_receipts db' = k_receipts db"
  using assms(4)
proof (cases rule: put_tx_cases)
  case inserted
  then have "doc_version d = vid"
    using ready found unique_document [of db did d] by (auto simp: exists_row_iff record_ready_def)
  then show ?thesis using inserted(1) assms by (auto intro!: ready_insert_outbox simp: new_outbox_def)
qed (use ready in simp)

lemma ready_put_all:
  assumes "record_ready did (Some b) db" and "find_document db did = Some d" and "doc_attempt d = attempt"
    and "put_all ut now did vid attempt ws db = Inr db'"
  shows "record_ready did (Some b) db' \<and> k_documents db' = k_documents db \<and> k_receipts db' = k_receipts db"
  using assms
proof (induction ws arbitrary: db)
  case (Cons w ws)
  then obtain db1 where db1: "put_tx ut now did vid attempt w db = Inr db1"
      "put_all ut now did vid attempt ws db1 = Inr db'" by (auto simp: result_simps)
  have ready1: "record_ready did (Some b) db1 \<and> k_documents db1 = k_documents db \<and> k_receipts db1 = k_receipts db"
    using ready_put_tx [OF Cons.prems(1-3) db1(1)] .
  then show ?case using Cons.IH [OF _ _ Cons.prems(3) db1(2)] Cons.prems(2) by (simp add: find_document_def)
qed simp

lemma lock_current_cases:
  assumes "inv_keys db" and "lock_current db did attempt"
  obtains d where "find_document db did = Some d" "current_row attempt d"
  using assms find_attempt [of db did "current_row attempt"] by (auto simp: lock_current_def inv_keys_def)

lemma put_inv:
  assumes inv: "workflow_inv db" and "put ut now did vid attempt w db = Inr db'"
  shows "workflow_inv db'"
proof (cases "lock_current db did attempt")
  case True
  then have put: "put_tx ut now did vid attempt w db = Inr db'" using assms by (simp add: put_def)
  obtain d where d: "find_document db did = Some d" "current_row attempt d"
    using True inv lock_current_cases by (metis workflow_inv_def)
  have ready: "record_ready did (capture_document_state db did) db" using ready_start [OF inv d(1)] .
  then have post: "record_ready did (Some (document_state_of d)) db'" "k_documents db' = k_documents db"
    using ready_put_tx [of did _ db d attempt] d put
    by (auto simp: capture_document_state_def current_row_def)
  have doc: "d \<in> set (k_documents db')" "doc_id d = did" "\<not> terminal_status (doc_parse d)" "find_document db' did = Some d"
    using d find_document_Some [OF d(1)] post(2)
    by (auto simp: current_row_def in_progress_def terminal_status_def find_document_def)
  have before: "before_ok did (Some (document_state_of d)) db' d" using post(1) doc(4) by (simp add: record_ready_def)
  have "live_ok (k_documents db') w" if "w \<in> set (k_outbox db')" "owed w" for w
    using that before doc post(1)
    by (cases "ob_doc w = did") (auto simp: before_ok_def document_state_of_def live_ok_def record_ready_def)
  moreover have "has_convert db' e" if "e \<in> set (k_documents db')" "doc_parse e = PsPending" for e
    using that before doc post(1) unique_document [of db' did d e]
    by (cases "doc_id e = did") (auto simp: before_ok_def document_state_of_def record_ready_def)
  ultimately show ?thesis
    using post(1) by (simp add: workflow_inv_def record_ready_def inv_live_def inv_convert_def)
qed (use assms in \<open>simp add: put_def\<close>)

lemma record_ready_same_attempt:
  "st_attempt b' = st_attempt b \<Longrightarrow> record_ready did (Some b) db \<Longrightarrow> record_ready did (Some b') db"
  by (simp add: record_ready_def before_ok_def)

lemma find_complete_writes:
  assumes "find_document db did = Some d"
  obtains d' where "find_document (complete_writes now did attempt key db) did = Some d'" "doc_attempt d' = doc_attempt d"
proof -
  let ?mid = "if starts_with ''image:'' key
    then join_images now did attempt (update_outbox (outbox_at did attempt key)
      (\<lambda>w. w\<lparr>ob_state := ObComplete, ob_error := None\<rparr>) (db\<lparr>k_receipts := k_receipts db @ [(did, attempt, key)]\<rparr>))
    else update_outbox (outbox_at did attempt key)
      (\<lambda>w. w\<lparr>ob_state := ObComplete, ob_error := None\<rparr>) (db\<lparr>k_receipts := k_receipts db @ [(did, attempt, key)]\<rparr>)"
  have "find_document ?mid did = Some d" using assms by (simp add: find_document_def)
  then show ?thesis
    using that unfolding complete_writes_def Let_def
    by (simp add: find_document_update publish_generation_def)
qed

lemma begin_postprocess_inv:
  assumes inv: "workflow_inv db" and run: "begin_postprocess ut now did vid attempt ws db = Inr (r, db')"
  shows "workflow_inv db'"
proof (cases "lock_current db did attempt \<and> db' \<noteq> db")
  case True
  then obtain d where d: "find_document db did = Some d" "current_row attempt d"
    using inv lock_current_cases by (metis workflow_inv_def)
  let ?b = "document_state_of d"
  let ?f = "\<lambda>d. d\<lparr>doc_parse := PsFinalizing, doc_pending := int (length (filter work_derived ws)),
              doc_summary := (if Summary \<in> set ws then SsPending else SsNone), doc_updated := now\<rparr>"
  obtain db1 fresh db3 where steps: "put_all ut now did vid attempt ws db = Inr db1"
      "complete_tx now did attempt ''postprocess''
         (update_documents (\<lambda>d. doc_id d = did \<and> doc_attempt d = attempt) ?f db1) = Inr (fresh, db3)"
      "db' = record_document_change now did (Some ?b) db3"
    using run True d
    by (auto simp: begin_postprocess_def Let_def result_simps capture_document_state_def split: if_splits)
  let ?db2 = "update_documents (\<lambda>d. doc_id d = did \<and> doc_attempt d = attempt) ?f db1"
  have a: "doc_attempt d = attempt" using d(2) by (simp add: current_row_def)
  have ready1: "record_ready did (Some ?b) db1" and docs1: "k_documents db1 = k_documents db"
    using ready_put_all [OF _ d(1) a steps(1)] ready_start [OF inv d(1)] d(1)
    by (simp_all add: capture_document_state_def)
  have ready2: "record_ready did (Some ?b) ?db2"
    by (rule ready_update_documents [OF ready1])
       (use ready_documents_ok [OF ready1] in \<open>auto simp: good_change_def document_ok_def\<close>)
  have "find_document db1 did = Some d" using d(1) docs1 by (simp add: find_document_def)
  then have found2: "find_document ?db2 did = Some (?f d)"
    using a find_document_Some [OF d(1)] by (simp add: find_document_update)
  show ?thesis using steps(2)
  proof (cases rule: complete_tx_cases)
    case duplicate
    then show ?thesis using steps(3) record_restores [OF ready2] by simp
  next
    case (fresh d2)
    then have d2: "doc_attempt d2 = attempt" using found2 a by auto
    have "record_ready did (Some (document_state_of d2)) ?db2"
      using record_ready_same_attempt [OF _ ready2] d2 a by (simp add: document_state_of_def)
    then have inv3: "workflow_inv db3" using fresh by (simp add: record_restores ready_complete_writes)
    obtain d3 where d3: "find_document db3 did = Some d3" "doc_attempt d3 = attempt"
      using find_complete_writes [OF fresh(2), of now attempt "''postprocess''"] fresh(4) d2
      by (auto simp: find_document_def)
    have "record_ready did (Some ?b) db3"
      using record_ready_same_attempt [of ?b "document_state_of d3"] ready_start [OF inv3 d3(1)] d3 a
      by (simp add: capture_document_state_def document_state_of_def)
    then show ?thesis using steps(3) record_restores by simp
  qed
next
  case False
  then show ?thesis using assms by (auto simp: begin_postprocess_def Let_def)
qed

lemma fail_job_inv: "workflow_inv db \<Longrightarrow> workflow_inv (fail_job now did attempt key error db)"
proof (cases "find (\<lambda>d. doc_id d = did \<and> doc_attempt d = attempt \<and> doc_deleted d = None
                         \<and> (in_progress (doc_parse d) \<or> doc_parse d = PsFailed)) (k_documents db)")
  case None
  moreover assume "workflow_inv db"
  ultimately show ?thesis by (simp add: fail_job_def)
next
  case (Some d)
  assume inv: "workflow_inv db"
  then have found: "find_document db did = Some d"
    using find_attempt [OF _ Some] by (simp add: workflow_inv_def inv_keys_def)
  let ?open = "\<lambda>w. outbox_at did attempt key w \<and> live w"
  let ?db1 = "update_outbox ?open (\<lambda>w. w\<lparr>ob_state := ObFailed, ob_error := Some error\<rparr>) db"
  have ready1: "record_ready did (capture_document_state db did) ?db1"
    by (rule ready_update_outbox [OF ready_start [OF inv found]]) (simp_all add: owed_def live_def)
  have "record_ready did (capture_document_state db did)
     (update_documents (\<lambda>d. doc_id d = did \<and> doc_attempt d = attempt)
        (\<lambda>d. d\<lparr>doc_parse := PsFailed, doc_error := Some error,
               doc_summary := (if doc_summary d \<in> {SsPending, SsProcessing} then SsFailed else doc_summary d),
               doc_index_ready := False, doc_updated := now\<rparr>) ?db1)"
    by (rule ready_update_documents [OF ready1])
       (use ready_documents_ok [OF ready1] in \<open>auto simp: good_change_def document_ok_def\<close>)
  then show ?thesis
    using Some ready1 by (simp add: fail_job_def Let_def record_restores)
qed

subsection \<open>Creation\<close>

lemma register_object_sel:
  assumes "register_knowledge_document_object_in_tx db did media idem = Inr (r, db')"
  shows "k_documents db' = k_documents db \<and> k_outbox db' = k_outbox db \<and> k_receipts db' = k_receipts db"
  using assms by (auto simp: register_knowledge_document_object_in_tx_def result_simps split: if_splits)

lemma insert_document_inv:
  assumes inv: "workflow_inv db" and run: "insert_document ut now nd db = Inr db'"
  shows "workflow_inv db'"
proof -
  obtain db1 r db2 where steps: "insert_document_row now nd ''file'' None db = Inr db1"
      "register_knowledge_document_object_in_tx db1 (nd_id nd) ''application/octet-stream''
         (''knowledge-document:'' @ ut (nd_id nd)) = Inr (r, db2)"
      "db' = record_document_change now (nd_id nd) None db2"
    using run by (auto simp: insert_document_def result_simps)
  obtain d where d: "k_documents db1 = k_documents db @ [d]" "doc_id d = nd_id nd" "document_ok d"
      "k_outbox db1 = k_outbox db" "k_receipts db1 = k_receipts db" "find_document db (nd_id nd) = None"
    using steps(1) by (auto simp: insert_document_row_def document_ok_def split: if_splits)
  have tables: "k_documents db2 = k_documents db @ [d]" "k_outbox db2 = k_outbox db" "k_receipts db2 = k_receipts db"
    using register_object_sel [OF steps(2)] d by simp_all
  have new: "doc_id e \<noteq> nd_id nd" if "e \<in> set (k_documents db)" for e
    using d(6) that by (auto simp: find_document_def find_None_iff)
  have "record_ready (nd_id nd) None db2"
    unfolding record_ready_def
  proof (intro conjI)
    have "nd_id nd \<notin> doc_id ` set (k_documents db)" by (metis imageE new)
    then show "inv_keys db2" using inv tables d(2) by (simp add: workflow_inv_def inv_keys_def)
    have "owned_by (k_documents db) w \<Longrightarrow> owned_by (k_documents db2) w" for w
      using tables(1) by (auto simp: owned_by_def)
    then show "inv_fk db2" using inv tables(2) by (simp add: workflow_inv_def inv_fk_def)
    show "inv_docs db2" using inv tables d(3) by (auto simp: workflow_inv_def inv_docs_def)
    have "live_ok (k_documents db) w \<Longrightarrow> live_ok (k_documents db2) w" for w
      using tables(1) by (auto simp: live_ok_def)
    then show "\<forall>w\<in>set (k_outbox db2). owed w \<longrightarrow> ob_doc w \<noteq> nd_id nd \<longrightarrow> live_ok (k_documents db2) w"
      using inv tables(2) by (simp add: workflow_inv_def inv_live_def)
    show "\<forall>e\<in>set (k_documents db2). doc_parse e = PsPending \<longrightarrow> doc_id e \<noteq> nd_id nd \<longrightarrow> has_convert db2 e"
      using inv tables d(2) by (auto simp: workflow_inv_def inv_convert_def has_convert_def)
    show "\<forall>e. find_document db2 (nd_id nd) = Some e \<longrightarrow> before_ok (nd_id nd) None db2 e"
    proof -
      have "ob_doc w \<noteq> nd_id nd" if "w \<in> set (k_outbox db)" for w
      proof -
        have "owned_by (k_documents db) w" using inv that by (simp add: workflow_inv_def inv_fk_def)
        then show ?thesis using new by (auto simp: owned_by_def)
      qed
      then show ?thesis using tables by (simp add: before_ok_def)
    qed
  qed
  then show ?thesis using steps(3) record_restores by simp
qed

subsection \<open>Statements on other tables\<close>

lemma upsert_each_sel:
  assumes "\<And>r db db'. up r db = Inr db' \<Longrightarrow>
      k_documents db' = k_documents db \<and> k_outbox db' = k_outbox db \<and> k_receipts db' = k_receipts db"
  shows "upsert_each up rs db = Inr db' \<Longrightarrow>
      k_documents db' = k_documents db \<and> k_outbox db' = k_outbox db \<and> k_receipts db' = k_receipts db"
  by (induction rs arbitrary: db) (auto simp: result_simps dest!: assms)

lemma append_chunks_sel:
  assumes "append_document_chunks_tx cs es db = Inr db'"
  shows "k_documents db' = k_documents db \<and> k_outbox db' = k_outbox db \<and> k_receipts db' = k_receipts db"
proof -
  obtain db1 where "upsert_each upsert_chunk cs db = Inr db1" "upsert_each upsert_embedding es db1 = Inr db'"
    using assms by (auto simp: append_document_chunks_tx_def result_simps)
  moreover have "k_documents db' = k_documents db \<and> k_outbox db' = k_outbox db \<and> k_receipts db' = k_receipts db"
    if "upsert_chunk c db = Inr db'" for c db db' using that by (auto simp: upsert_chunk_def split: option.splits if_splits)
  moreover have "k_documents db' = k_documents db \<and> k_outbox db' = k_outbox db \<and> k_receipts db' = k_receipts db"
    if "upsert_embedding e db = Inr db'" for e db db' using that by (auto simp: upsert_embedding_def split: if_splits)
  ultimately show ?thesis
    using upsert_each_sel [of upsert_chunk cs db db1] upsert_each_sel [of upsert_embedding es db1 db'] by simp
qed

lemma stage_index_sel:
  assumes "stage_index did attempt cs es rep db = Inr (r, db')"
  shows "k_documents db' = k_documents db \<and> k_outbox db' = k_outbox db \<and> k_receipts db' = k_receipts db"
  using assms append_chunks_sel by (fastforce simp: stage_index_def Let_def result_simps split: if_splits)

lemma stage_index_inv:
  "workflow_inv db \<Longrightarrow> stage_index did attempt cs es rep db = Inr (r, db') \<Longrightarrow> workflow_inv db'"
  using stage_index_sel workflow_inv_cong by metis

lemma delete_generation_sel [simp]:
  "k_documents (delete_generation did attempt db) = k_documents db"
  "k_outbox (delete_generation did attempt db) = k_outbox db"
  "k_receipts (delete_generation did attempt db) = k_receipts db"
  by (simp_all add: delete_generation_def split: option.splits)

lemma purge_document_index_sel [simp]:
  "k_documents (purge_document_index did db) = k_documents db"
  "k_outbox (purge_document_index did db) = k_outbox db"
  "k_receipts (purge_document_index did db) = k_receipts db"
  by (simp_all add: purge_document_index_def Let_def)

subsection \<open>Delivery\<close>

lemma inv_update_outbox:
  assumes inv: "workflow_inv db"
    and keep: "\<And>w. ob_ident (g w) = ob_ident w" "\<And>w. ob_version (g w) = ob_version w" "\<And>w. P w \<Longrightarrow> owed (g w) \<Longrightarrow> owed w"
  shows "workflow_inv (update_outbox P g db)"
proof -
  have "inv_live (update_outbox P g db)"
    unfolding inv_live_def
  proof (intro ballI impI)
    fix w' assume w': "w' \<in> set (k_outbox (update_outbox P g db))" "owed w'"
    then obtain w where w: "w \<in> set (k_outbox db)" "w' = (if P w then g w else w)" by (auto simp: set_update_rows)
    then have "owed w" "ob_ident w' = ob_ident w" using w' keep by (auto split: if_splits)
    then show "live_ok (k_documents (update_outbox P g db)) w'"
      using inv w(1) by (simp add: workflow_inv_def inv_live_def live_ok_def ob_ident_def)
  qed
  moreover have "inv_convert (update_outbox P g db)"
    using inv idents_update_outbox [of g P db] keep(1)
    by (simp add: workflow_inv_def inv_convert_def has_convert_def del: update_outbox_sel) simp
  ultimately show ?thesis
    using inv keep inv_docs_cong [of "update_outbox P g db" db]
    by (simp add: workflow_inv_def inv_keys_update_outbox inv_fk_update_outbox)
qed

lemma record_delivery_inv: "workflow_inv db \<Longrightarrow> workflow_inv (record_delivery now r res db)"
  unfolding record_delivery_def Let_def by (rule inv_update_outbox) (auto simp: owed_def)

text \<open>
  What one row of \<open>dispatch\<close> can do: fail the job, hand a job to the queue and record the delivery,
  or settle a reconciliation without a delivery.
\<close>

lemma dispatch_row_cases:
  assumes run: "dispatch_row enqueue prepare m now r db = Inr (db', js)"
  obtains (exhausted) "ob_payload r \<noteq> Reconcile" "m \<le> ob_deliveries r" "js = []"
      "db' = fail_job now (ob_doc r) (ob_attempt r) (ob_key r) exhausted_message db"
  | (delivered) j where "js = [j]" "ob_deliveries r < m" "db' = record_delivery now r (enqueue j) db"
  | (settled) P g where "js = []" "ob_payload r = Reconcile" "db' = update_outbox P g db" "\<And>w. P w \<Longrightarrow> outbox_revision r w"
      "\<And>w. ob_ident (g w) = ob_ident w" "\<And>w. ob_version (g w) = ob_version w" "\<And>w. P w \<Longrightarrow> owed (g w) \<Longrightarrow> owed w"
proof (cases "delivery_of (ob_doc r) (ob_version r) (ob_attempt r) (ob_payload r)")
  case (Some j)
  then have "ob_payload r \<noteq> Reconcile" by auto
  with Some run show thesis
    using exhausted delivered by (auto simp: dispatch_row_def split: if_splits)
next
  case None
  then have rec: "ob_payload r = Reconcile" by (cases "ob_payload r") auto
  have complete: thesis if "db' = update_outbox (outbox_revision r) (\<lambda>w. w\<lparr>ob_state := ObComplete\<rparr>) db" "js = []"
    by (rule settled [OF that(2) rec that(1)]) (simp_all add: owed_def live_def)
  have failed: thesis
    if "db' = update_outbox (outbox_revision r) (\<lambda>w. w\<lparr>ob_state := ObFailed, ob_error := e\<rparr>) db" "js = []" for e
    by (rule settled [OF that(2) rec that(1)]) (simp_all add: owed_def live_def)
  have wait: thesis
    if "db' = update_outbox (\<lambda>w. outbox_revision r w \<and> live w) (\<lambda>w. w\<lparr>ob_error := e, ob_next := t\<rparr>) db" "js = []" for e t
    by (rule settled [OF that(2) rec that(1)]) (simp_all add: owed_def live_def)
  show thesis
  proof (cases "version_live db (ob_version r)")
    case True
    then obtain p where p: "prepare db (ob_version r) = Inr p"
      using run rec by (auto simp: dispatch_row_def rbind_eq_Inr)
    show thesis
      using run rec True p complete failed wait delivered
      by (cases p) (auto simp: dispatch_row_def split: if_splits)
  next
    case False
    then show thesis using run rec complete by (auto simp: dispatch_row_def)
  qed
qed

lemma dispatch_row_inv:
  assumes inv: "workflow_inv db" and "dispatch_row enqueue prepare m now r db = Inr (db', js)"
  shows "workflow_inv db'"
  using assms(2)
proof (cases rule: dispatch_row_cases)
  case (settled P g)
  then show ?thesis using inv_update_outbox [OF inv] by simp
qed (simp_all add: fail_job_inv [OF inv] record_delivery_inv [OF inv])

lemma dispatch_rows_inv:
  "workflow_inv db \<Longrightarrow> workflow_inv (fst (dispatch_rows enqueue prepare m now rs db))"
proof (induction rs arbitrary: db)
  case (Cons r rs)
  show ?case
  proof (cases "dispatch_row enqueue prepare m now r db")
    case (Inr p)
    then show ?thesis
      using Cons.IH [of "fst p"] dispatch_row_inv [OF Cons.prems, of enqueue prepare m now r "fst p" "snd p"]
      by (auto split: prod.splits)
  qed (use Cons.prems in simp)
qed simp

lemma recover_stale_inv: "workflow_inv db \<Longrightarrow> recover_stale now ids db = Inr db' \<Longrightarrow> workflow_inv db'"
proof (induction ids arbitrary: db)
  case (Cons did ids)
  have "workflow_inv (change_document now did (\<lambda>d. True) recovery_row db)"
    by (rule change_document_inv [OF Cons.prems(1)])
       (simp_all add: recovery_row_def restart_row_def good_change_def document_ok_def)
  then show ?case using Cons by (auto simp: result_simps split: option.splits)
qed simp

lemma dispatch_inv: "workflow_inv db \<Longrightarrow> workflow_inv (fst (dispatch enqueue prepare setting now db))"
  using recover_stale_inv dispatch_rows_inv by (auto simp: dispatch_def split: sum.splits)

end
