(* ===== verification/Workflow_Props.thy ===== *)
theory Workflow_Props
  imports Workflow_Steps
begin

text \<open>
  The document workflow as a transition system: any interleaving of committed operations, and of
  changes that other components make to versions, pages and spans.  The theorems are about
  what such runs can and cannot do to a document generation.
\<close>

inductive wf_step :: "kdb \<Rightarrow> kdb \<Rightarrow> bool" where
  step_insert: "insert_document ut now nd db = Inr db' \<Longrightarrow> wf_step db db'"
| step_put: "put ut now did vid attempt w db = Inr db' \<Longrightarrow> wf_step db db'"
| step_complete: "complete now did attempt key db = Inr (r, db') \<Longrightarrow> wf_step db db'"
| step_begin: "begin_postprocess ut now did vid attempt ws db = Inr (r, db') \<Longrightarrow> wf_step db db'"
| step_stage: "stage_index did attempt cs es rep db = Inr (r, db') \<Longrightarrow> wf_step db db'"
| step_fail: "wf_step db (update_status now did attempt PsFailed error db)"
| step_publish: "wf_step db (publish_empty now did attempt db)"
| step_delete_generation: "wf_step db (delete_generation did attempt db)"
| step_fail_job: "wf_step db (fail_job now did attempt key error db)"
| step_processing: "wf_step db (snd (try_set_processing now did db))"
| step_finalizing: "wf_step db (snd (set_finalizing now did n db))"
| step_delete: "wf_step db (set_parse_status now did PsDeleting error db)"
| step_cancel: "wf_step db (set_parse_status now did PsCancelled error db)"
| step_reparse: "mark_reparse_queued now did db = Inr (a, db') \<Longrightarrow> wf_step db db'"
| step_retry: "retry_document now did db = Inr (a, db') \<Longrightarrow> wf_step db db'"
| step_cancel_versions: "wf_step db (snd (cancel_active_docs_for_versions now vids db))"
| step_housekeep: "wf_step db (snd (housekeep_documents now secs db))"
| step_purge: "wf_step db (purge_document_index did db)"
| step_dispatch: "wf_step db (fst (dispatch enqueue prepare setting now db))"
| step_outside: "wf_step db (db\<lparr>k_versions := vs, k_pages := ps, k_spans := ss\<rparr>)"

lemma outside_inv: "workflow_inv db \<Longrightarrow> workflow_inv (db\<lparr>k_versions := vs, k_pages := ps, k_spans := ss\<rparr>)"
  and delete_generation_inv: "workflow_inv db \<Longrightarrow> workflow_inv (delete_generation did a db)"
  and purge_inv: "workflow_inv db \<Longrightarrow> workflow_inv (purge_document_index did db)"
  by (erule workflow_inv_cong [THEN iffD2, rotated -1]; simp)+

lemma wf_step_inv: "wf_step db db' \<Longrightarrow> workflow_inv db \<Longrightarrow> workflow_inv db'"
proof (induction rule: wf_step.induct)
  case (step_insert ut now nd db db')
  then show ?case by (blast intro: insert_document_inv)
next
  case (step_put ut now did vid attempt w db db')
  then show ?case by (blast intro: put_inv)
next
  case (step_complete now did attempt key db r db')
  then show ?case by (blast intro: complete_inv)
next
  case (step_begin ut now did vid attempt ws db r db')
  then show ?case by (blast intro: begin_postprocess_inv)
next
  case (step_stage did attempt cs es rep db r db')
  then show ?case by (blast intro: stage_index_inv)
next
  case (step_reparse now did db a db')
  then show ?case by (blast intro: mark_reparse_queued_inv)
next
  case (step_retry now did db a db')
  then show ?case unfolding retry_document_def by (blast intro: bump_document_attempt_inv)
qed (simp_all only: update_status_inv publish_empty_inv fail_job_inv try_set_processing_inv set_finalizing_inv
      set_parse_status_inv cancel_active_inv housekeep_inv dispatch_inv outside_inv delete_generation_inv purge_inv
      insert_iff empty_iff parse_status.distinct simp_thms)

interpretation wf: transition_invariant empty_kdb wf_step workflow_inv
  by unfold_locales
     (simp_all add: wf_step_inv, simp add: workflow_inv_def inv_keys_def inv_fk_def inv_docs_def inv_live_def
        inv_convert_def empty_kdb_def)

subsection \<open>Attempts and receipts only grow\<close>

definition grows :: "kdb \<Rightarrow> kdb \<Rightarrow> bool" where
  "grows db db' \<longleftrightarrow> set (k_receipts db) \<subseteq> set (k_receipts db')
     \<and> (\<forall>d\<in>set (k_documents db). \<exists>d'\<in>set (k_documents db'). doc_id d' = doc_id d \<and> doc_attempt d \<le> doc_attempt d')"

lemma grows_refl: "k_documents db' = k_documents db \<Longrightarrow> k_receipts db' = k_receipts db \<Longrightarrow> grows db db'"
  by (auto simp: grows_def)

lemma grows_trans [trans]: "grows db db1 \<Longrightarrow> grows db1 db2 \<Longrightarrow> grows db db2"
  unfolding grows_def by (metis order_trans)

lemma grows_update_documents:
  assumes "\<And>d. doc_id (f d) = doc_id d" and "\<And>d. d \<in> set (k_documents db) \<Longrightarrow> Q d \<Longrightarrow> doc_attempt d \<le> doc_attempt (f d)"
  shows "grows db (update_documents Q f db)"
  unfolding grows_def
proof (intro conjI ballI)
  fix d assume d: "d \<in> set (k_documents db)"
  let ?d = "if Q d then f d else d"
  have "?d \<in> set (k_documents (update_documents Q f db))" using d by (auto simp: set_update_rows)
  moreover have "doc_id ?d = doc_id d \<and> doc_attempt d \<le> doc_attempt ?d" using assms d by simp
  ultimately show "\<exists>d'\<in>set (k_documents (update_documents Q f db)). doc_id d' = doc_id d \<and> doc_attempt d \<le> doc_attempt d'"
    by blast
qed simp

lemma grows_change_document:
  assumes "\<And>d. doc_id (f d) = doc_id d" and "\<And>d. d \<in> set (k_documents db) \<Longrightarrow> doc_id d = did \<Longrightarrow> P d \<Longrightarrow> doc_attempt d \<le> doc_attempt (f d)"
  shows "grows db (change_document now did P f db)"
  unfolding change_document_def
  by (rule grows_trans [OF grows_update_documents grows_refl]) (simp_all add: assms)

lemma grows_fold:
  assumes "\<And>x db. grows db (f x db)"
  shows "grows db (fold f xs db)"
  by (induction xs arbitrary: db) (auto intro: grows_refl grows_trans assms)

lemma grows_complete_writes: "grows db (complete_writes now did attempt key db)"
proof -
  define db3 where "db3 = (if starts_with ''image:'' key
    then join_images now did attempt (update_outbox (outbox_at did attempt key)
      (\<lambda>w. w\<lparr>ob_state := ObComplete, ob_error := None\<rparr>) (db\<lparr>k_receipts := k_receipts db @ [(did, attempt, key)]\<rparr>))
    else update_outbox (outbox_at did attempt key)
      (\<lambda>w. w\<lparr>ob_state := ObComplete, ob_error := None\<rparr>) (db\<lparr>k_receipts := k_receipts db @ [(did, attempt, key)]\<rparr>))"
  have "grows db db3" by (auto simp: db3_def grows_def)
  also have "grows db3 (complete_writes now did attempt key db)"
    unfolding complete_writes_def Let_def db3_def [symmetric]
    by (intro grows_trans [OF grows_update_documents grows_update_documents]) (simp_all add: publish_generation_def)
  finally show ?thesis .
qed

lemma grows_record: "grows db db1 \<Longrightarrow> grows db (record_document_change now did before db1)"
  by (erule grows_trans) (simp add: grows_refl)

lemma grows_spans: "grows db db1 \<Longrightarrow> grows db (update_spans P f db1)"
  by (erule grows_trans) (simp add: grows_refl)

lemma grows_complete_tx: "complete_tx now did attempt key db = Inr (r, db') \<Longrightarrow> grows db db'"
  by (erule complete_tx_cases) (auto intro: grows_refl grows_record grows_complete_writes)

lemma grows_complete: "complete now did attempt key db = Inr (r, db') \<Longrightarrow> grows db db'"
  by (auto simp: complete_def grows_refl dest: grows_complete_tx split: if_splits)

lemma put_tx_sel:
  "put_tx ut now did vid attempt w db = Inr db' \<Longrightarrow> k_documents db' = k_documents db \<and> k_receipts db' = k_receipts db"
  by (erule put_tx_cases) simp_all

lemma put_all_sel:
  "put_all ut now did vid attempt ws db = Inr db' \<Longrightarrow> k_documents db' = k_documents db \<and> k_receipts db' = k_receipts db"
  by (induction ws arbitrary: db) (auto simp: result_simps dest!: put_tx_sel)

lemma grows_begin_postprocess:
  assumes "begin_postprocess ut now did vid attempt ws db = Inr (r, db')"
  shows "grows db db'"
proof (cases "db' = db")
  case False
  let ?f = "\<lambda>d. d\<lparr>doc_parse := PsFinalizing, doc_pending := int (length (filter work_derived ws)),
              doc_summary := (if Summary \<in> set ws then SsPending else SsNone), doc_updated := now\<rparr>"
  obtain db1 fresh db3 where steps: "put_all ut now did vid attempt ws db = Inr db1"
      "complete_tx now did attempt ''postprocess''
         (update_documents (\<lambda>d. doc_id d = did \<and> doc_attempt d = attempt) ?f db1) = Inr (fresh, db3)"
      "db' = record_document_change now did (capture_document_state db did) db3"
    using assms False by (auto simp: begin_postprocess_def Let_def result_simps split: if_splits)
  have "grows db db1" using put_all_sel [OF steps(1)] by (simp add: grows_refl)
  also have "grows db1 (update_documents (\<lambda>d. doc_id d = did \<and> doc_attempt d = attempt) ?f db1)"
    by (rule grows_update_documents) simp_all
  also have "grows \<dots> db3" using grows_complete_tx [OF steps(2)] .
  finally show ?thesis using steps(3) grows_record by simp
qed (simp add: grows_refl)

lemma grows_restart:
  assumes "inv_keys db" and "find (\<lambda>d. doc_id d = did \<and> restartable d) (k_documents db) = Some d"
    and "doc_attempt d \<le> attempt"
  shows "grows db (change_document now did restartable (restart_row attempt) db)"
  by (rule grows_change_document)
     (use unique_document [OF assms(1) restartable_found [OF assms(1,2)]] assms(3) in \<open>auto simp: restart_row_def\<close>)

lemma grows_fail_job: "grows db (fail_job now did attempt key error db)"
proof -
  let ?db1 = "update_outbox (\<lambda>w. outbox_at did attempt key w \<and> live w) (\<lambda>w. w\<lparr>ob_state := ObFailed, ob_error := Some error\<rparr>) db"
  let ?db2 = "update_documents (\<lambda>d. doc_id d = did \<and> doc_attempt d = attempt)
     (\<lambda>d. d\<lparr>doc_parse := PsFailed, doc_error := Some error,
            doc_summary := (if doc_summary d \<in> {SsPending, SsProcessing} then SsFailed else doc_summary d),
            doc_index_ready := False, doc_updated := now\<rparr>) ?db1"
  have "grows db ?db1" by (rule grows_refl) simp_all
  moreover have "grows ?db1 ?db2" by (rule grows_update_documents) simp_all
  ultimately have "grows db ?db1" "grows db ?db2" by (auto intro: grows_trans)
  then show ?thesis
    unfolding fail_job_def Let_def by (auto intro: grows_refl grows_record simp del: insert_iff)
qed

lemma grows_dispatch_row:
  assumes "dispatch_row enqueue prepare m now r db = Inr (db', js)"
  shows "grows db db'"
  using assms
  by (cases rule: dispatch_row_cases)
     (simp_all add: grows_fail_job grows_refl record_delivery_def Let_def)

lemma grows_dispatch_rows: "grows db (fst (dispatch_rows enqueue prepare m now rs db))"
proof (induction rs arbitrary: db)
  case (Cons r rs)
  show ?case
  proof (cases "dispatch_row enqueue prepare m now r db")
    case (Inr p)
    then show ?thesis
      using grows_trans [OF grows_dispatch_row Cons.IH, of enqueue prepare m now r db "fst p" "snd p"]
      by (auto split: prod.splits)
  qed (simp add: grows_refl)
qed (simp add: grows_refl)

lemma grows_recover_stale: "recover_stale now ids db = Inr db' \<Longrightarrow> grows db db'"
proof (induction ids arbitrary: db)
  case (Cons did ids)
  have "grows db (change_document now did (\<lambda>d. True) recovery_row db)"
    by (rule grows_change_document) (simp_all add: recovery_row_def restart_row_def)
  then show ?case
    using Cons grows_trans by (auto simp: result_simps split: option.splits)
qed (simp add: grows_refl)

lemma grows_dispatch: "grows db (fst (dispatch enqueue prepare setting now db))"
proof (cases "recover_stale now (stale_documents now db) db")
  case (Inr db1)
  then show ?thesis
    using grows_trans [OF grows_recover_stale grows_dispatch_rows] by (simp add: dispatch_def)
qed (simp add: dispatch_def grows_refl)

lemma wf_step_grows: "wf_step db db' \<Longrightarrow> workflow_inv db \<Longrightarrow> grows db db'"
proof (induction rule: wf_step.induct)
  case (step_insert ut now nd db db')
  then obtain db1 r db2 where "insert_document_row now nd ''file'' None db = Inr db1"
      "register_knowledge_document_object_in_tx db1 (nd_id nd) ''application/octet-stream''
         (''knowledge-document:'' @ ut (nd_id nd)) = Inr (r, db2)"
      "db' = record_document_change now (nd_id nd) None db2"
    by (auto simp: insert_document_def result_simps)
  then show ?case
    using register_object_sel by (fastforce simp: insert_document_row_def grows_def split: if_splits)
next
  case (step_put ut now did vid attempt w db db')
  then show ?case using put_tx_sel by (auto simp: put_def grows_refl split: if_splits)
next
  case (step_stage did attempt cs es rep db r db')
  then show ?case using stage_index_sel grows_refl by metis
next
  case (step_reparse now did db a db')
  then show ?case
    by (auto simp: mark_reparse_queued_def result_simps workflow_inv_def intro!: grows_restart split: if_splits)
next
  case (step_retry now did db a db')
  then show ?case
    by (auto simp: retry_document_def bump_document_attempt_def result_simps workflow_inv_def intro!: grows_restart)
next
  case (step_cancel_versions db now vids)
  then show ?case
    by (auto simp: cancel_active_docs_for_versions_def Let_def intro!: grows_fold grows_change_document)
next
  case (step_housekeep db now secs)
  have "grows db (fold (\<lambda>did. change_document now did (\<lambda>d. True)
      (\<lambda>d. d\<lparr>doc_parse := PsFailed, doc_error := Some (stuck_message secs), doc_pending := 0\<rparr>)) ids db)" for ids
    by (auto intro!: grows_fold grows_change_document)
  then show ?case
    by (simp add: housekeep_documents_def Let_def grows_spans grows_refl del: insert_iff)
qed (auto simp: grows_complete grows_begin_postprocess grows_fail_job grows_dispatch grows_refl update_status_def
      publish_empty_def publish_generation_def try_set_processing_def set_finalizing_def set_parse_status_def
      intro!: grows_change_document)

lemma wf_steps_grow: "wf_step\<^sup>*\<^sup>* db db' \<Longrightarrow> workflow_inv db \<Longrightarrow> grows db db'"
proof (induction rule: rtranclp_induct)
  case (step y z)
  then show ?case using wf.inv_steps wf_step_grows grows_trans by metis
qed (simp add: grows_refl)

lemma stale_not_current:
  assumes inv: "workflow_inv db" and run: "wf_step\<^sup>*\<^sup>* db db'" and d: "d \<in> set (k_documents db)" "attempt < doc_attempt d"
  shows "\<not> lock_current db' (doc_id d) attempt"
proof
  assume "lock_current db' (doc_id d) attempt"
  moreover have inv': "workflow_inv db'" using wf.inv_steps [OF run inv] .
  ultimately obtain e where e: "find_document db' (doc_id d) = Some e" "doc_attempt e = attempt"
    using lock_current_cases [of db'] by (metis workflow_inv_def current_row_def)
  obtain d' where d': "d' \<in> set (k_documents db')" "doc_id d' = doc_id d" "doc_attempt d \<le> doc_attempt d'"
    using wf_steps_grow [OF run inv] d(1) by (auto simp: grows_def)
  have "d' = e" using unique_document [OF _ e(1) d'(1,2)] inv' by (simp add: workflow_inv_def)
  then show False using d'(3) d(2) e(2) by simp
qed

lemma count_list_distinct: "distinct xs \<Longrightarrow> x \<in> set xs \<Longrightarrow> count_list xs x = 1"
  by (induction xs) (auto simp: count_list_0_iff)

subsection \<open>A concrete run\<close>

text \<open>A version appears, a document is inserted into it, processed and retried once.\<close>

definition demo_new :: new_document where
  "demo_new = \<lparr>nd_id = 7, nd_version = 3, nd_title = ''t'', nd_file_name = ''f'', nd_file_size = 3,
     nd_file_hash = demo_digest, nd_object_ref = object_ref demo_digest\<rparr>"

definition demo_versions :: kdb where
  "demo_versions = empty_kdb\<lparr>k_versions := [\<lparr>ver_id = 3, ver_status = VsActive, ver_deleted = None\<rparr>], k_pages := [], k_spans := []\<rparr>"

definition demo_inserted :: kdb where
  "demo_inserted = projr (insert_document (\<lambda>_. []) 0 demo_new demo_versions)"

definition demo_row :: document_row where
  "demo_row = \<lparr>doc_id = 7, doc_version = 3, doc_kind = ''file'', doc_title = ''t'', doc_file_name = ''f'',
     doc_byte_length = 3, doc_sha256 = demo_digest, doc_object_ref = object_ref demo_digest, doc_parse = PsPending,
     doc_pending = 0, doc_summary = SsNone, doc_enable = EsDisabled, doc_index_ready = False, doc_description = '''',
     doc_attempt = 1, doc_active = 1, doc_passages = None, doc_error = None, doc_updated = 0, doc_deleted = None\<rparr>"

definition demo_completed :: kdb where
  "demo_completed = snd (projr (complete 4 7 1 ''convert'' demo_inserted))"

definition demo_retried :: kdb where
  "demo_retried = snd (projr (retry_document 5 7 demo_completed))"

lemma demo_inserted_tables:
  "insert_document (\<lambda>_. []) 0 demo_new demo_versions = Inr demo_inserted"
  "k_documents demo_inserted = [demo_row]"
  "k_outbox demo_inserted = [new_outbox 0 7 3 1 ''convert'' (Convert [] False) False]"
  "k_receipts demo_inserted = []"
proof -
  have "is_sha256 demo_digest" "is_media_type ''application/octet-stream''"
    "reference_columns_ok ''knowledge_document'' ''original''" by code_simp+
  then have "\<exists>db. insert_document (\<lambda>_. []) 0 demo_new demo_versions = Inr db \<and> k_documents db = [demo_row]
    \<and> k_outbox db = [new_outbox 0 7 3 1 ''convert'' (Convert [] False) False] \<and> k_receipts db = []"
    by (simp add: insert_document_def insert_document_row_def demo_new_def demo_versions_def document_kind_ok_def
      find_document_def empty_kdb_def find_duplicate_document_def exists_row_def
      register_knowledge_document_object_in_tx_def add_object_reference_def insert_object_def object_columns_ok_def
      insert_reference_def empty_registry_def lock_object_def check_object_def new_object_def
      record_document_change_def Let_def terminal_status_def document_state_of_def convert_work_def demo_row_def
      insert_outbox_def owns_original_def)
  then show "insert_document (\<lambda>_. []) 0 demo_new demo_versions = Inr demo_inserted"
  "k_documents demo_inserted = [demo_row]"
  "k_outbox demo_inserted = [new_outbox 0 7 3 1 ''convert'' (Convert [] False) False]"
  "k_receipts demo_inserted = []"
    by (auto simp: demo_inserted_def)
qed

lemma demo_completed_tables:
  "complete 4 7 1 ''convert'' demo_inserted = Inr (True, demo_completed)"
  "k_documents demo_completed = [demo_row\<lparr>doc_updated := 4\<rparr>]"
  "k_outbox demo_completed = [(new_outbox 0 7 3 1 ''convert'' (Convert [] False) False)\<lparr>ob_state := ObComplete\<rparr>]"
  "k_receipts demo_completed = [(7, 1, ''convert'')]"
proof -
  have "\<exists>db. complete 4 7 1 ''convert'' demo_inserted = Inr (True, db) \<and> k_documents db = [demo_row\<lparr>doc_updated := 4\<rparr>]
    \<and> k_outbox db = [(new_outbox 0 7 3 1 ''convert'' (Convert [] False) False)\<lparr>ob_state := ObComplete\<rparr>]
    \<and> k_receipts db = [(7, 1, ''convert'')]"
    using demo_inserted_tables(2-4)
    by (simp add: complete_def lock_current_def complete_tx_def complete_writes_def Let_def find_document_def
      demo_row_def current_row_def in_progress_def starts_with_def update_outbox_def update_documents_def
      update_rows_def outbox_at_def new_outbox_def open_derived_def record_document_change_def
      capture_document_state_def document_state_of_def terminal_status_def)
  then show "complete 4 7 1 ''convert'' demo_inserted = Inr (True, demo_completed)"
    "k_documents demo_completed = [demo_row\<lparr>doc_updated := 4\<rparr>]"
    "k_outbox demo_completed = [(new_outbox 0 7 3 1 ''convert'' (Convert [] False) False)\<lparr>ob_state := ObComplete\<rparr>]"
    "k_receipts demo_completed = [(7, 1, ''convert'')]"
    by (auto simp: demo_completed_def)
qed

lemma demo_retried_documents:
  "retry_document 5 7 demo_completed = Inr (2, demo_retried)"
  "k_documents demo_retried = [(restart_row 2 demo_row)\<lparr>doc_updated := 5\<rparr>]"
proof -
  have "\<exists>db. retry_document 5 7 demo_completed = Inr (2, db) \<and> k_documents db = [(restart_row 2 demo_row)\<lparr>doc_updated := 5\<rparr>]"
    using demo_completed_tables(2)
    by (simp add: retry_document_def bump_document_attempt_def demo_row_def restartable_def next_attempt_def
      change_document_def update_rows_def restart_row_def)
  then show "retry_document 5 7 demo_completed = Inr (2, demo_retried)"
    "k_documents demo_retried = [(restart_row 2 demo_row)\<lparr>doc_updated := 5\<rparr>]"
    by (auto simp: demo_retried_def)
qed

lemma demo_run:
  "wf_step\<^sup>*\<^sup>* empty_kdb demo_inserted" "wf_step\<^sup>*\<^sup>* empty_kdb demo_completed" "wf_step\<^sup>*\<^sup>* empty_kdb demo_retried"
proof -
  have 0: "wf_step empty_kdb demo_versions" unfolding demo_versions_def by (rule wf_step.step_outside)
  have 1: "wf_step demo_versions demo_inserted" by (rule wf_step.step_insert [OF demo_inserted_tables(1)])
  have 2: "wf_step demo_inserted demo_completed" by (rule wf_step.step_complete [OF demo_completed_tables(1)])
  have 3: "wf_step demo_completed demo_retried" by (rule wf_step.step_retry [OF demo_retried_documents(1)])
  show "wf_step\<^sup>*\<^sup>* empty_kdb demo_inserted" using 0 1 by (meson converse_rtranclp_into_rtranclp r_into_rtranclp)
  then show "wf_step\<^sup>*\<^sup>* empty_kdb demo_completed" using 2 by (rule rtranclp.rtrancl_into_rtrancl)
  then show "wf_step\<^sup>*\<^sup>* empty_kdb demo_retried" using 3 by (rule rtranclp.rtrancl_into_rtrancl)
qed

text \<open>A document in finalization whose last derived job is being completed.\<close>

definition demo_processing :: kdb where
  "demo_processing = snd (try_set_processing 3 7 demo_inserted)"

definition demo_finalizing :: kdb where
  "demo_finalizing = snd (projr (begin_postprocess (\<lambda>_. []) 4 7 3 1 [Wiki] demo_processing))"

definition demo_published_generation :: kdb where
  "demo_published_generation = snd (projr (complete 5 7 1 ''wiki'' demo_finalizing))"

lemmas workflow_eval_defs =
  complete_def lock_current_def complete_tx_def complete_writes_def Let_def find_document_def
  demo_row_def current_row_def in_progress_def starts_with_def update_outbox_def update_documents_def
  update_rows_def outbox_at_def new_outbox_def open_derived_def record_document_change_def
  capture_document_state_def document_state_of_def terminal_status_def try_set_processing_def change_document_def
  begin_postprocess_def put_tx_def exists_row_def insert_outbox_def upsert_reconcile_def no_error_def publish_generation_def

lemma demo_processing_tables:
  "k_documents demo_processing = [demo_row\<lparr>doc_parse := PsProcessing, doc_error := Some '''', doc_updated := 3\<rparr>]"
  "k_outbox demo_processing = [new_outbox 0 7 3 1 ''convert'' (Convert [] False) False, new_outbox 3 7 3 1 ''reconcile'' Reconcile False]"
  "k_receipts demo_processing = []"
  using demo_inserted_tables(2-4) by (simp_all add: demo_processing_def workflow_eval_defs)

lemma demo_finalizing_tables:
  "begin_postprocess (\<lambda>_. []) 4 7 3 1 [Wiki] demo_processing = Inr (True, demo_finalizing)"
  "k_documents demo_finalizing = [demo_row\<lparr>doc_parse := PsFinalizing, doc_pending := 1, doc_error := Some '''', doc_updated := 4\<rparr>]"
  "k_receipts demo_finalizing = [(7, 1, ''postprocess'')]"
  "k_outbox demo_finalizing = [new_outbox 0 7 3 1 ''convert'' (Convert [] False) False,
     (new_outbox 4 7 3 1 ''reconcile'' Reconcile False)\<lparr>ob_revision := 2\<rparr>, new_outbox 4 7 3 1 ''wiki'' Wiki True]"
proof -
  have "\<exists>db. begin_postprocess (\<lambda>_. []) 4 7 3 1 [Wiki] demo_processing = Inr (True, db)
    \<and> k_documents db = [demo_row\<lparr>doc_parse := PsFinalizing, doc_pending := 1, doc_error := Some '''', doc_updated := 4\<rparr>]
    \<and> k_receipts db = [(7, 1, ''postprocess'')] \<and> k_outbox db = [new_outbox 0 7 3 1 ''convert'' (Convert [] False) False,
     (new_outbox 4 7 3 1 ''reconcile'' Reconcile False)\<lparr>ob_revision := 2\<rparr>, new_outbox 4 7 3 1 ''wiki'' Wiki True]"
    using demo_processing_tables by (simp add: workflow_eval_defs)
  then show "begin_postprocess (\<lambda>_. []) 4 7 3 1 [Wiki] demo_processing = Inr (True, demo_finalizing)"
  "k_documents demo_finalizing = [demo_row\<lparr>doc_parse := PsFinalizing, doc_pending := 1, doc_error := Some '''', doc_updated := 4\<rparr>]"
  "k_receipts demo_finalizing = [(7, 1, ''postprocess'')]"
  "k_outbox demo_finalizing = [new_outbox 0 7 3 1 ''convert'' (Convert [] False) False,
     (new_outbox 4 7 3 1 ''reconcile'' Reconcile False)\<lparr>ob_revision := 2\<rparr>, new_outbox 4 7 3 1 ''wiki'' Wiki True]"
    by (auto simp: demo_finalizing_def)
qed

lemma demo_published_documents:
  "complete 5 7 1 ''wiki'' demo_finalizing = Inr (True, demo_published_generation)"
  "k_documents demo_published_generation = [demo_row\<lparr>doc_parse := PsCompleted, doc_enable := EsEnabled,
     doc_index_ready := True, doc_error := Some [], doc_updated := 5\<rparr>]"
proof -
  have "\<exists>db. complete 5 7 1 ''wiki'' demo_finalizing = Inr (True, db)
    \<and> k_documents db = [demo_row\<lparr>doc_parse := PsCompleted, doc_enable := EsEnabled,
     doc_index_ready := True, doc_error := Some [], doc_updated := 5\<rparr>]"
    using demo_finalizing_tables(2-4) by (simp add: workflow_eval_defs)
  then show "complete 5 7 1 ''wiki'' demo_finalizing = Inr (True, demo_published_generation)"
  "k_documents demo_published_generation = [demo_row\<lparr>doc_parse := PsCompleted, doc_enable := EsEnabled,
     doc_index_ready := True, doc_error := Some [], doc_updated := 5\<rparr>]"
    by (auto simp: demo_published_generation_def)
qed

lemma demo_finalizing_run: "wf_step\<^sup>*\<^sup>* empty_kdb demo_finalizing"
proof -
  have "wf_step demo_inserted demo_processing" unfolding demo_processing_def by (rule wf_step.step_processing)
  moreover have "wf_step demo_processing demo_finalizing" by (rule wf_step.step_begin [OF demo_finalizing_tables(1)])
  ultimately show ?thesis using demo_run(1) by (meson rtranclp.rtrancl_into_rtrancl)
qed

subsection \<open>Properties\<close>



text \<open>
  C2: a generation that has been superseded can never write again.  Once a document has moved past
  an attempt, in every later state a worker of that attempt is turned away: adding work, completing a
  job, starting post-processing and staging chunks leave the database as it is, and so do
  publishing and failing the attempt for the document rows.
\<close>

theorem stale_generation_fenced:
  assumes "wf_step\<^sup>*\<^sup>* empty_kdb db" and "d \<in> set (k_documents db)" and "attempt < doc_attempt d"
    and "wf_step\<^sup>*\<^sup>* db db'"
  shows "put ut now (doc_id d) vid attempt w db' = Inr db'
    \<and> complete now (doc_id d) attempt key db' = Inr (False, db')
    \<and> begin_postprocess ut now (doc_id d) vid attempt ws db' = Inr (False, db')
    \<and> stage_index (doc_id d) attempt cs es rep db' = Inr (False, db')
    \<and> k_documents (publish_empty now (doc_id d) attempt db') = k_documents db'
    \<and> k_documents (update_status now (doc_id d) attempt status error db') = k_documents db'
    \<and> fail_job now (doc_id d) attempt key error db' = db'"
proof -
  have inv: "workflow_inv db" using wf.inv_reachable [OF assms(1)] .
  have inv': "workflow_inv db'" using wf.inv_steps [OF assms(4) inv] .
  have newer: "attempt < doc_attempt e" if e: "e \<in> set (k_documents db')" "doc_id e = doc_id d" for e
  proof -
    obtain d' where d': "d' \<in> set (k_documents db')" "doc_id d' = doc_id d" "doc_attempt d \<le> doc_attempt d'"
      using wf_steps_grow [OF assms(4) inv] assms(2) by (auto simp: grows_def)
    have "find_document db' (doc_id d) = Some d'"
      using find_document_in [OF _ d'(1)] inv' d'(2) by (simp add: workflow_inv_def inv_keys_def)
    then have "e = d'" using unique_document e inv' by (metis workflow_inv_def)
    then show ?thesis using d'(3) assms(3) by simp
  qed
  have same: "update_rows (\<lambda>e. doc_id e = doc_id d \<and> doc_attempt e = attempt \<and> R e) f (k_documents db') = k_documents db'" for R f
  proof -
    have "\<not> (doc_id e = doc_id d \<and> doc_attempt e = attempt \<and> R e)" if "e \<in> set (k_documents db')" for e
      using newer [of e] that by auto
    then show ?thesis by (auto simp: update_rows_def intro!: map_idI)
  qed
  have "find (\<lambda>e. doc_id e = doc_id d \<and> doc_attempt e = attempt \<and> R e) (k_documents db') = None" for R
    using newer by (fastforce simp: find_None_iff)
  then show ?thesis
    using stale_not_current [OF inv assms(4) assms(2,3)] same
    by (simp add: put_def complete_def begin_postprocess_def stage_index_def publish_empty_def update_status_def
      change_document_def fail_job_def Let_def conj_assoc)
qed

theorem stale_generation_fenced_witness:
  "complete 9 7 1 ''summary'' demo_retried = Inr (False, demo_retried)
   \<and> stage_index 7 1 [] [] True demo_retried = Inr (False, demo_retried)"
  using stale_generation_fenced [OF demo_run(3), of "(restart_row 2 demo_row)\<lparr>doc_updated := 5\<rparr>" 1 demo_retried]
    demo_retried_documents(2)
  by (simp add: demo_row_def restart_row_def)

text \<open>
  C3: a job is completed at most once.  When a completion is accepted, its receipt is recorded
  exactly once, and whatever happens afterwards every further delivery of the same job is answered
  with \<open>False\<close> and changes nothing.
\<close>

theorem receipt_exactly_once:
  assumes "wf_step\<^sup>*\<^sup>* empty_kdb db" and "complete now did attempt key db = Inr (True, db1)" and "wf_step\<^sup>*\<^sup>* db1 db2"
  shows "count_list (k_receipts db2) (did, attempt, key) = 1
    \<and> complete now' did attempt key db2 = Inr (False, db2)
    \<and> \<not> pending db2 did attempt key"
proof -
  have inv: "workflow_inv db" using wf.inv_reachable [OF assms(1)] .
  then have inv1: "workflow_inv db1" using complete_inv assms(2) by blast
  have inv2: "workflow_inv db2" using wf.inv_steps [OF assms(3) inv1] .
  have "(did, attempt, key) \<in> set (k_receipts db1)"
    using assms(2)
    by (auto simp: complete_def complete_writes_def Let_def split: if_splits elim!: complete_tx_cases)
  then have mem: "(did, attempt, key) \<in> set (k_receipts db2)"
    using wf_steps_grow [OF assms(3) inv1] by (auto simp: grows_def)
  then have "count_list (k_receipts db2) (did, attempt, key) = 1"
    using inv2 by (intro count_list_distinct) (simp_all add: workflow_inv_def inv_keys_def)
  then show ?thesis using mem by (simp add: pending_def complete_def complete_tx_def Let_def)
qed

theorem receipt_exactly_once_witness:
  "count_list (k_receipts demo_completed) (7, 1, ''convert'') = 1
   \<and> complete 8 7 1 ''convert'' demo_completed = Inr (False, demo_completed)"
  using receipt_exactly_once [OF demo_run(1) demo_completed_tables(1), of demo_completed] by simp

definition derived_settled :: "uuid \<Rightarrow> int \<Rightarrow> kdb \<Rightarrow> bool" where
  "derived_settled did attempt db \<longleftrightarrow> (\<forall>w\<in>set (k_outbox db). ob_doc w = did \<and> ob_attempt w = attempt \<and> ob_derived w
     \<and> ob_key w \<noteq> ''reconcile'' \<longrightarrow> ob_state w = ObComplete)"

lemma derived_settled_insert:
  "derived_settled did attempt db \<Longrightarrow> \<not> ob_derived w \<Longrightarrow> derived_settled did attempt (insert_outbox w db)"
  using set_insert_outbox_subset [of w db] by (auto simp: derived_settled_def)

lemma derived_settled_record:
  "derived_settled did attempt db \<Longrightarrow> derived_settled did attempt (record_document_change now did' before db)"
proof (rule record_preserves)
  fix db d assume "derived_settled did attempt db"
  then show "derived_settled did attempt (upsert_reconcile now d db)"
    by (auto simp: upsert_reconcile_def derived_settled_insert new_outbox_def)
       (auto simp: derived_settled_def set_update_rows outbox_at_def)
next
  fix db a t assume "derived_settled did attempt db"
  then show "derived_settled did attempt (complete_superseded did' a t db)"
    by (auto simp: derived_settled_def complete_superseded_def set_update_rows)
qed (simp_all add: derived_settled_insert new_outbox_def, simp_all add: derived_settled_def)

lemma no_error_update [simp]:
  "no_error (d\<lparr>doc_pending := n\<rparr>) = no_error d" "no_error (d\<lparr>doc_updated := t\<rparr>) = no_error d"
  by (simp_all add: no_error_def)

lemma fresh_convert_recorded:
  assumes found: "find_document db did = Some d" and fresh: "(did, doc_attempt d, ''convert'') \<notin> ob_ident ` set (k_outbox db)"
    and "doc_parse d = PsPending" and "st_attempt b \<noteq> doc_attempt d"
    and "row = new_outbox now did (doc_version d) (doc_attempt d) ''convert'' (convert_work d) False"
  shows "row \<in> set (k_outbox (record_document_change now did (Some b) db))"
proof -
  define db1 where "db1 = (if st_source b \<noteq> st_source (document_state_of d) then upsert_reconcile now d db else db)"
  define db2 where "db2 = complete_superseded did (doc_attempt d) False db1"
  have "ob_ident ` set (k_outbox db1) \<subseteq> insert (did, doc_attempt d, ''reconcile'') (ob_ident ` set (k_outbox db))"
    using doc_id_find [OF found]
    by (auto simp: db1_def upsert_reconcile_def ob_ident_insert_outbox idents_update_outbox simp del: update_outbox_sel)
  then have "(did, doc_attempt d, ''convert'') \<notin> ob_ident ` set (k_outbox db2)"
    using fresh unfolding db2_def ident_complete_superseded by blast
  then have "row \<in> set (k_outbox (insert_outbox row db2))"
    using assms(5) exists_outbox_ident [of did "doc_attempt d" "''convert''" "k_outbox db2"]
    by (simp add: insert_outbox_def new_outbox_def)
  moreover have "k_outbox (record_document_change now did (Some b) db) = k_outbox (insert_outbox row db2)"
    unfolding record_document_change_stages [OF found]
    using assms(3-5) by (simp add: Let_def db1_def db2_def terminal_status_def)
  ultimately show ?thesis by simp
qed

lemma kept_by_record:
  assumes found: "find_document db did = Some d" and w: "w \<in> set (k_outbox db)" and "ob_key w \<noteq> ''reconcile''"
    and "before = Some b" and "st_attempt b = doc_attempt d" and "\<not> terminal_status (doc_parse d)"
  shows "w \<in> set (k_outbox (record_document_change now did before db))"
proof -
  have "w \<in> set (k_outbox (upsert_reconcile now d db))"
    using w assms(3) set_insert_outbox_mono
    by (fastforce simp: upsert_reconcile_def set_update_rows outbox_at_def)
  then show ?thesis
    unfolding record_document_change_stages [OF found] using assms by (simp add: Let_def)
qed

lemma delete_chunks_keeps:
  assumes "c \<in> set (k_chunks db)" and "\<not> P c"
  shows "\<exists>c'\<in>set (k_chunks (delete_chunks P db)). ck_id c' = ck_id c \<and> ck_content c' = ck_content c
    \<and> ck_doc c' = ck_doc c \<and> ck_generation c' = ck_generation c"
proof -
  have "c \<in> set (delete_rows P (k_chunks db))" using assms by (simp add: set_delete_rows)
  then show ?thesis unfolding delete_chunks_def Let_def
    by (auto split: option.splits intro!: bexI [of _ c])
qed

text \<open>
  C4: completing a job publishes the document only when nothing is outstanding.  If an accepted
  completion turns a document completed, every derived job of the attempt is complete, the summary is
  neither outstanding nor failed, no error is recorded, and readers are switched to this attempt.
\<close>

theorem completion_publishes_only_finished:
  assumes "wf_step\<^sup>*\<^sup>* empty_kdb db" and "complete now did attempt key db = Inr (True, db')"
    and "d' \<in> set (k_documents db')" and "doc_id d' = did" and "doc_parse d' = PsCompleted"
  shows "(\<forall>w\<in>set (k_outbox db'). ob_doc w = did \<and> ob_attempt w = attempt \<and> ob_derived w
        \<and> ob_key w \<noteq> ''reconcile'' \<longrightarrow> ob_state w = ObComplete)
    \<and> doc_summary d' \<notin> {SsPending, SsProcessing, SsFailed} \<and> no_error d'
    \<and> doc_attempt d' = attempt \<and> doc_active d' = attempt \<and> doc_pending d' = 0"
proof -
  have inv: "workflow_inv db" using wf.inv_reachable [OF assms(1)] .
  have lock: "lock_current db did attempt" and tx: "complete_tx now did attempt key db = Inr (True, db')"
    using assms(2) by (auto simp: complete_def split: if_splits)
  obtain d where d: "find_document db did = Some d" "current_row attempt d"
    using lock inv lock_current_cases by (metis workflow_inv_def)
  define db2 where "db2 = update_outbox (outbox_at did attempt key) (\<lambda>w. w\<lparr>ob_state := ObComplete, ob_error := None\<rparr>)
      (db\<lparr>k_receipts := k_receipts db @ [(did, attempt, key)]\<rparr>)"
  define db3 where "db3 = (if starts_with ''image:'' key then join_images now did attempt db2 else db2)"
  have db': "db' = record_document_change now did (Some (document_state_of d)) (complete_writes now did attempt key db)"
    using tx d(1) by (cases rule: complete_tx_cases) auto
  have find3: "find_document db3 did = Some d"
    using d(1) by (simp add: db3_def db2_def find_document_def)
  have found: "find_document db' did = Some d'"
    using complete_inv [OF inv assms(2)] find_document_in [OF _ assms(3)] assms(4) by (simp add: workflow_inv_def inv_keys_def)
  let ?d4 = "d\<lparr>doc_pending := int (open_derived db3 did attempt), doc_updated := now\<rparr>"
  let ?ok = "\<lambda>d. doc_parse d = PsFinalizing \<and> doc_pending d = 0 \<and> doc_summary d \<notin> {SsPending, SsProcessing, SsFailed} \<and> no_error d"
  have "find_document db' did = find_document (complete_writes now did attempt key db) did"
    unfolding db' by (simp add: find_document_def)
  also have "\<dots> = Some (if ?ok ?d4 then (publish_generation attempt ?d4)\<lparr>doc_updated := now\<rparr> else ?d4)"
    unfolding complete_writes_def Let_def db2_def [symmetric] db3_def [symmetric]
    using find3 d doc_id_find [OF d(1)]
    by (simp add: find_document_update publish_generation_def current_row_def)
  finally have d': "d' = (if ?ok ?d4 then (publish_generation attempt ?d4)\<lparr>doc_updated := now\<rparr> else ?d4)"
    using found by simp
  have ok: "?ok ?d4"
    using d' assms(5) d(2) by (auto simp: current_row_def in_progress_def split: if_splits)
  then have "open_derived db3 did attempt = 0" by simp
  then have "derived_settled did attempt db3"
    by (auto simp: open_derived_def filter_empty_conv derived_settled_def)
  moreover have "k_outbox (complete_writes now did attempt key db) = k_outbox db3"
    unfolding complete_writes_def Let_def db2_def [symmetric] db3_def [symmetric] by simp
  ultimately have "derived_settled did attempt db'"
    unfolding db' by (intro derived_settled_record) (simp add: derived_settled_def)
  then show ?thesis
    using ok d' d(2) unfolding derived_settled_def by (auto simp: publish_generation_def current_row_def no_error_def)
qed

theorem completion_publishes_only_finished_witness:
  "\<exists>d'\<in>set (k_documents demo_published_generation). doc_parse d' = PsCompleted \<and> doc_active d' = 1 \<and> doc_pending d' = 0
     \<and> (\<forall>w\<in>set (k_outbox demo_published_generation). ob_doc w = 7 \<and> ob_attempt w = 1 \<and> ob_derived w
          \<and> ob_key w \<noteq> ''reconcile'' \<longrightarrow> ob_state w = ObComplete)"
  using completion_publishes_only_finished [OF demo_finalizing_run demo_published_documents(1),
    of "demo_row\<lparr>doc_parse := PsCompleted, doc_enable := EsEnabled, doc_index_ready := True, doc_error := Some [], doc_updated := 5\<rparr>"]
    demo_published_documents(2)
  by (simp add: demo_row_def)

text \<open>
  C9: retrying a document opens a fresh generation: the attempt is the old one plus one, its
  conversion job is pending and undelivered, no job of an older attempt is still owed, the
  document is hidden from readers until it is published again, and the generation readers would see is
  kept.
\<close>

theorem retry_opens_fresh_generation:
  assumes "wf_step\<^sup>*\<^sup>* empty_kdb db" and "d \<in> set (k_documents db)" and "retry_document now (doc_id d) db = Inr (a, db')"
  shows "a = doc_attempt d + 1
    \<and> (\<exists>d'\<in>set (k_documents db'). doc_id d' = doc_id d \<and> doc_attempt d' = a \<and> doc_parse d' = PsPending
          \<and> doc_enable d' = EsDisabled \<and> \<not> doc_index_ready d' \<and> doc_active d' = doc_active d)
    \<and> new_outbox now (doc_id d) (doc_version d) a ''convert'' (convert_work d) False \<in> set (k_outbox db')
    \<and> (\<forall>w\<in>set (k_outbox db'). owed w \<and> ob_doc w = doc_id d \<longrightarrow> ob_attempt w = a)"
proof -
  have inv: "workflow_inv db" using wf.inv_reachable [OF assms(1)] .
  then have keys: "inv_keys db" by (simp add: workflow_inv_def)
  obtain e where e: "find (\<lambda>d'. doc_id d' = doc_id d \<and> restartable d') (k_documents db) = Some e"
      "a = doc_attempt e + 1" "db' = change_document now (doc_id d) restartable (restart_row a) db"
    using assms(3) by (auto simp: retry_document_def bump_document_attempt_def result_simps)
  have "find_document db (doc_id d) = Some d"
    using find_document_in [OF _ assms(2)] keys by (simp add: inv_keys_def)
  then have ed: "e = d" "restartable d" "find_document db (doc_id d) = Some d"
    using restartable_found [OF keys e(1)] find_Some_in_set [OF e(1)] by auto
  let ?d = "(restart_row a d)\<lparr>doc_updated := now\<rparr>"
  let ?mid = "update_documents (\<lambda>d'. doc_id d' = doc_id d \<and> restartable d') (\<lambda>d. (restart_row a d)\<lparr>doc_updated := now\<rparr>) db"
  have found: "find_document ?mid (doc_id d) = Some ?d"
    using ed by (simp add: find_document_update restart_row_def)
  have db': "db' = record_document_change now (doc_id d) (Some (document_state_of d)) ?mid"
    using e(3) ed(3) by (simp add: change_document_def capture_document_state_def)
  have inv': "workflow_inv db'"
    using bump_document_attempt_inv [OF inv] assms(3) by (simp add: retry_document_def)
  have find': "find_document db' (doc_id d) = Some ?d" using found unfolding db' by (simp add: find_document_def)
  have "?d \<in> set (k_documents db')" using find_document_Some [OF find'] by simp
  moreover have "\<forall>w\<in>set (k_outbox db'). owed w \<and> ob_doc w = doc_id d \<longrightarrow> ob_attempt w = a"
  proof (intro ballI impI)
    fix w assume w: "w \<in> set (k_outbox db')" "owed w \<and> ob_doc w = doc_id d"
    then obtain d2 where d2: "d2 \<in> set (k_documents db')" "doc_id d2 = doc_id d" "doc_attempt d2 = ob_attempt w"
      using inv' unfolding workflow_inv_def inv_live_def live_ok_def by metis
    then have "d2 = ?d" using unique_document [OF _ find'] inv' by (simp add: workflow_inv_def)
    then show "ob_attempt w = a" using d2 by (simp add: restart_row_def)
  qed
  moreover have "new_outbox now (doc_id d) (doc_version d) a ''convert'' (convert_work d) False \<in> set (k_outbox db')"
  proof -
    have "ob_attempt w < a" if w: "w \<in> set (k_outbox db)" "ob_doc w = doc_id d" for w
    proof -
      obtain d2 where "d2 \<in> set (k_documents db)" "doc_id d2 = doc_id d" "ob_attempt w \<le> doc_attempt d2"
        using inv w unfolding workflow_inv_def inv_fk_def owned_by_def by metis
      then show ?thesis using unique_document [OF keys ed(3)] e(2) ed(1) by fastforce
    qed
    then have "\<forall>w\<in>set (k_outbox db). ob_doc w = doc_id d \<longrightarrow> ob_attempt w \<noteq> a" by fastforce
    then have fresh: "(doc_id d, a, ''convert'') \<notin> ob_ident ` set (k_outbox ?mid)"
      by (auto simp: ob_ident_def)
    show ?thesis unfolding db' by (rule fresh_convert_recorded [OF found])
       (use e ed fresh in \<open>simp_all add: restart_row_def document_state_of_def convert_work_def\<close>)
  qed
  moreover have "doc_id ?d = doc_id d \<and> doc_attempt ?d = a \<and> doc_parse ?d = PsPending \<and> doc_enable ?d = EsDisabled
      \<and> \<not> doc_index_ready ?d \<and> doc_active ?d = doc_active d" by (simp add: restart_row_def)
  ultimately show ?thesis using e(2) ed(1) by blast
qed

theorem retry_opens_fresh_generation_witness:
  "\<exists>d'\<in>set (k_documents demo_retried). doc_attempt d' = 2 \<and> doc_active d' = 1 \<and> doc_parse d' = PsPending"
  using retry_opens_fresh_generation [OF demo_run(2), of "demo_row\<lparr>doc_updated := 4\<rparr>" 5 2 demo_retried]
    demo_completed_tables(2) demo_retried_documents(1)
  by (auto simp: demo_row_def)

text \<open>
  C27: deleting a generation never touches what readers see.  A delete request for any attempt
  leaves every chunk of the published generation of a document that is not being deleted in
  place, with its content, and with its embedding.
\<close>

theorem published_generation_survives_delete:
  assumes "find_document db did = Some d" and "doc_parse d \<notin> {PsDeleting, PsDeleted}"
    and "c \<in> set (k_chunks db)" and "ck_doc c = did" and "ck_generation c = doc_active d"
    and "distinct (map ck_id (k_chunks db))"
  shows "(\<exists>c'\<in>set (k_chunks (delete_generation did attempt db)). ck_id c' = ck_id c \<and> ck_content c' = ck_content c
        \<and> ck_doc c' = did \<and> ck_generation c' = doc_active d)
    \<and> (\<forall>e\<in>set (k_embeddings db). em_chunk e = ck_id c \<longrightarrow> e \<in> set (k_embeddings (delete_generation did attempt db)))"
proof (cases "attempt < doc_attempt d \<and> attempt \<noteq> doc_active d")
  case True
  let ?gone = "\<lambda>c. ck_doc c = did \<and> ck_generation c = attempt \<and> ck_type c \<noteq> ''wiki_page''"
  have keep: "\<not> ?gone c" using True assms(5) by simp
  have "\<exists>c'\<in>set (k_chunks (delete_chunks ?gone db)). ck_id c' = ck_id c \<and> ck_content c' = ck_content c
      \<and> ck_doc c' = did \<and> ck_generation c' = doc_active d"
    using delete_chunks_keeps [of c db ?gone] assms(3-5) keep by simp
  moreover have "ck_id c \<notin> ck_id ` set (filter ?gone (k_chunks db))"
    using assms(3,6) keep by (auto simp: distinct_map inj_on_def)
  then have "\<forall>e\<in>set (k_embeddings db). em_chunk e = ck_id c \<longrightarrow> e \<in> set (k_embeddings (delete_chunks ?gone db))"
    by (auto simp: delete_chunks_def Let_def set_delete_rows)
  ultimately show ?thesis using assms(1,2) True by (auto simp: delete_generation_def)
next
  case False
  then have "delete_generation did attempt db = db" using assms(1,2) by (auto simp: delete_generation_def)
  then show ?thesis using assms(3-5) by auto
qed

definition demo_chunk :: "uuid \<Rightarrow> int \<Rightarrow> chunk_row" where
  "demo_chunk i g = \<lparr>ck_id = i, ck_version = 3, ck_doc = 7, ck_generation = g, ck_type = ''text'', ck_content = ''body'',
     ck_header = [], ck_start = 0, ck_end = 4, ck_parent = None, ck_questions = [], ck_locator = None\<rparr>"

definition demo_generations :: kdb where
  "demo_generations = empty_kdb\<lparr>k_documents := [demo_row\<lparr>doc_attempt := 3, doc_active := 2, doc_parse := PsProcessing\<rparr>],
     k_chunks := [demo_chunk 1 1, demo_chunk 2 2, demo_chunk 3 3]\<rparr>"

theorem published_generation_survives_delete_witness:
  "(\<exists>c'\<in>set (k_chunks (delete_generation 7 1 demo_generations)). ck_id c' = 2 \<and> ck_content c' = ''body'')
   \<and> length (k_chunks (delete_generation 7 1 demo_generations)) = 2"
  using published_generation_survives_delete [of demo_generations 7
      "demo_row\<lparr>doc_attempt := 3, doc_active := 2, doc_parse := PsProcessing\<rparr>" "demo_chunk 2 2" 1]
  by (simp add: demo_generations_def empty_kdb_def find_document_def demo_row_def demo_chunk_def delete_generation_def
    delete_chunks_def delete_rows_def)

text \<open>
  C28: a job that was delivered as often as allowed is failed instead of delivered again: the row
  becomes failed with the reason, the document of that attempt becomes failed with an unready index,
  and nothing is sent to the queue.
\<close>

theorem exhausted_job_fails_document:
  assumes "inv_keys db" and "find_document db (ob_doc r) = Some d" and "doc_attempt d = ob_attempt r"
    and "doc_deleted d = None" and "in_progress (doc_parse d) \<or> doc_parse d = PsFailed"
    and "r \<in> set (k_outbox db)" and "live r" and "ob_payload r \<noteq> Reconcile" and "m \<le> ob_deliveries r"
    and "ob_key r \<noteq> ''reconcile''"
  shows "\<exists>db'. dispatch_row enqueue prepare m now r db = Inr (db', [])
    \<and> r\<lparr>ob_state := ObFailed, ob_error := Some exhausted_message\<rparr> \<in> set (k_outbox db')
    \<and> (\<exists>d'\<in>set (k_documents db'). doc_id d' = ob_doc r \<and> doc_parse d' = PsFailed
          \<and> doc_error d' = Some exhausted_message \<and> \<not> doc_index_ready d')"
proof -
  let ?db' = "fail_job now (ob_doc r) (ob_attempt r) (ob_key r) exhausted_message db"
  let ?open = "\<lambda>w. outbox_at (ob_doc r) (ob_attempt r) (ob_key r) w \<and> live w"
  let ?db1 = "update_outbox ?open (\<lambda>w. w\<lparr>ob_state := ObFailed, ob_error := Some exhausted_message\<rparr>) db"
  let ?f = "\<lambda>d. d\<lparr>doc_parse := PsFailed, doc_error := Some exhausted_message,
     doc_summary := (if doc_summary d \<in> {SsPending, SsProcessing} then SsFailed else doc_summary d),
     doc_index_ready := False, doc_updated := now\<rparr>"
  let ?db2 = "update_documents (\<lambda>d. doc_id d = ob_doc r \<and> doc_attempt d = ob_attempt r) ?f ?db1"
  have d: "d \<in> set (k_documents db)" "doc_id d = ob_doc r" using find_document_Some [OF assms(2)] by simp_all
  have open_r: "?open r" using assms(7) by (simp add: outbox_at_def)
  then have "exists_row ?open (k_outbox db)" using assms(6) by (auto simp: exists_row_iff)
  moreover obtain y where "find (\<lambda>d. doc_id d = ob_doc r \<and> doc_attempt d = ob_attempt r \<and> doc_deleted d = None
        \<and> (in_progress (doc_parse d) \<or> doc_parse d = PsFailed)) (k_documents db) = Some y"
    using find_row_exists [OF d(1), of "\<lambda>d. doc_id d = ob_doc r \<and> doc_attempt d = ob_attempt r \<and> doc_deleted d = None
        \<and> (in_progress (doc_parse d) \<or> doc_parse d = PsFailed)"] d(2) assms(3-5) by metis
  ultimately have eq: "?db' = record_document_change now (ob_doc r) (capture_document_state db (ob_doc r)) ?db2"
    by (simp add: fail_job_def Let_def)
  have found: "find_document ?db2 (ob_doc r) = Some (?f d)"
    using assms(2,3) d(2) by (simp add: find_document_update)
  have "r\<lparr>ob_state := ObFailed, ob_error := Some exhausted_message\<rparr> \<in> set (k_outbox ?db2)"
    using assms(6) open_r by (auto simp: set_update_rows)
  then have "r\<lparr>ob_state := ObFailed, ob_error := Some exhausted_message\<rparr> \<in> set (k_outbox ?db')"
    unfolding eq using assms(2,3,10)
    by (intro kept_by_record [OF found, where b = "document_state_of d"]) (simp_all add: capture_document_state_def document_state_of_def terminal_status_def)
  moreover have "?f d \<in> set (k_documents ?db')"
    unfolding eq using find_document_Some [OF found] by simp
  moreover have "dispatch_row enqueue prepare m now r db = Inr (?db', [])"
    using assms(8,9) by (simp add: dispatch_row_def)
  ultimately show ?thesis using d(2)
    by (intro exI [of _ ?db'] conjI bexI [of _ "?f d"]) simp_all
qed

definition demo_spent :: kdb where
  "demo_spent = empty_kdb\<lparr>k_documents := [demo_row],
     k_outbox := [(new_outbox 0 7 3 1 ''convert'' (Convert [] False) False)\<lparr>ob_deliveries := 20\<rparr>]\<rparr>"

theorem exhausted_job_fails_document_witness:
  "\<exists>db'. dispatch_row (\<lambda>j. Inr None) (\<lambda>db v. Inr PUnbound) 20 9
       ((new_outbox 0 7 3 1 ''convert'' (Convert [] False) False)\<lparr>ob_deliveries := 20\<rparr>) demo_spent = Inr (db', [])
     \<and> (\<exists>d'\<in>set (k_documents db'). doc_parse d' = PsFailed)"
proof -
  let ?r = "(new_outbox 0 7 3 1 ''convert'' (Convert [] False) False)\<lparr>ob_deliveries := 20\<rparr>"
  have "inv_keys demo_spent" "find_document demo_spent (ob_doc ?r) = Some demo_row" "?r \<in> set (k_outbox demo_spent)"
    by (simp_all add: demo_spent_def empty_kdb_def inv_keys_def find_document_def new_outbox_def demo_row_def)
  moreover have "doc_attempt demo_row = ob_attempt ?r" "doc_deleted demo_row = None" "in_progress (doc_parse demo_row)"
    "live ?r" "ob_payload ?r \<noteq> Reconcile" "20 \<le> ob_deliveries ?r" "ob_key ?r \<noteq> ''reconcile''"
    by (simp_all add: demo_row_def new_outbox_def in_progress_def live_def)
  ultimately show ?thesis
    using exhausted_job_fails_document [of demo_spent ?r demo_row 20 "\<lambda>j. Inr None" "\<lambda>db v. Inr PUnbound" 9]
    by blast
qed

text \<open>
  Two jobs of a document collide on a key only if they are the same obligation.  Given that the
  text of a \<open>Uuid\<close> identifies it, the outbox key determines the kind of work and what tells jobs of that
  kind apart: the batch of questions, the chunk to extract from, the image.
\<close>

lemma work_key_identifies_job:
  assumes "inj ut" and "work_key ut w = work_key ut w'"
  shows "case w of
      Convert ps m \<Rightarrow> \<exists>ps' m'. w' = Convert ps' m'
    | Postprocess c \<Rightarrow> \<exists>c'. w' = Postprocess c'
    | Questions cs ps ns b \<Rightarrow> \<exists>cs' ps' ns'. w' = Questions cs' ps' ns' b
    | Image k t \<Rightarrow> \<exists>t'. w' = Image k t'
    | _ \<Rightarrow> w' = w"
  using assms by (cases w; cases w') (auto dest: injD)



end
