(* ===== verification/Rust_Text.thy ===== *)
theory Rust_Text
  imports Kb_Prelude "HOL-Library.Sublist"
begin

text \<open>
  Rust's \<^verbatim>\<open>&str\<close> as the list of its Unicode scalar values (\<^verbatim>\<open>chars()\<close>), with the byte offsets of its
  UTF-8 encoding: \<open>byte_len\<close> is \<^verbatim>\<open>len()\<close>, \<open>byte_slice s a b\<close> is \<^verbatim>\<open>&s[a..b]\<close> (which the program only forms at
  character boundaries), \<open>rune_index\<close> counts the characters before an offset.  The functions of
  \<^verbatim>\<open>str\<close> that the chunker uses follow: \<open>trim\<close> with the white space of \<^verbatim>\<open>char::is_whitespace\<close>, splitting at a
  character, searching and joining.

  The \<^verbatim>\<open>regex\<close> crate is a parameter: \<open>find_iter\<close> is a function from a text to byte ranges, and
  \<open>matches_ok\<close> states what its documentation promises of them (in order, disjoint, on character
  boundaries).
\<close>

type_synonym rstr = "nat list"

definition lit :: "string \<Rightarrow> rstr" where
  "lit s = map of_char s"

subsection \<open>Bytes and characters\<close>

definition len_utf8 :: "nat \<Rightarrow> nat" where
  "len_utf8 c = (if c < 128 then 1 else if c < 2048 then 2 else if c < 65536 then 3 else 4)"

definition byte_len :: "rstr \<Rightarrow> nat" where
  "byte_len s = sum_list (map len_utf8 s)"

fun rune_index :: "rstr \<Rightarrow> nat \<Rightarrow> nat" where
  "rune_index [] n = 0"
| "rune_index (c # cs) n = (if n < len_utf8 c then 0 else Suc (rune_index cs (n - len_utf8 c)))"

definition is_boundary :: "rstr \<Rightarrow> nat \<Rightarrow> bool" where
  "is_boundary s n \<longleftrightarrow> byte_len (take (rune_index s n) s) = n"

definition slice :: "rstr \<Rightarrow> nat \<Rightarrow> nat \<Rightarrow> rstr" where
  "slice s i j = take (j - i) (drop i s)"

definition byte_slice :: "rstr \<Rightarrow> nat \<Rightarrow> nat \<Rightarrow> rstr" where
  "byte_slice s a b = slice s (rune_index s a) (rune_index s b)"

lemma len_utf8_pos [simp]: "0 < len_utf8 c"
  by (simp add: len_utf8_def)

lemma byte_len_simps [simp]:
  "byte_len [] = 0"
  "byte_len (c # cs) = len_utf8 c + byte_len cs"
  "byte_len (s @ t) = byte_len s + byte_len t"
  by (simp_all add: byte_len_def)

lemma rune_index_le: "rune_index s n \<le> length s"
  by (induction s n rule: rune_index.induct) auto

lemma rune_index_take [simp]: "i \<le> length s \<Longrightarrow> rune_index s (byte_len (take i s)) = i"
  by (induction s arbitrary: i) (auto simp: take_Cons split: nat.splits)

lemma rune_index_0 [simp]: "rune_index s 0 = 0"
  by (cases s) simp_all

lemma rune_index_byte_len [simp]: "rune_index s (byte_len s) = length s"
  using rune_index_take [of "length s" s] by simp

lemma boundary_iff: "is_boundary s n \<longleftrightarrow> (\<exists>i\<le>length s. n = byte_len (take i s))"
  using rune_index_le by (auto simp: is_boundary_def intro: sym)

lemma boundary_0 [simp]: "is_boundary s 0" and boundary_byte_len [simp]: "is_boundary s (byte_len s)"
  by (simp_all add: is_boundary_def)

lemma byte_len_take_mono: "i \<le> j \<Longrightarrow> byte_len (take i s) \<le> byte_len (take j s)"
  by (metis byte_len_simps(3) le_add1 le_add_diff_inverse take_add)

lemma byte_len_take_less: "i < j \<Longrightarrow> j \<le> length s \<Longrightarrow> byte_len (take i s) < byte_len (take j s)"
  by (induction s arbitrary: i j) (auto simp: take_Cons split: nat.splits)

lemma rune_index_mono: "is_boundary s a \<Longrightarrow> is_boundary s b \<Longrightarrow> rune_index s a \<le> rune_index s b \<longleftrightarrow> a \<le> b"
  using byte_len_take_mono byte_len_take_less rune_index_le
  by (metis is_boundary_def linorder_not_le)

lemma boundary_le: "is_boundary s a \<Longrightarrow> a \<le> byte_len s"
  using byte_len_take_mono [of "rune_index s a" "length s" s] rune_index_le by (simp add: is_boundary_def)

subsection \<open>Slices\<close>

lemma slice_append:
  assumes "i \<le> j" and "j \<le> k"
  shows "slice s i j @ slice s j k = slice s i k"
proof -
  obtain p q where "j = i + p" "k = i + p + q" using assms by (metis le_iff_add)
  then show ?thesis by (simp add: slice_def take_add add.commute)
qed

lemma slice_full [simp]: "slice s 0 (length s) = s" and slice_empty [simp]: "slice s i i = []"
  by (simp_all add: slice_def)

lemma length_slice [simp]: "j \<le> length s \<Longrightarrow> length (slice s i j) = j - i"
  by (simp add: slice_def)

lemma slice_slice:
  assumes "j \<le> length (slice s a b)"
  shows "slice (slice s a b) i j = slice s (a + i) (a + j)"
proof (cases "i \<le> j")
  case True
  have "j \<le> b - a" using assms by (simp add: slice_def)
  then have "j - i \<le> b - a - i" by (rule diff_le_mono)
  then show ?thesis by (simp add: slice_def drop_take min_def add.commute)
qed (simp add: slice_def)

subsection \<open>Functions of str\<close>

definition is_whitespace :: "nat \<Rightarrow> bool" where
  "is_whitespace c \<longleftrightarrow> (9 \<le> c \<and> c \<le> 13) \<or> c = 32 \<or> c = 133 \<or> c = 160 \<or> c = 5760 \<or> (8192 \<le> c \<and> c \<le> 8202)
     \<or> c = 8232 \<or> c = 8233 \<or> c = 8239 \<or> c = 8287 \<or> c = 12288"

text \<open>The same set, with the ASCII characters decided first: evaluation of small texts stays small.\<close>

lemma is_whitespace_code [code]:
  "is_whitespace c \<longleftrightarrow> (if c < 128 then (9 \<le> c \<and> c \<le> 13) \<or> c = 32
     else c = 133 \<or> c = 160 \<or> c = 5760 \<or> (8192 \<le> c \<and> c \<le> 8202)
       \<or> c = 8232 \<or> c = 8233 \<or> c = 8239 \<or> c = 8287 \<or> c = 12288)"
  by (auto simp: is_whitespace_def)

definition trim_end_matches :: "(nat \<Rightarrow> bool) \<Rightarrow> rstr \<Rightarrow> rstr" where
  "trim_end_matches P s = rev (dropWhile P (rev s))"

definition trim :: "rstr \<Rightarrow> rstr" where
  "trim s = trim_end_matches is_whitespace (dropWhile is_whitespace s)"

fun split_char :: "nat \<Rightarrow> rstr \<Rightarrow> rstr list" where
  "split_char sep [] = [[]]"
| "split_char sep (c # cs) =
     (if c = sep then [] # split_char sep cs
      else case split_char sep cs of [] \<Rightarrow> [[c]] | l # ls \<Rightarrow> (c # l) # ls)"

definition starts_with_lit :: "rstr \<Rightarrow> rstr \<Rightarrow> bool" where
  "starts_with_lit p s \<longleftrightarrow> prefix p s"

definition ends_with_lit :: "rstr \<Rightarrow> rstr \<Rightarrow> bool" where
  "ends_with_lit p s \<longleftrightarrow> suffix p s"

fun contains_lit :: "rstr \<Rightarrow> rstr \<Rightarrow> bool" where
  "contains_lit p [] = (p = [])"
| "contains_lit p (c # cs) = (prefix p (c # cs) \<or> contains_lit p cs)"

text \<open>The order of \<^verbatim>\<open>str\<close> is that of its bytes, which is the lexicographic order of the characters.\<close>

fun str_less :: "rstr \<Rightarrow> rstr \<Rightarrow> bool" where
  "str_less _ [] = False"
| "str_less [] (_ # _) = True"
| "str_less (a # as) (b # bs) = (a < b \<or> (a = b \<and> str_less as bs))"

fun join :: "rstr \<Rightarrow> rstr list \<Rightarrow> rstr" where
  "join sep [] = []"
| "join sep [s] = s"
| "join sep (s # t # ss) = s @ sep @ join sep (t # ss)"

abbreviation newline :: nat where
  "newline \<equiv> 10"

lemma split_char_ne [simp]: "split_char sep s \<noteq> []"
  by (cases s) (auto split: list.splits)

lemma join_Cons: "ss \<noteq> [] \<Longrightarrow> join sep (s # ss) = s @ sep @ join sep ss"
  by (cases ss) simp_all

lemma join_split_char [simp]: "join [sep] (split_char sep s) = s"
proof (induction s)
  case (Cons c cs)
  obtain l ls where ls: "split_char sep cs = l # ls" by (cases "split_char sep cs") auto
  then show ?case using Cons by (cases ls) (auto simp: join_Cons)
qed simp

lemma split_char_no_sep: "l \<in> set (split_char sep s) \<Longrightarrow> sep \<notin> set l"
  by (induction s arbitrary: l) (auto split: if_splits list.splits)

subsection \<open>Searching a literal\<close>

text \<open>
  \<^verbatim>\<open>str::match_indices\<close>: the byte ranges of the occurrences of a text, from left to right and without
  overlaps.  It is also what the regular expression of an escaped separator finds.
\<close>

function literal_matches :: "rstr \<Rightarrow> nat \<Rightarrow> rstr \<Rightarrow> (nat \<times> nat) list" where
  "literal_matches sep pos rest =
     (if rest = [] then []
      else if sep \<noteq> [] \<and> prefix sep rest
      then (pos, pos + byte_len sep) # literal_matches sep (pos + byte_len sep) (drop (length sep) rest)
      else literal_matches sep (pos + len_utf8 (hd rest)) (tl rest))"
  by auto
termination
  by (relation "measure (\<lambda>(sep, pos, rest). length rest)") (auto simp: length_greater_0_conv [symmetric] simp del: length_greater_0_conv)

declare literal_matches.simps [simp del]

subsection \<open>Matches of a regular expression\<close>

type_synonym find_iter = "rstr \<Rightarrow> (nat \<times> nat) list"

fun matches_ok :: "rstr \<Rightarrow> nat \<Rightarrow> (nat \<times> nat) list \<Rightarrow> bool" where
  "matches_ok s p [] = True"
| "matches_ok s p ((a, b) # ms) = (p \<le> a \<and> a \<le> b \<and> is_boundary s a \<and> is_boundary s b \<and> matches_ok s b ms)"

definition find_iter_ok :: "find_iter \<Rightarrow> bool" where
  "find_iter_ok f \<longleftrightarrow> (\<forall>s. matches_ok s 0 (f s))"

lemma find_iter_okD: "find_iter_ok f \<Longrightarrow> matches_ok s 0 (f s)"
  by (simp add: find_iter_ok_def)

end
