(* ===== verification/Header_Tracker.thy ===== *)
theory Header_Tracker
  imports Rust_Text "HOL-Library.AList"
begin

text \<open>
  The regular expressions of the chunker as parameters (\<^verbatim>\<open>chunker/patterns.rs\<close> and the statics of the
  other files), and the table-header tracker of \<^verbatim>\<open>chunker/header_tracker.rs\<close>.  \<^verbatim>\<open>HashMap\<close> and
  \<^verbatim>\<open>HashSet\<close> are association lists and lists; the tracker uses the one key
  \<open>markdown_table_hook_priority\<close>, so their order is of no consequence.
\<close>

subsection \<open>Patterns\<close>

record patterns =
  protected_patterns :: "find_iter list"
  separator_pattern :: "rstr \<Rightarrow> find_iter"
  table_start :: "rstr \<Rightarrow> (nat \<times> nat) option"
  table_end :: "rstr \<Rightarrow> bool"
  table_row :: "rstr \<Rightarrow> bool"
  markdown_heading :: "rstr \<Rightarrow> (rstr option \<times> rstr option) option"
  numbered_section :: "rstr \<Rightarrow> bool"
  all_caps_heading :: "rstr \<Rightarrow> bool"
  visual_separator :: "rstr \<Rightarrow> bool"
  excessive_blanks :: find_iter
  page_footer :: "rstr \<Rightarrow> bool"
  german_chapter :: "rstr \<Rightarrow> bool"
  english_chapter :: "rstr \<Rightarrow> bool"
  chinese_chapter :: "rstr \<Rightarrow> bool"

text \<open>What the chunker relies on: every search reports disjoint ranges in order, on character boundaries.\<close>

definition patterns_ok :: "patterns \<Rightarrow> bool" where
  "patterns_ok P \<longleftrightarrow> (\<forall>f\<in>set (protected_patterns P). find_iter_ok f) \<and> (\<forall>sep. find_iter_ok (separator_pattern P sep))
     \<and> find_iter_ok (excessive_blanks P)"

definition lang_english :: rstr where "lang_english = lit ''en''"
definition lang_german :: rstr where "lang_german = lit ''de''"
definition lang_chinese :: rstr where "lang_chinese = lit ''zh''"
definition lang_mixed :: rstr where "lang_mixed = lit ''mixed''"

definition chapter_patterns_for_langs :: "patterns \<Rightarrow> rstr list \<Rightarrow> (rstr \<Rightarrow> bool) list" where
  "chapter_patterns_for_langs P langs =
     (let all = [german_chapter P, english_chapter P, chinese_chapter P] in
      if langs = [] then all
      else let out = concat (map (\<lambda>l. if l = lang_german then [german_chapter P]
                                      else if l = lang_english then [english_chapter P]
                                      else if l = lang_chinese then [chinese_chapter P] else []) langs)
           in if out = [] then all else out)"

subsection \<open>Table rows\<close>

definition pipe :: nat where "pipe = 124"

definition table_row_column_count :: "rstr \<Rightarrow> nat" where
  "table_row_column_count line0 =
     (let line = trim line0 in
      if \<not> starts_with_lit [pipe] line then 0
      else let parts = split_char pipe line;
               parts1 = (if parts \<noteq> [] \<and> trim (hd parts) = [] then tl parts else parts);
               parts2 = (if parts1 \<noteq> [] \<and> trim (last parts1) = [] then butlast parts1 else parts1)
           in length parts2)"

definition first_table_row_column_count :: "patterns \<Rightarrow> rstr \<Rightarrow> nat" where
  "first_table_row_column_count P text =
     (case find (\<lambda>line. trim line \<noteq> [] \<and> table_row P line) (split_char newline text) of
        Some line \<Rightarrow> table_row_column_count line
      | None \<Rightarrow> 0)"

definition header_table_column_count :: "rstr \<Rightarrow> nat" where
  "header_table_column_count header =
     (case find (\<lambda>line. trim line \<noteq> [] \<and> \<not> contains_lit (lit ''---'') (trim line) \<and> table_row_column_count line > 0)
             (split_char newline header) of
        Some line \<Rightarrow> table_row_column_count line
      | None \<Rightarrow> 0)"

definition is_empty_table_header_row :: "rstr \<Rightarrow> bool" where
  "is_empty_table_header_row header =
     (if newline \<notin> set header then False
      else list_all (\<lambda>r. r \<in> {pipe, 32, 9}) (trim (takeWhile (\<lambda>c. c \<noteq> newline) header)))"

definition extract_separator_line :: "rstr \<Rightarrow> rstr" where
  "extract_separator_line header =
     (case find (contains_lit (lit ''---'')) (split_char newline header) of
        Some line \<Rightarrow> line @ [newline]
      | None \<Rightarrow> [])"

definition split_ends_with_paragraph_break :: "rstr \<Rightarrow> bool" where
  "split_ends_with_paragraph_break s =
     (let trimmed = trim_end_matches (\<lambda>c. c \<in> {32, 9, 13}) s
      in ends_with_lit [10, 10] trimmed \<or> ends_with_lit [13, 10, 13, 10] trimmed)"

definition header_column_row :: "rstr \<Rightarrow> rstr" where
  "header_column_row header =
     (case find (\<lambda>line. line \<noteq> [] \<and> \<not> contains_lit (lit ''---'') line \<and> list_ex (\<lambda>r. r \<notin> {pipe, 32, 9}) line)
             (map trim (split_char newline header)) of
        Some line \<Rightarrow> line
      | None \<Rightarrow> [])"

definition header_already_present :: "rstr \<Rightarrow> rstr \<Rightarrow> rstr \<Rightarrow> bool" where
  "header_already_present headers overlap_text unit_text =
     (if contains_lit headers overlap_text \<or> contains_lit headers unit_text then True
      else let col_row = header_column_row headers in
        if col_row = [] then False
        else contains_lit col_row overlap_text \<or> contains_lit col_row unit_text)"

definition header_column_mismatch :: "patterns \<Rightarrow> rstr \<Rightarrow> rstr \<Rightarrow> bool" where
  "header_column_mismatch P headers next_unit =
     (let header_cols = header_table_column_count headers; row_cols = first_table_row_column_count P next_unit
      in header_cols > 0 \<and> row_cols > 0 \<and> header_cols \<noteq> row_cols)"

subsection \<open>The tracker\<close>

record header_tracker =
  active_headers :: "(int \<times> rstr) list"
  ended_headers :: "int list"
  pending_extend :: "int list"
  pending_table_break :: bool
  header_ended_this_unit :: bool

definition new_tracker :: header_tracker where
  "new_tracker = \<lparr>active_headers = [], ended_headers = [], pending_extend = [], pending_table_break = False,
     header_ended_this_unit = False\<rparr>"

definition markdown_table_hook_priority :: int where
  "markdown_table_hook_priority = 15"

definition has_active :: "header_tracker \<Rightarrow> int \<Rightarrow> bool" where
  "has_active ht p \<longleftrightarrow> map_of (active_headers ht) p \<noteq> None"

definition clear_table_header :: "header_tracker \<Rightarrow> header_tracker" where
  "clear_table_header ht = ht\<lparr>ended_headers := List.insert markdown_table_hook_priority (ended_headers ht),
     active_headers := AList.delete markdown_table_hook_priority (active_headers ht),
     pending_extend := removeAll markdown_table_hook_priority (pending_extend ht)\<rparr>"

definition end_table_header_on_column_mismatch :: "patterns \<Rightarrow> rstr \<Rightarrow> header_tracker \<Rightarrow> header_tracker" where
  "end_table_header_on_column_mismatch P split ht =
     (case map_of (active_headers ht) markdown_table_hook_priority of
        None \<Rightarrow> ht
      | Some header \<Rightarrow>
          (let row_cols = first_table_row_column_count P split; header_cols = header_table_column_count header
           in if row_cols > 0 \<and> header_cols > 0 \<and> row_cols \<noteq> header_cols
              then (clear_table_header ht)\<lparr>header_ended_this_unit := True\<rparr> else ht))"

fun extend_pending :: "patterns \<Rightarrow> rstr \<Rightarrow> int list \<Rightarrow> header_tracker \<Rightarrow> header_tracker" where
  "extend_pending P split [] ht = ht"
| "extend_pending P split (p # ps) ht =
     (let ht1 = (if has_active ht p \<and> table_row P split
                 then let sep = extract_separator_line (case map_of (active_headers ht) p of Some h \<Rightarrow> h | None \<Rightarrow> [])
                      in ht\<lparr>active_headers := AList.update p (split @ sep) (active_headers ht)\<rparr>
                 else ht)
      in extend_pending P split ps (ht1\<lparr>pending_extend := removeAll p (pending_extend ht1)\<rparr>))"

definition tracker_update :: "patterns \<Rightarrow> rstr \<Rightarrow> header_tracker \<Rightarrow> header_tracker" where
  "tracker_update P split ht0 =
     (let k = markdown_table_hook_priority;
          ht1 = ht0\<lparr>header_ended_this_unit := False\<rparr>;
          ht2 = (if pending_table_break ht1
                 then let ht = ht1\<lparr>pending_table_break := False\<rparr> in
                   if has_active ht k
                   then if first_table_row_column_count P split > 0
                        then (clear_table_header ht)\<lparr>header_ended_this_unit := True\<rparr>
                        else clear_table_header ht
                   else ht
                 else ht1);
          ht3 = (if has_active ht2 k \<and> table_end P split then clear_table_header ht2 else ht2);
          ht4 = (if has_active ht3 k \<and> k \<notin> set (pending_extend ht3)
                 then if split_ends_with_paragraph_break split then ht3\<lparr>pending_table_break := True\<rparr>
                      else end_table_header_on_column_mismatch P split ht3
                 else ht3);
          ht5 = extend_pending P split (pending_extend ht4) ht4;
          ht6 = (if \<not> has_active ht5 k \<and> k \<notin> set (ended_headers ht5)
                 then case table_start P split of
                        None \<Rightarrow> ht5
                      | Some (a, b) \<Rightarrow>
                          (let loc = byte_slice split a b;
                               ht = (if is_empty_table_header_row loc
                                     then ht5\<lparr>pending_extend := List.insert k (pending_extend ht5)\<rparr> else ht5)
                           in ht\<lparr>active_headers := AList.update k loc (active_headers ht)\<rparr>)
                 else ht5)
      in if active_headers ht6 = [] then ht6\<lparr>ended_headers := []\<rparr> else ht6)"

definition get_headers :: "header_tracker \<Rightarrow> rstr" where
  "get_headers ht =
     (if active_headers ht = [] then []
      else join [newline] (map snd (sort_key (\<lambda>e. - fst e) (active_headers ht))))"

end
