(* ===== verification/Splitter.thy ===== *)
theory Splitter
  imports Header_Tracker
begin

text \<open>
  The legacy splitter of \<^verbatim>\<open>chunker/splitter.rs\<close>: protected spans (formulas, links, tables, code) are
  kept whole, the text between them is cut at separators, and the units are merged into chunks of at most
  \<open>chunk_size\<close> characters with an overlap, repeating the header of a table that continues.
\<close>

definition hard_cap :: nat where "hard_cap = 7500"
definition default_chunk_size :: nat where "default_chunk_size = 512"
definition default_chunk_overlap :: nat where "default_chunk_overlap = 80"

record text_chunk =
  content :: rstr
  context_header :: rstr
  chunk_seq :: nat
  chunk_start :: nat
  chunk_end :: nat

record split_unit =
  u_text :: rstr
  u_start :: nat
  u_end :: nat

type_synonym span = "nat \<times> nat"

subsection \<open>Protected spans\<close>

definition span_less :: "span \<Rightarrow> span \<Rightarrow> bool" where
  "span_less a b \<longleftrightarrow> fst a < fst b \<or> (fst a = fst b \<and> snd b - fst b < snd a - fst a)"

fun insert_span :: "span \<Rightarrow> span list \<Rightarrow> span list" where
  "insert_span x [] = [x]"
| "insert_span x (y # ys) = (if span_less y x then y # insert_span x ys else x # y # ys)"

definition sort_spans :: "span list \<Rightarrow> span list" where
  "sort_spans xs = foldr insert_span xs []"

fun drop_overlapping :: "nat \<Rightarrow> span list \<Rightarrow> span list" where
  "drop_overlapping last_end [] = []"
| "drop_overlapping last_end ((a, b) # xs) =
     (if a \<ge> last_end then (a, b) # drop_overlapping b xs else drop_overlapping last_end xs)"

definition protected_spans :: "patterns \<Rightarrow> rstr \<Rightarrow> span list" where
  "protected_spans P text =
     drop_overlapping 0 (sort_spans (concat (map (\<lambda>f. filter (\<lambda>(a, b). b > a) (f text)) (protected_patterns P))))"

text \<open>
  \<open>advance\<close> is the inner loop of \<open>protected_spans_rune\<close>: it walks over whole characters until the
  byte position reaches the target or the end; the rest of the text is carried along.
\<close>

fun advance :: "rstr \<Rightarrow> nat \<Rightarrow> nat \<Rightarrow> nat \<Rightarrow> rstr \<times> nat \<times> nat" where
  "advance [] byte_idx rune_idx target = ([], byte_idx, rune_idx)"
| "advance (c # cs) byte_idx rune_idx target =
     (if byte_idx < target then advance cs (byte_idx + len_utf8 c) (rune_idx + 1) target
      else (c # cs, byte_idx, rune_idx))"

fun spans_rune_from :: "rstr \<Rightarrow> nat \<Rightarrow> nat \<Rightarrow> span list \<Rightarrow> span list" where
  "spans_rune_from rest byte_idx rune_idx [] = []"
| "spans_rune_from rest byte_idx rune_idx ((a, b) # ss) =
     (case advance rest byte_idx rune_idx a of (rest1, b1, r1) \<Rightarrow>
      case advance rest1 b1 r1 b of (rest2, b2, r2) \<Rightarrow>
        (r1, r2) # spans_rune_from rest2 b2 r2 ss)"

definition protected_spans_rune :: "rstr \<Rightarrow> span list \<Rightarrow> span list" where
  "protected_spans_rune text byte_spans = spans_rune_from text 0 0 byte_spans"

subsection \<open>Units\<close>

fun pieces_from :: "rstr \<Rightarrow> nat \<Rightarrow> (nat \<times> nat) list \<Rightarrow> rstr list" where
  "pieces_from text pos [] = (if pos < byte_len text then [byte_slice text pos (byte_len text)] else [])"
| "pieces_from text pos ((a, b) # ms) =
     (if a > pos then [byte_slice text pos a] else [])
     @ (if byte_slice text a b \<noteq> [] then [byte_slice text a b] else [])
     @ pieces_from text b ms"

fun split_by_separators :: "patterns \<Rightarrow> rstr \<Rightarrow> rstr list \<Rightarrow> nat \<Rightarrow> rstr list" where
  "split_by_separators P text [] chunk_size = [text]"
| "split_by_separators P text (sep # rest) chunk_size =
     (if text = [] \<or> (chunk_size > 0 \<and> length text \<le> chunk_size) then [text]
      else if sep = [] \<or> separator_pattern P sep text = [] then split_by_separators P text rest chunk_size
      else let pieces = pieces_from text 0 (separator_pattern P sep text) in
        if length pieces \<le> 1 then split_by_separators P text rest chunk_size
        else concat (map (\<lambda>p. if chunk_size > 0 \<and> length p > chunk_size \<and> rest \<noteq> []
                               then split_by_separators P p rest chunk_size else [p]) pieces))"

fun place_units :: "nat \<Rightarrow> rstr list \<Rightarrow> split_unit list" where
  "place_units offset [] = []"
| "place_units offset (p # ps) =
     \<lparr>u_text = p, u_start = offset, u_end = offset + length p\<rparr> # place_units (offset + length p) ps"

definition snap_end :: "rstr \<Rightarrow> nat \<Rightarrow> nat" where
  "snap_end runes offset =
     (let chunk_end = min (offset + hard_cap) (length runes) in
      if chunk_end < length runes
      then let snap = max (chunk_end - 200) offset in
        case find (\<lambda>i. runes ! i = newline \<or> runes ! i = 32) (rev [snap..<chunk_end]) of
          Some i \<Rightarrow> i + 1
        | None \<Rightarrow> chunk_end
      else chunk_end)"

lemma snap_end_bounds:
  assumes "offset < length runes"
  shows "offset < snap_end runes offset \<and> snap_end runes offset \<le> length runes \<and> snap_end runes offset \<le> offset + hard_cap"
proof -
  let ?e = "min (offset + hard_cap) (length runes)"
  have e: "offset < ?e" using assms by (simp add: hard_cap_def)
  have "offset < i + 1 \<and> i + 1 \<le> ?e"
    if "find (\<lambda>i. runes ! i = newline \<or> runes ! i = 32) (rev [max (?e - 200) offset..<?e]) = Some i" for i
    using find_Some_in_set [OF that] by auto
  then show ?thesis using e by (auto simp: snap_end_def Let_def split: option.splits)
qed

function force_split_from :: "rstr \<Rightarrow> nat \<Rightarrow> nat \<Rightarrow> split_unit list" where
  "force_split_from runes base offset =
     (if offset < length runes
      then \<lparr>u_text = slice runes offset (snap_end runes offset), u_start = base + offset,
             u_end = base + snap_end runes offset\<rparr>
           # force_split_from runes base (snap_end runes offset)
      else [])"
  by auto
termination
  by (relation "measure (\<lambda>(runes, base, offset). length runes - offset)") (use snap_end_bounds in \<open>auto simp: diff_less_mono2\<close>)

declare force_split_from.simps [simp del]

definition force_split_runes :: "rstr \<Rightarrow> nat \<Rightarrow> split_unit list" where
  "force_split_runes text base = force_split_from text base 0"

fun build_units_from :: "patterns \<Rightarrow> rstr \<Rightarrow> rstr list \<Rightarrow> nat \<Rightarrow> nat \<Rightarrow> nat \<Rightarrow> span list \<Rightarrow> split_unit list" where
  "build_units_from P text seps chunk_size byte_pos rune_pos [] =
     (if byte_pos < byte_len text
      then place_units rune_pos (split_by_separators P (byte_slice text byte_pos (byte_len text)) seps chunk_size)
      else [])"
| "build_units_from P text seps chunk_size byte_pos rune_pos ((a, b) # ps) =
     (let pre = byte_slice text byte_pos a;
          pre_units = (if a > byte_pos then place_units rune_pos (split_by_separators P pre seps chunk_size) else []);
          rune_pos1 = (if a > byte_pos then rune_pos + length pre else rune_pos);
          prot_text = byte_slice text a b;
          prot_units = (if length prot_text > hard_cap then force_split_runes prot_text rune_pos1
                        else [\<lparr>u_text = prot_text, u_start = rune_pos1, u_end = rune_pos1 + length prot_text\<rparr>])
      in pre_units @ prot_units
         @ build_units_from P text seps chunk_size b (rune_pos1 + length prot_text) ps)"

definition build_units_with_protection ::
  "patterns \<Rightarrow> rstr \<Rightarrow> span list \<Rightarrow> rstr list \<Rightarrow> nat \<Rightarrow> split_unit list" where
  "build_units_with_protection P text protected seps chunk_size = build_units_from P text seps chunk_size 0 0 protected"

subsection \<open>Merging\<close>

definition units_text :: "split_unit list \<Rightarrow> rstr" where
  "units_text us = concat (map u_text us)"

definition build_chunk :: "split_unit list \<Rightarrow> nat \<Rightarrow> text_chunk" where
  "build_chunk us n = \<lparr>content = units_text us, context_header = [], chunk_seq = n,
     chunk_start = u_start (hd us), chunk_end = u_end (last us)\<rparr>"

definition is_separator_only :: "rstr \<Rightarrow> bool" where
  "is_separator_only s \<longleftrightarrow> list_all (\<lambda>r. r \<in> {10, 13, 32, 9, 12290}) s"

text \<open>
  \<open>overlap_suffix\<close> walks the units from the last one backwards (its argument is the reversed list)
  while they fit; \<open>drop_leading\<close> then removes header markers and blank units at the front.
\<close>

fun overlap_suffix :: "nat \<Rightarrow> nat \<Rightarrow> nat \<Rightarrow> nat \<Rightarrow> split_unit list \<Rightarrow> split_unit list \<Rightarrow> split_unit list \<times> nat" where
  "overlap_suffix overlap limit next_len n taken [] = (taken, n)"
| "overlap_suffix overlap limit next_len n taken (u # us) =
     (if n + length (u_text u) > overlap \<or> n + length (u_text u) + next_len > limit then (taken, n)
      else overlap_suffix overlap limit next_len (n + length (u_text u)) (u # taken) us)"

fun drop_leading :: "nat \<Rightarrow> split_unit list \<Rightarrow> split_unit list \<times> nat" where
  "drop_leading n [] = ([], n)"
| "drop_leading n (u # us) =
     (if u_start u = u_end u \<or> trim (u_text u) = [] \<or> is_separator_only (u_text u)
      then drop_leading (n - length (u_text u)) us else (u # us, n))"

definition compute_overlap :: "split_unit list \<Rightarrow> nat \<Rightarrow> nat \<Rightarrow> nat \<Rightarrow> split_unit list \<times> nat" where
  "compute_overlap current chunk_overlap chunk_size next_len =
     (if chunk_overlap = 0 then ([], 0)
      else case overlap_suffix chunk_overlap chunk_size next_len 0 [] (rev current) of (taken, n) \<Rightarrow>
        case drop_leading n taken of (kept, m) \<Rightarrow> if kept = [] then ([], 0) else (kept, m))"

fun shrink_front :: "nat \<Rightarrow> nat \<Rightarrow> split_unit list \<Rightarrow> nat \<Rightarrow> split_unit list \<times> nat" where
  "shrink_front extra limit [] n = ([], n)"
| "shrink_front extra limit (u # us) n =
     (if n + extra > limit then shrink_front extra limit us (n - length (u_text u)) else (u # us, n))"

record merge_state =
  m_tracker :: header_tracker
  m_chunks :: "text_chunk list"
  m_current :: "split_unit list"
  m_len :: nat

definition flush :: "merge_state \<Rightarrow> merge_state" where
  "flush s = s\<lparr>m_chunks := m_chunks s @ [build_chunk (m_current s) (length (m_chunks s))], m_current := [], m_len := 0\<rparr>"

definition piece_chunks :: "nat \<Rightarrow> split_unit list \<Rightarrow> text_chunk list" where
  "piece_chunks n us = map (\<lambda>(i, u). \<lparr>content = u_text u, context_header = [], chunk_seq = n + i,
     chunk_start = u_start u, chunk_end = u_end u\<rparr>) (enumerate 0 us)"

definition overflow_current :: "patterns \<Rightarrow> nat \<Rightarrow> nat \<Rightarrow> rstr \<Rightarrow> split_unit \<Rightarrow> merge_state \<Rightarrow> merge_state" where
  "overflow_current P chunk_size chunk_overlap headers u s =
     (let u_len = length (u_text u); headers_len = length headers;
          chunks = m_chunks s @ [build_chunk (m_current s) (length (m_chunks s))]
      in case compute_overlap (m_current s) chunk_overlap chunk_size u_len of (ov, ov_len) \<Rightarrow>
         if headers \<noteq> [] \<and> headers_len + u_len \<le> chunk_size
         then case shrink_front (u_len + headers_len) chunk_size ov ov_len of (cur, n) \<Rightarrow>
           if \<not> header_already_present headers (units_text cur) (u_text u) \<and> \<not> header_column_mismatch P headers (u_text u)
           then let start_pos = (if cur = [] then u_start u else u_start (hd cur))
                in s\<lparr>m_chunks := chunks,
                     m_current := \<lparr>u_text = headers, u_start = start_pos, u_end = start_pos\<rparr> # cur,
                     m_len := n + headers_len\<rparr>
           else s\<lparr>m_chunks := chunks, m_current := cur, m_len := n\<rparr>
         else s\<lparr>m_chunks := chunks, m_current := ov, m_len := ov_len\<rparr>)"

definition merge_unit :: "patterns \<Rightarrow> nat \<Rightarrow> nat \<Rightarrow> split_unit \<Rightarrow> merge_state \<Rightarrow> merge_state" where
  "merge_unit P chunk_size chunk_overlap u s0 =
     (let u_len = length (u_text u) in
      if u_len > hard_cap
      then let s = (if m_current s0 \<noteq> [] then flush s0 else s0);
               pieces = piece_chunks (length (m_chunks s)) (force_split_runes (u_text u) (u_start u))
           in s\<lparr>m_tracker := tracker_update P (u_text u) (m_tracker s), m_chunks := m_chunks s @ pieces\<rparr>
      else
        let ht = tracker_update P (u_text u) (m_tracker s0);
            s1 = s0\<lparr>m_tracker := ht\<rparr>;
            s2 = (if header_ended_this_unit ht \<and> m_current s1 \<noteq> [] then flush s1 else s1);
            headers0 = get_headers ht;
            headers = (if length headers0 > chunk_size then [] else headers0);
            s3 = (if m_len s2 + u_len + length headers > chunk_size \<and> m_current s2 \<noteq> []
                  then overflow_current P chunk_size chunk_overlap headers u s2 else s2);
            s4 = (if m_len s3 + u_len > hard_cap \<and> m_current s3 \<noteq> [] then flush s3 else s3)
        in s4\<lparr>m_current := m_current s4 @ [u], m_len := m_len s4 + u_len\<rparr>)"

definition merge_units :: "patterns \<Rightarrow> split_unit list \<Rightarrow> nat \<Rightarrow> nat \<Rightarrow> text_chunk list" where
  "merge_units P units chunk_size chunk_overlap =
     (if units = [] then []
      else let s = fold (merge_unit P chunk_size chunk_overlap) units
                     \<lparr>m_tracker = new_tracker, m_chunks = [], m_current = [], m_len = 0\<rparr>
           in m_chunks (if m_current s \<noteq> [] then flush s else s))"

definition split_text :: "patterns \<Rightarrow> rstr \<Rightarrow> nat \<Rightarrow> nat \<Rightarrow> rstr list \<Rightarrow> text_chunk list" where
  "split_text P text chunk_size0 chunk_overlap seps =
     (if text = [] then []
      else let chunk_size = (if chunk_size0 = 0 then default_chunk_size else chunk_size0);
               protected = protected_spans P text;
               units = build_units_with_protection P text protected seps chunk_size
           in merge_units P units chunk_size chunk_overlap)"

end
