(* ===== verification/F64.thy ===== *)
theory F64
  imports Kb_Prelude Complex_Main
begin

text \<open>
  Rust's \<^verbatim>\<open>f64\<close> for the values the chunker computes: finite and not negative.  A number is
  \<open>(m, e)\<close>, standing for \<open>m * 2 ^ e\<close>, and every operation rounds its exact result to 53 significant bits,
  ties to even, as IEEE 754 prescribes.  All values the program forms lie far inside the range of normal
  numbers (ratios of lengths, token counts), so overflow and subnormal numbers do not arise.
\<close>

type_synonym f64 = "nat \<times> int"

fun ilog2 :: "nat \<Rightarrow> nat" where
  "ilog2 n = (if n < 2 then 0 else Suc (ilog2 (n div 2)))"

declare ilog2.simps [simp del]

definition half_even :: "nat \<Rightarrow> nat \<Rightarrow> nat" where
  "half_even n d = (let q = n div d; r = n mod d in if 2 * r < d \<or> (2 * r = d \<and> even q) then q else q + 1)"

definition round_exp :: "nat \<Rightarrow> nat \<Rightarrow> int" where
  "round_exp n d =
     (let e = int (ilog2 n) - int (ilog2 d) - 52
      in if n * 2 ^ nat (- e) < 2 ^ 52 * (d * 2 ^ nat e) then e - 1 else e)"

definition round_ratio :: "nat \<Rightarrow> nat \<Rightarrow> f64" where
  "round_ratio n d =
     (if n = 0 then (0, 0)
      else let e = round_exp n d in (half_even (n * 2 ^ nat (- e)) (d * 2 ^ nat e), e))"

definition f64_shift :: "int \<Rightarrow> f64 \<Rightarrow> f64" where
  "f64_shift k x = (fst x, snd x + k)"

definition f64_of_nat :: "nat \<Rightarrow> f64" where
  "f64_of_nat n = round_ratio n 1"

definition f64_mul :: "f64 \<Rightarrow> f64 \<Rightarrow> f64" where
  "f64_mul x y = f64_shift (snd x + snd y) (round_ratio (fst x * fst y) 1)"

definition f64_div :: "f64 \<Rightarrow> f64 \<Rightarrow> f64" where
  "f64_div x y = f64_shift (snd x - snd y) (round_ratio (fst x) (fst y))"

definition at_exp :: "int \<Rightarrow> f64 \<Rightarrow> nat" where
  "at_exp e x = fst x * 2 ^ nat (snd x - e)"

definition f64_add :: "f64 \<Rightarrow> f64 \<Rightarrow> f64" where
  "f64_add x y = (let e = min (snd x) (snd y) in f64_shift e (round_ratio (at_exp e x + at_exp e y) 1))"

text \<open>The absolute value of a difference; the program only squares it.\<close>

definition f64_dist :: "f64 \<Rightarrow> f64 \<Rightarrow> f64" where
  "f64_dist x y =
     (let e = min (snd x) (snd y); a = at_exp e x; b = at_exp e y
      in f64_shift e (round_ratio (if a \<ge> b then a - b else b - a) 1))"

definition f64_less :: "f64 \<Rightarrow> f64 \<Rightarrow> bool" where
  "f64_less x y \<longleftrightarrow> (let e = min (snd x) (snd y) in at_exp e x < at_exp e y)"

definition f64_le :: "f64 \<Rightarrow> f64 \<Rightarrow> bool" where
  "f64_le x y \<longleftrightarrow> \<not> f64_less y x"

text \<open>\<^verbatim>\<open>as usize\<close> truncates and saturates at the largest 64-bit value.\<close>

definition f64_to_usize :: "f64 \<Rightarrow> nat" where
  "f64_to_usize x = min (2 ^ 64 - 1) (fst x * 2 ^ nat (snd x) div 2 ^ nat (- snd x))"

text \<open>
  \<^verbatim>\<open>sqrt\<close> rounds the exact root: the argument is scaled to an even exponent at which the integer root
  has 53 bits, and the root is rounded up when the remainder exceeds it.
\<close>

fun isqrt_bits :: "nat \<Rightarrow> nat \<Rightarrow> nat \<Rightarrow> nat" where
  "isqrt_bits n r 0 = r"
| "isqrt_bits n r (Suc b) = (let t = r + 2 ^ b in isqrt_bits n (if t * t \<le> n then t else r) b)"

definition f64_sqrt :: "f64 \<Rightarrow> f64" where
  "f64_sqrt x =
     (if fst x = 0 then (0, 0)
      else let k0 = 105 - int (ilog2 (fst x)); k = (if even (snd x - k0) then k0 else k0 - 1);
               n = fst x * 2 ^ nat k; r = isqrt_bits n 0 53
           in (if n - r * r > r then r + 1 else r, (snd x - k) div 2))"

subsection \<open>Values and rounding\<close>

definition val :: "f64 \<Rightarrow> real" where
  "val x = real (fst x) * 2 powr real_of_int (snd x)"

definition ulp :: real where
  "ulp = 1 / 2 ^ 53"

lemma ilog2_bounds: "0 < n \<Longrightarrow> 2 ^ ilog2 n \<le> n \<and> n < 2 ^ Suc (ilog2 n)"
proof (induction n rule: ilog2.induct)
  case (1 n)
  show ?case
  proof (cases "n < 2")
    case True
    then have "n = 1" using 1 by simp
    then show ?thesis by (simp add: ilog2.simps)
  next
    case False
    then have "2 ^ ilog2 (n div 2) \<le> n div 2 \<and> n div 2 < 2 ^ Suc (ilog2 (n div 2))" using 1 by simp
    moreover have "ilog2 n = Suc (ilog2 (n div 2))" using False by (subst ilog2.simps) simp
    ultimately show ?thesis by auto
  qed
qed

lemma half_even_error:
  assumes "0 < d"
  shows "\<bar>real (half_even n d) - real n / real d\<bar> \<le> 1 / 2"
proof -
  define q r where "q = n div d" and "r = n mod d"
  have n: "n = q * d + r" by (simp add: q_def r_def)
  have r: "r < d" using assms by (simp add: r_def)
  have eq: "real n / real d = real q + real r / real d" using assms by (simp add: n add_divide_distrib)
  have "0 \<le> real r / real d" "real r / real d \<le> 1" using assms r by simp_all
  moreover have "real r / real d \<le> 1 / 2" if "2 * r \<le> d" using that assms by (simp add: field_simps)
  moreover have "1 / 2 \<le> real r / real d" if "\<not> 2 * r < d" using that assms by (simp add: field_simps)
  ultimately show ?thesis
    unfolding half_even_def Let_def q_def [symmetric] r_def [symmetric] eq by (auto simp: abs_le_iff)
qed

lemma powr_nat_split: "2 powr real_of_int e = 2 ^ nat e / 2 ^ nat (- e)"
  by (cases "0 \<le> e") (auto simp: powr_real_of_int powr_minus inverse_eq_divide)

lemma round_exp_bound:
  assumes "0 < n" and "0 < d"
  shows "2 ^ 52 * 2 powr real_of_int (round_exp n d) \<le> real n / real d"
proof -
  define a b where "a = ilog2 n" and "b = ilog2 d"
  define e where "e = int a - int b - 52"
  show ?thesis
  proof (cases "n * 2 ^ nat (- e) < 2 ^ 52 * (d * 2 ^ nat e)")
    case True
    have "real (2 ^ a) \<le> real n" using ilog2_bounds [OF assms(1)] unfolding a_def of_nat_le_iff by simp
    moreover have "real d \<le> real (2 ^ Suc b)" using ilog2_bounds [OF assms(2)] unfolding b_def of_nat_le_iff by simp
    ultimately have "2 ^ a / 2 ^ Suc b \<le> real n / real d" using assms by (intro frac_le) simp_all
    moreover have "2 ^ 52 * 2 powr real_of_int (e - 1) = 2 powr (real a - real (Suc b))"
    proof -
      have "2 ^ 52 * 2 powr real_of_int (e - 1) = 2 powr 52 * 2 powr real_of_int (e - 1)"
        using powr_realpow [of 2 52] by simp
      also have "\<dots> = 2 powr (real a - real (Suc b))" unfolding powr_add [symmetric] by (simp add: e_def diff_diff_eq add.commute)
      finally show ?thesis .
    qed
    moreover have "2 powr (real a - real (Suc b)) = 2 ^ a / 2 ^ Suc b"
      unfolding powr_diff by (simp only: powr_realpow [OF zero_less_numeral])
    ultimately show ?thesis using True by (simp add: round_exp_def Let_def a_def b_def e_def)
  next
    case False
    then have "real (2 ^ 52 * (d * 2 ^ nat e)) \<le> real (n * 2 ^ nat (- e))" unfolding of_nat_le_iff by simp
    then have "2 ^ 52 * (2 ^ nat e / 2 ^ nat (- e)) \<le> real n / real d"
      using assms by (simp add: field_simps)
    moreover have "round_exp n d = e"
      using False unfolding round_exp_def Let_def a_def [symmetric] b_def [symmetric] e_def [symmetric] by simp
    ultimately show ?thesis by (simp add: powr_nat_split)
  qed
qed

lemma round_ratio_error:
  assumes "0 < d"
  shows "\<bar>val (round_ratio n d) - real n / real d\<bar> \<le> real n / real d * ulp"
proof (cases "n = 0")
  case False
  define e where "e = round_exp n d"
  define N D where "N = n * 2 ^ nat (- e)" and "D = d * 2 ^ nat e"
  have pos: "0 < 2 powr real_of_int e" by simp
  have ratio: "real N / real D * 2 powr real_of_int e = real n / real d"
    by (simp add: N_def D_def powr_nat_split)
  have "val (round_ratio n d) - real n / real d
      = (real (half_even N D) - real N / real D) * 2 powr real_of_int e"
    using False unfolding ratio [symmetric]
    by (simp add: round_ratio_def val_def e_def [symmetric] N_def [symmetric] D_def [symmetric] left_diff_distrib)
  then have "\<bar>val (round_ratio n d) - real n / real d\<bar>
      = \<bar>real (half_even N D) - real N / real D\<bar> * 2 powr real_of_int e"
    using pos by (simp add: abs_mult)
  also have "\<dots> \<le> 1 / 2 * 2 powr real_of_int e"
    using half_even_error [of D N] assms pos by (intro mult_right_mono) (simp_all add: D_def)
  also have "\<dots> \<le> real n / real d * ulp"
    using round_exp_bound [of n d] False assms by (simp add: e_def ulp_def)
  finally show ?thesis .
qed (simp add: round_ratio_def val_def)

lemma val_shift: "val (f64_shift k x) = val x * 2 powr real_of_int k"
  by (simp add: val_def f64_shift_def powr_add mult.assoc)

lemma f64_of_nat_error: "\<bar>val (f64_of_nat n) - real n\<bar> \<le> real n * ulp"
  using round_ratio_error [of 1 n] by (simp add: f64_of_nat_def)

lemma f64_mul_error: "\<bar>val (f64_mul x y) - val x * val y\<bar> \<le> val x * val y * ulp"
proof -
  define p where "p = 2 powr real_of_int (snd x + snd y)"
  have v: "val x * val y = real (fst x * fst y) * p" by (simp add: val_def p_def powr_add)
  have "\<bar>val (f64_mul x y) - val x * val y\<bar> = \<bar>val (round_ratio (fst x * fst y) 1) - real (fst x * fst y)\<bar> * p"
    unfolding v f64_mul_def val_shift p_def [symmetric] left_diff_distrib [symmetric] by (simp add: abs_mult p_def)
  also have "\<dots> \<le> real (fst x * fst y) * ulp * p"
    using round_ratio_error [of 1 "fst x * fst y"] by (intro mult_right_mono) (simp_all add: p_def)
  also have "\<dots> = val x * val y * ulp" by (simp add: v)
  finally show ?thesis .
qed

lemma f64_div_error:
  assumes "0 < fst y"
  shows "\<bar>val (f64_div x y) - val x / val y\<bar> \<le> val x / val y * ulp"
proof -
  define p where "p = 2 powr real_of_int (snd x - snd y)"
  have v: "val x / val y = real (fst x) / real (fst y) * p" by (simp add: val_def p_def powr_diff)
  have "\<bar>val (f64_div x y) - val x / val y\<bar> = \<bar>val (round_ratio (fst x) (fst y)) - real (fst x) / real (fst y)\<bar> * p"
    unfolding v f64_div_def val_shift p_def [symmetric] left_diff_distrib [symmetric] by (simp add: abs_mult p_def)
  also have "\<dots> \<le> real (fst x) / real (fst y) * ulp * p"
    using round_ratio_error [OF assms, of "fst x"] by (intro mult_right_mono) (simp_all add: p_def)
  also have "\<dots> = val x / val y * ulp" by (simp add: v)
  finally show ?thesis .
qed

lemma at_exp_val: "e \<le> snd x \<Longrightarrow> real (at_exp e x) * 2 powr real_of_int e = val x"
  by (simp add: at_exp_def val_def powr_realpow [symmetric] powr_add [symmetric])

lemma f64_less_val: "f64_less x y \<longleftrightarrow> val x < val y"
proof -
  define e where "e = min (snd x) (snd y)"
  have "val x < val y \<longleftrightarrow> real (at_exp e x) * 2 powr real_of_int e < real (at_exp e y) * 2 powr real_of_int e"
    by (simp add: at_exp_val e_def)
  also have "\<dots> \<longleftrightarrow> at_exp e x < at_exp e y" by simp
  finally show ?thesis by (simp add: f64_less_def e_def Let_def)
qed

lemma f64_le_val: "f64_le x y \<longleftrightarrow> val x \<le> val y"
  by (simp add: f64_le_def f64_less_val not_less)

lemma val_nonneg [simp]: "0 \<le> val x"
  by (simp add: val_def)

lemma f64_to_usize_val: "f64_to_usize x = min (2 ^ 64 - 1) (nat \<lfloor>val x\<rfloor>)"
proof -
  have "val x = real (fst x * 2 ^ nat (snd x)) / real (2 ^ nat (- snd x))"
    by (simp add: val_def powr_nat_split)
  then have "nat \<lfloor>val x\<rfloor> = fst x * 2 ^ nat (snd x) div 2 ^ nat (- snd x)"
    by (simp only: floor_divide_of_nat_eq nat_int)
  then show ?thesis by (simp add: f64_to_usize_def)
qed

subsection \<open>Rounding is monotone at representable numbers\<close>

lemma powr_scale_le: "a * 2 powr r \<le> b * 2 powr r \<longleftrightarrow> a \<le> (b::real)"
  by simp

lemma half_even_le: "0 < d \<Longrightarrow> n \<le> k * d \<Longrightarrow> half_even n d \<le> k"
proof -
  assume d: "0 < d" and n: "n \<le> k * d"
  have q: "n div d \<le> k" using n d by (metis div_le_mono div_mult_self_is_m)
  have "n mod d = 0" if "n div d = k" using that n div_mult_mod_eq [of n d] by simp
  then have "n mod d = 0 \<or> Suc (n div d) \<le> k" using q by linarith
  then show ?thesis using q d by (auto simp: half_even_def Let_def)
qed

lemma half_even_ge: "0 < d \<Longrightarrow> k * d \<le> n \<Longrightarrow> k \<le> half_even n d"
proof -
  assume "0 < d" "k * d \<le> n"
  then have "k \<le> n div d" by (metis div_le_mono div_mult_self_is_m)
  then show ?thesis by (auto simp: half_even_def Let_def)
qed

lemma round_ratio_scaled:
  assumes "0 < n" and "0 < d"
  obtains N D :: nat where "0 < D" "real N / real D * 2 powr real_of_int (round_exp n d) = real n / real d"
    "round_ratio n d = (half_even N D, round_exp n d)"
proof
  let ?e = "round_exp n d"
  show "0 < d * 2 ^ nat ?e" using assms by simp
  show "real (n * 2 ^ nat (- ?e)) / real (d * 2 ^ nat ?e) * 2 powr real_of_int ?e = real n / real d"
    by (simp add: powr_nat_split)
  show "round_ratio n d = (half_even (n * 2 ^ nat (- ?e)) (d * 2 ^ nat ?e), ?e)"
    using assms by (simp add: round_ratio_def Let_def)
qed

lemma at_exp_nat: "e \<le> f \<Longrightarrow> real (m * 2 ^ nat (f - e)) * 2 powr real_of_int e = real m * 2 powr real_of_int f"
  using at_exp_val [of e "(m, f)"] by (simp add: at_exp_def val_def)

lemma round_le_repr:
  assumes "0 < d" and "fst z < 2 ^ 53" and le: "real n / real d \<le> val z"
  shows "val (round_ratio n d) \<le> val z"
proof (cases "n = 0")
  case False
  then have n: "0 < n" by simp
  let ?e = "round_exp n d" let ?f = "snd z"
  obtain N D :: nat where ND: "0 < D" "real N / real D * 2 powr real_of_int ?e = real n / real d"
    "round_ratio n d = (half_even N D, ?e)" using round_ratio_scaled [OF n assms(1)] by blast
  have "real (fst z) < 2 ^ 53" using assms(2) by (metis of_nat_less_numeral_power_cancel_iff of_nat_numeral)
  then have "val z < 2 ^ 53 * 2 powr real_of_int ?f" by (simp add: val_def)
  then have "2 ^ 52 * 2 powr real_of_int ?e < 2 ^ 53 * 2 powr real_of_int ?f"
    using round_exp_bound [OF n assms(1)] le by linarith
  then have "2 powr real_of_int ?e < 2 powr real_of_int (?f + 1)" by (simp add: powr_add)
  then have ef: "?e \<le> ?f" by simp
  let ?K = "fst z * 2 ^ nat (?f - ?e)"
  have K: "real ?K * 2 powr real_of_int ?e = val z" using at_exp_nat [OF ef, of "fst z"] by (simp add: val_def)
  have "real N / real D * 2 powr real_of_int ?e \<le> real ?K * 2 powr real_of_int ?e"
    using le ND(2) K by simp
  then have "real N / real D \<le> real ?K" unfolding powr_scale_le .
  then have "real N \<le> real (?K * D)" using ND(1) by (simp add: field_simps)
  then have "half_even N D \<le> ?K" by (intro half_even_le ND(1)) (metis of_nat_le_iff)
  then have "real (half_even N D) \<le> real ?K" unfolding of_nat_le_iff .
  then have "real (half_even N D) * 2 powr real_of_int ?e \<le> real ?K * 2 powr real_of_int ?e" by (intro mult_right_mono) simp_all
  then show ?thesis unfolding K ND(3) by (simp add: val_def)
qed (simp add: round_ratio_def val_def)

lemma repr_le_round:
  assumes "0 < d" and "fst z < 2 ^ 53" and le: "val z \<le> real n / real d"
  shows "val z \<le> val (round_ratio n d)"
proof (cases "n = 0")
  case True
  then show ?thesis using le by (simp add: round_ratio_def val_def)
next
  case False
  then have n: "0 < n" by simp
  let ?e = "round_exp n d" let ?f = "snd z"
  obtain N D :: nat where ND: "0 < D" "real N / real D * 2 powr real_of_int ?e = real n / real d"
    "round_ratio n d = (half_even N D, ?e)" using round_ratio_scaled [OF n assms(1)] by blast
  have ge: "real K * 2 powr real_of_int ?e \<le> val (round_ratio n d)" if K: "real K * 2 powr real_of_int ?e \<le> real n / real d" for K
  proof -
    have "real K \<le> real N / real D" using K unfolding ND(2) [symmetric] powr_scale_le .
    then have "real (K * D) \<le> real N" using ND(1) by (simp add: field_simps)
    then have "K \<le> half_even N D" by (intro half_even_ge ND(1)) (metis of_nat_le_iff)
    then show ?thesis using ND(3) by (simp add: val_def)
  qed
  show ?thesis
  proof (cases "?e \<le> ?f")
    case True
    then have K: "real (fst z * 2 ^ nat (?f - ?e)) * 2 powr real_of_int ?e = val z"
      using at_exp_nat [OF True, of "fst z"] by (simp add: val_def)
    show ?thesis using ge [of "fst z * 2 ^ nat (?f - ?e)"] le unfolding K by simp
  next
    case False
    have "real (fst z) \<le> 2 ^ 53" using assms(2) by (metis less_imp_le of_nat_le_numeral_power_cancel_iff of_nat_numeral)
    then have "val z \<le> 2 ^ 53 * 2 powr real_of_int ?f" by (simp add: val_def)
    also have "\<dots> = 2 ^ 52 * 2 powr real_of_int (?f + 1)" by (simp add: powr_add)
    also have "\<dots> \<le> real (2 ^ 52) * 2 powr real_of_int ?e" using False by simp
    also have "\<dots> \<le> val (round_ratio n d)" using ge [of "2 ^ 52"] round_exp_bound [OF n assms(1)] by simp
    finally show ?thesis .
  qed
qed

lemma f64_of_nat_exact:
  assumes "n < 2 ^ 53"
  shows "val (f64_of_nat n) = real n"
  using round_le_repr [of 1 "(n, 0)" n] repr_le_round [of 1 "(n, 0)" n] assms
  by (simp add: f64_of_nat_def val_def antisym)

lemma f64_of_nat_pos:
  assumes "0 < n" and "n < 2 ^ 53"
  shows "0 < fst (f64_of_nat n)"
  using f64_of_nat_exact [OF assms(2)] assms(1) by (auto simp: val_def intro: Suc_leI gr0I)

lemma f64_div_le_repr:
  assumes "0 < fst y" and "fst z < 2 ^ 53" and "val x / val y \<le> val z"
  shows "val (f64_div x y) \<le> val z"
proof -
  let ?k = "snd x - snd y"
  have v: "val x / val y = real (fst x) / real (fst y) * 2 powr real_of_int ?k" by (simp add: val_def powr_diff)
  have z: "val (f64_shift (- ?k) z) * 2 powr real_of_int ?k = val z"
    unfolding val_shift mult.assoc powr_add [symmetric] by simp
  have "real (fst x) / real (fst y) \<le> val (f64_shift (- ?k) z)"
    using assms(3) unfolding v by (subst (asm) z [symmetric]) (simp only: powr_scale_le)
  then have "val (round_ratio (fst x) (fst y)) \<le> val (f64_shift (- ?k) z)"
    using assms by (intro round_le_repr) (simp_all add: f64_shift_def)
  then show ?thesis unfolding f64_div_def by (subst z [symmetric], subst val_shift) (simp only: powr_scale_le)
qed

lemma f64_repr_le_div:
  assumes "0 < fst y" and "fst z < 2 ^ 53" and "val z \<le> val x / val y"
  shows "val z \<le> val (f64_div x y)"
proof -
  let ?k = "snd x - snd y"
  have v: "val x / val y = real (fst x) / real (fst y) * 2 powr real_of_int ?k" by (simp add: val_def powr_diff)
  have z: "val (f64_shift (- ?k) z) * 2 powr real_of_int ?k = val z"
    unfolding val_shift mult.assoc powr_add [symmetric] by simp
  have "val (f64_shift (- ?k) z) \<le> real (fst x) / real (fst y)"
    using assms(3) unfolding v by (subst (asm) z [symmetric]) (simp only: powr_scale_le)
  then have "val (f64_shift (- ?k) z) \<le> val (round_ratio (fst x) (fst y))"
    using assms by (intro repr_le_round) (simp_all add: f64_shift_def)
  then show ?thesis unfolding f64_div_def by (subst z [symmetric], subst val_shift) (simp only: powr_scale_le)
qed

end
