(* ===== verification/Chunk_Profile.thy ===== *)
theory Chunk_Profile
  imports Splitter F64
begin

text \<open>
  \<^verbatim>\<open>chunker/tokens.rs\<close>, \<^verbatim>\<open>chunker/profiler.rs\<close> and \<^verbatim>\<open>chunker/validator.rs\<close>: the language of a text, the
  number of characters a token budget allows, the structure profile of a document with the chain of
  strategies it selects, and the check of a tier's chunks.  The regular expressions are those of
  \<open>patterns\<close>; ratios are doubles of theory \<open>F64\<close>.
\<close>

subsection \<open>Tokens and languages\<close>

definition f64_0_9 :: f64 where "f64_0_9 = (8106479329266893, -53)"
definition f64_1_7 :: f64 where "f64_1_7 = (7656119366529843, -52)"
definition f64_0_005 :: f64 where "f64_0_005 = (5764607523034235, -60)"
definition f64_0_15 :: f64 where "f64_0_15 = (5404319552844595, -55)"
definition f64_0_3 :: f64 where "f64_0_3 = (5404319552844595, -54)"

definition chars_per_token :: "rstr \<Rightarrow> f64" where
  "chars_per_token lang =
     (if lang = lang_english then (4, 0)
      else if lang = lang_german then (9, -1)
      else if lang = lang_chinese then f64_1_7
      else (3, 0))"

definition chars_for_token_limit :: "nat \<Rightarrow> rstr \<Rightarrow> nat" where
  "chars_for_token_limit tokens lang =
     (if tokens = 0 then 0
      else f64_to_usize (f64_mul (f64_mul (f64_of_nat tokens) (chars_per_token lang)) f64_0_9))"

definition is_cjk :: "nat \<Rightarrow> bool" where
  "is_cjk r \<longleftrightarrow> (0x4E00 \<le> r \<and> r \<le> 0x9FFF) \<or> (0x3400 \<le> r \<and> r \<le> 0x4DBF) \<or> (0xAC00 \<le> r \<and> r \<le> 0xD7AF)
     \<or> (0x3040 \<le> r \<and> r \<le> 0x309F) \<or> (0x30A0 \<le> r \<and> r \<le> 0x30FF)"

definition is_german_umlaut :: "nat \<Rightarrow> bool" where
  "is_german_umlaut r \<longleftrightarrow> r \<in> {0xE4, 0xF6, 0xFC, 0xC4, 0xD6, 0xDC, 0xDF}"

definition is_ascii_alphabetic :: "nat \<Rightarrow> bool" where
  "is_ascii_alphabetic r \<longleftrightarrow> (65 \<le> r \<and> r \<le> 90) \<or> (97 \<le> r \<and> r \<le> 122)"

definition byte_prefix :: "rstr \<Rightarrow> nat \<Rightarrow> rstr" where
  "byte_prefix s max_bytes =
     (if byte_len s \<le> max_bytes then s
      else byte_slice s 0 (case find (is_boundary s) (rev [1..<Suc max_bytes]) of Some n \<Rightarrow> n | None \<Rightarrow> 0))"

definition utf8_bytes :: "nat \<Rightarrow> nat list" where
  "utf8_bytes c =
     (if c < 0x80 then [c]
      else if c < 0x800 then [0xC0 + c div 64, 0x80 + c mod 64]
      else if c < 0x10000 then [0xE0 + c div 4096, 0x80 + c div 64 mod 64, 0x80 + c mod 64]
      else [0xF0 + c div 262144, 0x80 + c div 4096 mod 64, 0x80 + c div 64 mod 64, 0x80 + c mod 64])"

definition contains_lower :: "rstr \<Rightarrow> rstr \<Rightarrow> bool" where
  "contains_lower haystack needle =
     (let hbytes = concat (map utf8_bytes haystack); nbytes = concat (map utf8_bytes needle) in
      if length hbytes < length nbytes then False
      else list_ex (\<lambda>i. list_all (\<lambda>j. let h = hbytes ! (i + j) in
                                     (if 65 \<le> h \<and> h \<le> 90 then h + 32 else h) = nbytes ! j) [0..<length nbytes])
             [0..<Suc (length hbytes - length nbytes)])"

definition german_words :: "rstr list" where
  "german_words = map lit ['' der '', '' die '', '' das '', '' und '', '' ist '', '' nicht '', '' mit '', '' auf '']"

definition has_german_words :: "rstr \<Rightarrow> bool" where
  "has_german_words s = list_ex (contains_lower (byte_prefix s 512)) german_words"

definition count_script :: "nat \<Rightarrow> nat \<times> nat \<times> nat \<Rightarrow> nat \<times> nat \<times> nat" where
  "count_script r n = (case n of (cjk, latin, umlaut) \<Rightarrow>
     if is_cjk r then (cjk + 1, latin, umlaut)
     else if is_german_umlaut r then (cjk, latin + 1, umlaut + 1)
     else if is_ascii_alphabetic r then (cjk, latin + 1, umlaut) else (cjk, latin, umlaut))"

definition detect_language :: "rstr \<Rightarrow> rstr" where
  "detect_language s =
     (if s = [] then lang_mixed
      else case fold count_script s (0, 0, 0) of (cjk, latin, umlaut) \<Rightarrow>
        let total = cjk + latin in
        if total = 0 then lang_mixed
        else let cjk_ratio = f64_div (f64_of_nat cjk) (f64_of_nat total);
                 latin_ratio = f64_div (f64_of_nat latin) (f64_of_nat total)
             in if f64_le f64_0_15 cjk_ratio \<and> f64_le f64_0_15 latin_ratio then lang_mixed
                else if f64_less f64_0_3 cjk_ratio then lang_chinese
                else if umlaut > 0 \<or> has_german_words s then lang_german
                else lang_english)"

subsection \<open>The profile of a document\<close>

record doc_profile =
  total_chars :: nat
  total_lines :: nat
  avg_line_len :: f64
  std_line_len :: f64
  md_heading_counts :: "nat list"
  md_heading_total :: nat
  numbered_section_count :: nat
  all_caps_short_line_count :: nat
  blank_paragraph_breaks :: nat
  form_feed_count :: nat
  visual_sep_count :: nat
  german_chapter_count :: nat
  english_chapter_count :: nat
  chinese_chapter_count :: nat
  repeated_footer_count :: nat
  has_tables :: bool
  has_code :: bool
  code_ratio :: f64
  detected_langs :: "rstr list"

definition default_profile :: doc_profile where
  "default_profile = \<lparr>total_chars = 0, total_lines = 0, avg_line_len = (0, 0), std_line_len = (0, 0),
     md_heading_counts = replicate 7 0, md_heading_total = 0, numbered_section_count = 0, all_caps_short_line_count = 0,
     blank_paragraph_breaks = 0, form_feed_count = 0, visual_sep_count = 0, german_chapter_count = 0,
     english_chapter_count = 0, chinese_chapter_count = 0, repeated_footer_count = 0, has_tables = False, has_code = False,
     code_ratio = (0, 0), detected_langs = []\<rparr>"

definition heading_density :: "doc_profile \<Rightarrow> f64" where
  "heading_density p =
     (if total_lines p = 0 then (0, 0) else f64_div (f64_of_nat (md_heading_total p)) (f64_of_nat (total_lines p)))"

definition dominant_heading_level :: "doc_profile \<Rightarrow> nat" where
  "dominant_heading_level p =
     (if md_heading_total p = 0 then 0
      else case find (\<lambda>level. md_heading_counts p ! level \<ge> 3) [1..<7] of
        Some level \<Rightarrow> level
      | None \<Rightarrow> (case find (\<lambda>level. md_heading_counts p ! level > 0) (rev [1..<7]) of Some level \<Rightarrow> level | None \<Rightarrow> 0))"

definition heuristic_marker_total :: "doc_profile \<Rightarrow> nat" where
  "heuristic_marker_total p = numbered_section_count p + german_chapter_count p + english_chapter_count p
     + chinese_chapter_count p + all_caps_short_line_count p + visual_sep_count p + form_feed_count p"

definition match_heading :: "patterns \<Rightarrow> rstr \<Rightarrow> nat list \<Rightarrow> bool \<times> nat list" where
  "match_heading P line counts =
     (case markdown_heading P line of
        None \<Rightarrow> (False, counts)
      | Some (hashes, title) \<Rightarrow>
          (let level = (case hashes of Some m \<Rightarrow> byte_len m | None \<Rightarrow> 0) in
           if \<not> (1 \<le> level \<and> level \<le> 6) then (False, counts) else (True, counts[level := counts ! level + 1])))"

text \<open>The loop over the lines carries the profile, the fence flag, the code characters and the line lengths.\<close>

record profile_loop =
  pl_profile :: doc_profile
  pl_fence :: bool
  pl_code :: nat
  pl_lengths :: "f64 list"

definition count_markers :: "patterns \<Rightarrow> rstr \<Rightarrow> doc_profile \<Rightarrow> doc_profile" where
  "count_markers P line p =
     (let p1 = (if numbered_section P line then p\<lparr>numbered_section_count := numbered_section_count p + 1\<rparr> else p);
          p2 = (if german_chapter P line then p1\<lparr>german_chapter_count := german_chapter_count p1 + 1\<rparr> else p1);
          p3 = (if english_chapter P line then p2\<lparr>english_chapter_count := english_chapter_count p2 + 1\<rparr> else p2);
          p4 = (if chinese_chapter P line then p3\<lparr>chinese_chapter_count := chinese_chapter_count p3 + 1\<rparr> else p3);
          p5 = (if all_caps_heading P line then p4\<lparr>all_caps_short_line_count := all_caps_short_line_count p4 + 1\<rparr> else p4);
          p6 = (if visual_separator P line then p5\<lparr>visual_sep_count := visual_sep_count p5 + 1\<rparr> else p5);
          p7 = (if page_footer P line then p6\<lparr>repeated_footer_count := repeated_footer_count p6 + 1\<rparr> else p6);
          trimmed = trim line
      in if starts_with_lit [pipe] trimmed \<and> ends_with_lit [pipe] trimmed then p7\<lparr>has_tables := True\<rparr> else p7)"

definition profile_line :: "patterns \<Rightarrow> rstr \<Rightarrow> profile_loop \<Rightarrow> profile_loop" where
  "profile_line P line l =
     (let p = pl_profile l in
      if starts_with_lit (lit ''```'') (trim line) then l\<lparr>pl_fence := \<not> pl_fence l, pl_profile := p\<lparr>has_code := True\<rparr>\<rparr>
      else if pl_fence l then l\<lparr>pl_code := pl_code l + length line\<rparr>
      else
        let l1 = l\<lparr>pl_lengths := pl_lengths l @ [f64_of_nat (length line)]\<rparr>
        in case match_heading P line (md_heading_counts p) of (hit, counts) \<Rightarrow>
          if hit then l1\<lparr>pl_profile := p\<lparr>md_heading_counts := counts, md_heading_total := md_heading_total p + 1\<rparr>\<rparr>
          else l1\<lparr>pl_profile := count_markers P line p\<rparr>)"

definition line_stats :: "f64 list \<Rightarrow> doc_profile \<Rightarrow> doc_profile" where
  "line_stats lengths p =
     (if lengths = [] then p
      else let n = f64_of_nat (length lengths);
               avg = f64_div (fold (\<lambda>l s. f64_add s l) lengths (0, 0)) n;
               var = f64_div (fold (\<lambda>l s. f64_add s (let d = f64_dist l avg in f64_mul d d)) lengths (0, 0)) n
           in p\<lparr>avg_line_len := avg, std_line_len := f64_sqrt var\<rparr>)"

definition profile_document :: "patterns \<Rightarrow> rstr \<Rightarrow> doc_profile" where
  "profile_document P text =
     (if text = [] then default_profile
      else
        let lines = split_char newline text;
            p0 = default_profile\<lparr>total_chars := length text, form_feed_count := count_list text 12, total_lines := length lines\<rparr>;
            l = fold (profile_line P) lines \<lparr>pl_profile = p0, pl_fence = False, pl_code = 0, pl_lengths = []\<rparr>;
            p1 = line_stats (pl_lengths l) (pl_profile l);
            p2 = (if total_chars p1 > 0
                  then p1\<lparr>code_ratio := f64_div (f64_of_nat (pl_code l)) (f64_of_nat (total_chars p1))\<rparr> else p1);
            p3 = p2\<lparr>blank_paragraph_breaks := length (literal_matches [newline, newline, newline] 0 text)\<rparr>;
            lang = detect_language (byte_prefix text 4096)
        in p3\<lparr>detected_langs := (if lang = lang_mixed then [lang_english, lang_german, lang_chinese] else [lang])\<rparr>)"

subsection \<open>Strategies\<close>

datatype strategy_tier = Heading | Heuristic | Legacy

definition strategy_tier_as_str :: "strategy_tier \<Rightarrow> rstr" where
  "strategy_tier_as_str t = (case t of Heading \<Rightarrow> lit ''heading'' | Heuristic \<Rightarrow> lit ''heuristic'' | Legacy \<Rightarrow> lit ''legacy'')"

definition select_strategy :: "doc_profile \<Rightarrow> strategy_tier list" where
  "select_strategy p =
     (if md_heading_total p \<ge> 3 \<and> f64_less f64_0_005 (heading_density p) \<and> dominant_heading_level p > 0 then [Heading] else [])
     @ (if heuristic_marker_total p \<ge> 5 \<or> form_feed_count p > 0
           \<or> german_chapter_count p + english_chapter_count p + chinese_chapter_count p > 0 then [Heuristic] else [])
     @ [Legacy]"

subsection \<open>Validation of a tier\<close>

definition validate_chunks :: "text_chunk list \<Rightarrow> nat \<Rightarrow> nat \<Rightarrow> bool" where
  "validate_chunks chunks n_chars chunk_size =
     (if chunks = [] then False
      else if length chunks = 1 \<and> n_chars > 2 * chunk_size then False
      else let lens = map (\<lambda>c. length (content c)) chunks;
               max_len = fold max lens 0;
               tiny = length (filter (\<lambda>(i, l). i + 1 \<noteq> length chunks \<and> l < 50) (enumerate 0 lens))
           in if tiny > length chunks div 4 \<and> tiny > 2 then False
              else if max_len < chunk_size div 4 \<and> n_chars > chunk_size then False
              else if chunk_size > 0 \<and> max_len > 2 * chunk_size then False
              else True)"

end
