(* ===== verification/Heading_Split.thy ===== *)
theory Heading_Split
  imports Chunk_Profile
begin

text \<open>
  The heading tier: the stack of open headings of \<^verbatim>\<open>chunker/heading_hierarchy.rs\<close> and the splitter of
  \<^verbatim>\<open>chunker/heading.rs\<close>, which cuts a document at the headings of its dominant level, carries the path of
  open headings as the context header of each chunk, hands sections that are too long to the legacy splitter
  and joins neighbouring tiny sections.  The configuration record is the one of \<^verbatim>\<open>chunker/mod.rs\<close>.
\<close>

record splitter_config =
  chunk_size :: nat
  chunk_overlap :: nat
  separators :: "rstr list"
  strategy :: rstr
  token_limit :: nat
  languages :: "rstr list"

definition default_config :: splitter_config where
  "default_config = \<lparr>chunk_size = 0, chunk_overlap = 0, separators = [], strategy = [], token_limit = 0, languages = []\<rparr>"

definition split_cfg :: "patterns \<Rightarrow> splitter_config \<Rightarrow> rstr \<Rightarrow> text_chunk list" where
  "split_cfg P cfg text = split_text P text (chunk_size cfg) (chunk_overlap cfg) (separators cfg)"

subsection \<open>The stack of open headings\<close>

record heading_hierarchy =
  stack :: "rstr list"
  depth :: nat

definition new_hierarchy :: heading_hierarchy where
  "new_hierarchy = \<lparr>stack = replicate 6 [], depth = 0\<rparr>"

definition heading_level :: "rstr option \<times> rstr option \<Rightarrow> nat" where
  "heading_level caps = (case fst caps of Some m \<Rightarrow> byte_len m | None \<Rightarrow> 0)"

definition observe :: "patterns \<Rightarrow> rstr \<Rightarrow> heading_hierarchy \<Rightarrow> heading_hierarchy \<times> nat \<times> rstr" where
  "observe P line h =
     (case markdown_heading P line of
        None \<Rightarrow> (h, 0, [])
      | Some caps \<Rightarrow>
          (let level = heading_level caps in
           if \<not> (1 \<le> level \<and> level \<le> 6) then (h, 0, [])
           else
             let heading = (case snd caps of Some m \<Rightarrow> trim m | None \<Rightarrow> []);
                 st = fold (\<lambda>i s. s[i := []]) [level..<6] ((stack h)[level - 1 := heading]);
                 d = (if level > depth h then level
                      else fold (\<lambda>i d. if st ! i \<noteq> [] then Suc i else d) [0..<6] 0)
             in (\<lparr>stack = st, depth = d\<rparr>, level, heading)))"

definition hash :: nat where "hash = 35"

definition breadcrumb_line :: "nat \<Rightarrow> rstr \<Rightarrow> rstr" where
  "breadcrumb_line i title = replicate (i + 1) hash @ [32] @ title"

definition breadcrumb_with_hashes :: "heading_hierarchy \<Rightarrow> rstr" where
  "breadcrumb_with_hashes h =
     (if depth h = 0 then []
      else join [newline] (map (\<lambda>i. breadcrumb_line i (stack h ! i)) (filter (\<lambda>i. stack h ! i \<noteq> []) [0..<depth h])))"

subsection \<open>Sections\<close>

record heading_boundary =
  hb_start :: nat
  hb_line :: rstr

definition is_fence :: "rstr \<Rightarrow> bool" where
  "is_fence line = starts_with_lit (lit ''```'') (trim line)"

definition next_pos :: "nat \<Rightarrow> rstr \<Rightarrow> rstr list \<Rightarrow> nat" where
  "next_pos pos line rest = pos + length line + (if rest \<noteq> [] then 1 else 0)"

fun boundaries_from :: "patterns \<Rightarrow> nat \<Rightarrow> rstr list \<Rightarrow> nat \<Rightarrow> bool \<Rightarrow> heading_boundary list \<Rightarrow> heading_boundary list" where
  "boundaries_from P primary [] pos in_fence bounds = bounds"
| "boundaries_from P primary (line # rest) pos in_fence bounds =
     (if is_fence line then boundaries_from P primary rest (next_pos pos line rest) (\<not> in_fence) bounds
      else
        let bounds1 =
          (if in_fence then bounds
           else case markdown_heading P line of
             None \<Rightarrow> bounds
           | Some caps \<Rightarrow>
               if 1 \<le> heading_level caps \<and> heading_level caps \<le> primary
               then (if pos > 0 then bounds @ [\<lparr>hb_start = pos, hb_line = line\<rparr>]
                     else bounds[0 := (bounds ! 0)\<lparr>hb_line := line\<rparr>])
               else bounds)
        in boundaries_from P primary rest (next_pos pos line rest) in_fence bounds1)"

definition find_heading_boundaries :: "patterns \<Rightarrow> rstr \<Rightarrow> nat \<Rightarrow> heading_boundary list" where
  "find_heading_boundaries P text primary =
     (let bounds = [\<lparr>hb_start = 0, hb_line = []\<rparr>] in
      if text = [] then bounds else boundaries_from P primary (split_char newline text) 0 False bounds)"

fun observe_lines :: "patterns \<Rightarrow> nat \<Rightarrow> rstr list \<Rightarrow> bool \<Rightarrow> heading_hierarchy \<Rightarrow> heading_hierarchy" where
  "observe_lines P primary [] in_fence h = h"
| "observe_lines P primary (line # rest) in_fence h =
     (if is_fence line then observe_lines P primary rest (\<not> in_fence) h
      else if in_fence then observe_lines P primary rest in_fence h
      else case markdown_heading P line of
        None \<Rightarrow> observe_lines P primary rest in_fence h
      | Some caps \<Rightarrow>
          observe_lines P primary rest in_fence (if heading_level caps > primary then fst (observe P line h) else h))"

definition observe_sub_headings :: "patterns \<Rightarrow> rstr \<Rightarrow> nat \<Rightarrow> heading_hierarchy \<Rightarrow> heading_hierarchy" where
  "observe_sub_headings P runes primary h =
     (if runes = [] then h else observe_lines P primary (split_char newline runes) False h)"

fun breadcrumbs_from ::
  "patterns \<Rightarrow> nat \<Rightarrow> rstr list \<Rightarrow> nat \<Rightarrow> bool \<Rightarrow> heading_hierarchy \<Rightarrow> (nat \<times> rstr) list \<Rightarrow> (nat \<times> rstr) list" where
  "breadcrumbs_from P primary [] pos in_fence h result = result"
| "breadcrumbs_from P primary (line # rest) pos in_fence h result =
     (if is_fence line then breadcrumbs_from P primary rest (next_pos pos line rest) (\<not> in_fence) h result
      else case (if in_fence then None else markdown_heading P line) of
        None \<Rightarrow> breadcrumbs_from P primary rest (next_pos pos line rest) in_fence h result
      | Some caps \<Rightarrow>
          if heading_level caps > primary
          then let h1 = fst (observe P line h) in
            breadcrumbs_from P primary rest (next_pos pos line rest) in_fence h1 (result @ [(pos, breadcrumb_with_hashes h1)])
          else breadcrumbs_from P primary rest (next_pos pos line rest) in_fence h result)"

definition section_breadcrumbs :: "patterns \<Rightarrow> rstr \<Rightarrow> nat \<Rightarrow> heading_hierarchy \<Rightarrow> (nat \<times> rstr) list" where
  "section_breadcrumbs P section primary h =
     breadcrumbs_from P primary (split_char newline section) 0 False h [(0, breadcrumb_with_hashes h)]"

fun breadcrumb_at_offset :: "(nat \<times> rstr) list \<Rightarrow> nat \<Rightarrow> rstr \<Rightarrow> rstr" where
  "breadcrumb_at_offset [] offset bc = bc"
| "breadcrumb_at_offset (e # es) offset bc = (if fst e > offset then bc else breadcrumb_at_offset es offset (snd e))"

subsection \<open>Joining tiny chunks\<close>

definition common_heading_prefix :: "rstr \<Rightarrow> rstr \<Rightarrow> rstr" where
  "common_heading_prefix a b =
     (if a = b then a
      else let la = split_char newline a; lb = split_char newline b;
               common = length (takeWhile (\<lambda>(x, y). x = y) (zip la lb))
           in if common = 0 then [] else join [newline] (take common la))"

fun coalesce_from :: "nat \<Rightarrow> nat \<Rightarrow> text_chunk \<Rightarrow> nat \<Rightarrow> text_chunk list \<Rightarrow> text_chunk list" where
  "coalesce_from target limit cur cur_len [] = [cur]"
| "coalesce_from target limit cur cur_len (nxt # rest) =
     (let next_len = length (content nxt); shared = common_heading_prefix (context_header cur) (context_header nxt) in
      if shared \<noteq> [] \<and> chunk_end cur = chunk_start nxt \<and> cur_len < target \<and> cur_len + next_len \<le> limit
      then coalesce_from target limit
             (cur\<lparr>content := content cur @ content nxt, context_header := shared, chunk_end := chunk_end nxt\<rparr>)
             (cur_len + next_len) rest
      else cur # coalesce_from target limit nxt next_len rest)"

definition coalesce_tiny_chunks :: "text_chunk list \<Rightarrow> nat \<Rightarrow> text_chunk list" where
  "coalesce_tiny_chunks input limit =
     (if length input \<le> 1 \<or> limit = 0 then input
      else let out = coalesce_from (max (limit div 2) 200) limit (hd input) (length (content (hd input))) (tl input)
           in map (\<lambda>(i, c). c\<lparr>chunk_seq := i\<rparr>) (enumerate 0 out))"

subsection \<open>The splitter\<close>

definition section_chunks ::
  "patterns \<Rightarrow> splitter_config \<Rightarrow> nat \<Rightarrow> heading_hierarchy \<Rightarrow> rstr \<Rightarrow> nat \<Rightarrow> nat \<Rightarrow> nat \<Rightarrow> text_chunk list" where
  "section_chunks P cfg primary h runes seq start end_rune =
     (let section = slice runes start end_rune; breadcrumb = breadcrumb_with_hashes h in
      if length breadcrumb + 2 + length section \<le> chunk_size cfg
      then [\<lparr>content = section, context_header = breadcrumb, chunk_seq = seq, chunk_start = start, chunk_end = end_rune\<rparr>]
      else let bcs = section_breadcrumbs P section primary h in
        map (\<lambda>(i, sub). \<lparr>content = content sub, context_header = breadcrumb_at_offset bcs (chunk_start sub) breadcrumb,
               chunk_seq = seq + i, chunk_start = start + chunk_start sub, chunk_end = start + chunk_end sub\<rparr>)
          (enumerate 0 (split_cfg P cfg section)))"

fun heading_sections ::
  "patterns \<Rightarrow> splitter_config \<Rightarrow> nat \<Rightarrow> rstr \<Rightarrow> heading_boundary list \<Rightarrow> heading_hierarchy \<Rightarrow> nat \<Rightarrow> text_chunk list" where
  "heading_sections P cfg primary runes [] h seq = []"
| "heading_sections P cfg primary runes (b # bs) h seq =
     (let end_rune = (case bs of [] \<Rightarrow> length runes | n # _ \<Rightarrow> hb_start n);
          h1 = (if hb_line b \<noteq> [] then fst (observe P (hb_line b) h) else h);
          h2 = observe_sub_headings P (slice runes (hb_start b) end_rune) primary h1
      in if hb_start b \<ge> end_rune then heading_sections P cfg primary runes bs h2 seq
         else let cs = section_chunks P cfg primary h1 runes seq (hb_start b) end_rune
              in cs @ heading_sections P cfg primary runes bs h2 (seq + length cs))"

definition split_by_headings :: "patterns \<Rightarrow> rstr \<Rightarrow> splitter_config \<Rightarrow> doc_profile option \<Rightarrow> text_chunk list" where
  "split_by_headings P text cfg profile =
     (if text = [] then []
      else let p = (case profile of Some p \<Rightarrow> p | None \<Rightarrow> profile_document P text);
               primary = dominant_heading_level p
           in if primary = 0 then split_cfg P cfg text
              else let bounds = find_heading_boundaries P text primary in
                if length bounds \<le> 1 then split_cfg P cfg text
                else coalesce_tiny_chunks (heading_sections P cfg primary text bounds new_hierarchy 0) (chunk_size cfg))"

end
