(* ===== verification/Heuristic_Split.thy ===== *)
theory Heuristic_Split
  imports Heading_Split
begin

text \<open>
  The heuristic tier of \<^verbatim>\<open>chunker/heuristic.rs\<close>: boundaries at form feeds, chapter and section
  markers, capitals, separators, page footers and runs of blank lines, none inside a protected span, between
  which blocks are collected up to the chunk size; a new chunk starts at a boundary or line inside the
  overlap window.
\<close>

record boundary =
  b_start :: nat
  b_priority :: int

definition prio_form_feed :: int where "prio_form_feed = 100"
definition prio_numbered_head :: int where "prio_numbered_head = 90"
definition prio_chapter_marker :: int where "prio_chapter_marker = 85"
definition prio_all_caps_heading :: int where "prio_all_caps_heading = 70"
definition prio_visual_sep :: int where "prio_visual_sep = 60"
definition prio_page_footer :: int where "prio_page_footer = 50"
definition prio_blank_block :: int where "prio_blank_block = 40"

definition line_priority :: "patterns \<Rightarrow> rstr list \<Rightarrow> rstr \<Rightarrow> int option" where
  "line_priority P langs line =
     (if list_ex (\<lambda>pat. pat line) (chapter_patterns_for_langs P langs) then Some prio_chapter_marker
      else if numbered_section P line then Some prio_numbered_head
      else if all_caps_heading P line then Some prio_all_caps_heading
      else if visual_separator P line then Some prio_visual_sep
      else if page_footer P line then Some prio_page_footer
      else None)"

fun line_boundaries :: "patterns \<Rightarrow> rstr list \<Rightarrow> rstr list \<Rightarrow> nat \<Rightarrow> bool \<Rightarrow> boundary list" where
  "line_boundaries P langs [] pos in_fence = []"
| "line_boundaries P langs (line # rest) pos in_fence =
     (if is_fence line then line_boundaries P langs rest (next_pos pos line rest) (\<not> in_fence)
      else (if in_fence then []
            else case line_priority P langs line of None \<Rightarrow> [] | Some p \<Rightarrow> [\<lparr>b_start = pos, b_priority = p\<rparr>])
           @ line_boundaries P langs rest (next_pos pos line rest) in_fence)"

fun dedupe :: "nat \<Rightarrow> boundary list \<Rightarrow> boundary list" where
  "dedupe prev [] = []"
| "dedupe prev (b # bs) = (if b_start b \<noteq> prev then b # dedupe (b_start b) bs else dedupe prev bs)"

definition usize_max :: nat where "usize_max = 2 ^ 64 - 1"

definition find_heuristic_boundaries :: "patterns \<Rightarrow> rstr \<Rightarrow> rstr list \<Rightarrow> boundary list" where
  "find_heuristic_boundaries P text langs =
     (let form_feeds = map (\<lambda>(i, r). \<lparr>b_start = i, b_priority = prio_form_feed\<rparr>) (filter (\<lambda>(i, r). r = 12) (enumerate 0 text));
          marked = line_boundaries P langs (split_char newline text) 0 False;
          blanks = map (\<lambda>(a, b). \<lparr>b_start = length (byte_slice text 0 b), b_priority = prio_blank_block\<rparr>) (excessive_blanks P text);
          bounds = form_feeds @ marked @ blanks
      in if bounds = [] then []
         else dedupe usize_max (sort_key b_start (sort_key (\<lambda>b. - b_priority b) bounds)))"

text \<open>A boundary is dropped when a span that starts before it ends after it; spans are in order.\<close>

fun inside_span :: "nat \<Rightarrow> span list \<Rightarrow> bool" where
  "inside_span pos [] = False"
| "inside_span pos (s # ss) = (if fst s \<ge> pos then False else if pos < snd s then True else inside_span pos ss)"

definition drop_bounds_inside_spans :: "boundary list \<Rightarrow> span list \<Rightarrow> boundary list" where
  "drop_bounds_inside_spans bounds spans =
     (if spans = [] then bounds else filter (\<lambda>b. \<not> inside_span (b_start b) spans) bounds)"

text \<open>The chunks so far; the running number of the next one is their count.\<close>

definition append_chunk :: "rstr \<Rightarrow> nat \<Rightarrow> nat \<Rightarrow> text_chunk list \<times> nat \<Rightarrow> text_chunk list \<times> nat" where
  "append_chunk runes start end_rune s = (case s of (out, n) \<Rightarrow>
     if end_rune \<le> start then (out, n)
     else let raw = slice runes start end_rune in
       if trim raw = [] then (out, n)
       else (out @ [\<lparr>content = raw, context_header = [], chunk_seq = n, chunk_start = start, chunk_end = end_rune\<rparr>], n + 1))"

definition append_oversize ::
  "patterns \<Rightarrow> splitter_config \<Rightarrow> rstr \<Rightarrow> nat \<Rightarrow> nat \<Rightarrow> text_chunk list \<times> nat \<Rightarrow> text_chunk list \<times> nat" where
  "append_oversize P cfg runes start end_rune s = (case s of (out, n) \<Rightarrow>
     if end_rune \<le> start then (out, n)
     else let subs = split_cfg P cfg (slice runes start end_rune) in
       (out @ map (\<lambda>(i, c). \<lparr>content = content c, context_header = [], chunk_seq = n + i,
                chunk_start = start + chunk_start c, chunk_end = start + chunk_end c\<rparr>) (enumerate 0 subs),
        n + length subs))"

fun scan_back :: "rstr \<Rightarrow> nat \<Rightarrow> nat \<Rightarrow> nat \<Rightarrow> nat" where
  "scan_back runes window_start target 0 = target"
| "scan_back runes window_start target (Suc i) =
     (if Suc i > window_start \<and> Suc i < length runes
      then (if runes ! Suc i = newline then Suc i + 1 else scan_back runes window_start target i)
      else target)"

definition apply_overlap_aligned :: "rstr \<Rightarrow> nat \<Rightarrow> nat \<Rightarrow> boundary list \<Rightarrow> nat" where
  "apply_overlap_aligned runes cur_end overlap bounds =
     (if overlap = 0 then cur_end
      else let target = cur_end - overlap; window_start = cur_end - 2 * overlap;
               hits = filter (\<lambda>s. window_start \<le> s \<and> s < cur_end) (map b_start bounds)
           in case hits of
                [] \<Rightarrow> scan_back runes window_start target target
              | h # hs \<Rightarrow> fold (\<lambda>s best. max best s) hs h)"

record heuristic_state =
  hs_out :: "text_chunk list \<times> nat"
  hs_start :: nat
  hs_end :: nat

definition min_chunk_size :: "splitter_config \<Rightarrow> nat" where
  "min_chunk_size cfg = max (chunk_size cfg div 4) 50"

definition heuristic_step ::
  "patterns \<Rightarrow> splitter_config \<Rightarrow> rstr \<Rightarrow> boundary list \<Rightarrow> boundary \<Rightarrow> heuristic_state \<Rightarrow> heuristic_state" where
  "heuristic_step P cfg runes bounds b s =
     (let next_end = b_start b; block_len = next_end - hs_end s in
      if block_len > chunk_size cfg
      then let out1 = (if hs_end s > hs_start s then append_chunk runes (hs_start s) (hs_end s) (hs_out s) else hs_out s)
           in \<lparr>hs_out = append_oversize P cfg runes (hs_end s) next_end out1, hs_start = next_end, hs_end = next_end\<rparr>
      else if next_end - hs_start s > chunk_size cfg \<and> hs_end s - hs_start s \<ge> min_chunk_size cfg
      then \<lparr>hs_out = append_chunk runes (hs_start s) (hs_end s) (hs_out s),
             hs_start = apply_overlap_aligned runes (hs_end s) (chunk_overlap cfg) bounds, hs_end = next_end\<rparr>
      else s\<lparr>hs_end := next_end\<rparr>)"

definition split_by_heuristics :: "patterns \<Rightarrow> rstr \<Rightarrow> splitter_config \<Rightarrow> text_chunk list" where
  "split_by_heuristics P text cfg =
     (if text = [] then []
      else if length text \<le> chunk_size cfg then split_cfg P cfg text
      else
        let bounds0 = find_heuristic_boundaries P text (languages cfg);
            prot = protected_spans_rune text (protected_spans P text);
            bounds1 = (if prot \<noteq> [] then drop_bounds_inside_spans bounds0 prot else bounds0)
        in if bounds1 = [] then split_cfg P cfg text
           else
             let bounds2 = bounds1 @ [\<lparr>b_start = length text, b_priority = 0\<rparr>];
                 bounds = (if b_start (hd bounds2) \<noteq> 0 then \<lparr>b_start = 0, b_priority = 0\<rparr> # bounds2 else bounds2);
                 first = b_start (hd bounds);
                 s = fold (heuristic_step P cfg text bounds) (tl bounds) \<lparr>hs_out = ([], 0), hs_start = first, hs_end = first\<rparr>
             in fst (if hs_end s > hs_start s then append_chunk text (hs_start s) (hs_end s) (hs_out s) else hs_out s))"

end
