(* ===== verification/Chunk_Strategy.thy ===== *)
theory Chunk_Strategy
  imports Heuristic_Split
begin

text \<open>
  The entry points of the chunker, \<^verbatim>\<open>chunker/strategy.rs\<close> and \<^verbatim>\<open>chunker/mod.rs\<close>: defaults of a
  configuration, the chain of tiers for a strategy, the adaptive split that takes the first tier whose chunks
  pass validation, parent and child chunks, and the chunks of the domain (\<^verbatim>\<open>store.rs\<close>).  Identifiers
  come from the parameter \<open>new_id\<close>, the \<open>n\<close>-th result of \<^verbatim>\<open>Uuid::new_v4\<close>.
\<close>

subsection \<open>Strategies\<close>

definition strategy_heading :: rstr where "strategy_heading = lit ''heading''"
definition strategy_heuristic :: rstr where "strategy_heuristic = lit ''heuristic''"
definition strategy_recursive :: rstr where "strategy_recursive = lit ''recursive''"
definition strategy_legacy :: rstr where "strategy_legacy = lit ''legacy''"

definition default_separators :: "rstr list" where
  "default_separators = [[newline, newline], [newline], [12290]]"

definition fill_defaults :: "splitter_config \<Rightarrow> splitter_config" where
  "fill_defaults cfg0 =
     (let cfg1 = (if chunk_size cfg0 = 0 then cfg0\<lparr>chunk_size := default_chunk_size\<rparr> else cfg0);
          cfg2 = (if chunk_overlap cfg1 = 0 then cfg1\<lparr>chunk_overlap := default_chunk_overlap\<rparr> else cfg1)
      in if separators cfg2 = [] then cfg2\<lparr>separators := default_separators\<rparr> else cfg2)"

definition apply_token_limit :: "splitter_config \<Rightarrow> splitter_config" where
  "apply_token_limit cfg =
     (if token_limit cfg > 0
      then let lang = (case languages cfg of [] \<Rightarrow> lang_mixed | l # _ \<Rightarrow> l);
               budget = chars_for_token_limit (token_limit cfg) lang
           in if budget > 0 \<and> (chunk_size cfg = 0 \<or> budget < chunk_size cfg)
              then cfg\<lparr>chunk_size := budget\<rparr> else cfg
      else cfg)"

definition ensure_defaults :: "splitter_config \<Rightarrow> splitter_config" where
  "ensure_defaults cfg0 =
     (let cfg = apply_token_limit (fill_defaults cfg0) in
      if chunk_size cfg > 0 \<and> chunk_overlap cfg > chunk_size cfg div 2
      then cfg\<lparr>chunk_overlap := chunk_size cfg div 2\<rparr> else cfg)"

definition resolve_chain_with_profile ::
  "patterns \<Rightarrow> rstr \<Rightarrow> splitter_config \<Rightarrow> strategy_tier list \<times> doc_profile option" where
  "resolve_chain_with_profile P text cfg =
     (if strategy cfg = strategy_heading then ([Heading, Legacy], None)
      else if strategy cfg = strategy_heuristic then ([Heuristic, Legacy], None)
      else if strategy cfg \<in> {strategy_recursive, strategy_legacy, []} then ([Legacy], None)
      else let profile = profile_document P text in (select_strategy profile, Some profile))"

definition resolve_chain :: "patterns \<Rightarrow> rstr \<Rightarrow> rstr \<Rightarrow> rstr list" where
  "resolve_chain P strat text =
     map strategy_tier_as_str (fst (resolve_chain_with_profile P text (default_config\<lparr>strategy := strat\<rparr>)))"

definition run_tier :: "patterns \<Rightarrow> strategy_tier \<Rightarrow> rstr \<Rightarrow> splitter_config \<Rightarrow> doc_profile option \<Rightarrow> text_chunk list" where
  "run_tier P tier text cfg profile =
     (case tier of
        Heading \<Rightarrow> split_by_headings P text cfg profile
      | Heuristic \<Rightarrow> split_by_heuristics P text cfg
      | Legacy \<Rightarrow> split_cfg P cfg text)"

text \<open>\<open>Inr\<close> is the return from inside the loop, \<open>Inl\<close> the chunks of a final legacy tier that was not valid.\<close>

fun try_tiers ::
  "patterns \<Rightarrow> rstr \<Rightarrow> splitter_config \<Rightarrow> doc_profile option \<Rightarrow> text_chunk list \<Rightarrow> strategy_tier list \<Rightarrow> text_chunk list + text_chunk list" where
  "try_tiers P text cfg profile last_legacy [] = Inl last_legacy"
| "try_tiers P text cfg profile last_legacy (tier # rest) =
     (let out = run_tier P tier text cfg profile in
      if validate_chunks out (length text) (chunk_size cfg) then Inr out
      else try_tiers P text cfg profile (if tier = Legacy \<and> rest = [] then out else last_legacy) rest)"

definition strategy_split :: "patterns \<Rightarrow> rstr \<Rightarrow> splitter_config \<Rightarrow> text_chunk list" where
  "strategy_split P text cfg0 =
     (if text = [] then []
      else let cfg = ensure_defaults cfg0 in
        case resolve_chain_with_profile P text cfg of (chain, profile) \<Rightarrow>
        case try_tiers P text cfg profile [] chain of
          Inr out \<Rightarrow> out
        | Inl last_legacy \<Rightarrow> if last_legacy \<noteq> [] then last_legacy else split_cfg P cfg text)"

subsection \<open>Parents and children\<close>

definition merge_breadcrumbs :: "rstr \<Rightarrow> rstr \<Rightarrow> rstr" where
  "merge_breadcrumbs parent child =
     (if parent = [] then child
      else if child = [] then parent
      else let parent_lines = split_char newline parent; child_lines0 = split_char newline child;
               child_lines = (if trim (last parent_lines) = trim (hd child_lines0) then tl child_lines0 else child_lines0)
           in if child_lines = [] then parent else parent @ [newline] @ join [newline] child_lines)"

record child_chunk =
  ch_chunk :: text_chunk
  ch_parent_index :: "nat option"

record parent_child_result =
  pc_parents :: "text_chunk list"
  pc_children :: "child_chunk list"

definition child_of :: "text_chunk \<Rightarrow> nat \<Rightarrow> nat option \<Rightarrow> text_chunk \<Rightarrow> child_chunk" where
  "child_of parent n idx sub =
     \<lparr>ch_chunk = sub\<lparr>chunk_seq := n, chunk_start := chunk_start sub + chunk_start parent,
         chunk_end := chunk_end sub + chunk_start parent,
         context_header := merge_breadcrumbs (context_header parent) (context_header sub)\<rparr>,
       ch_parent_index = idx\<rparr>"

definition add_parent :: "patterns \<Rightarrow> splitter_config \<Rightarrow> text_chunk \<Rightarrow> parent_child_result \<Rightarrow> parent_child_result" where
  "add_parent P child_cfg parent r =
     (let subs = strategy_split P (content parent) child_cfg;
          keep = (length subs > 1 \<or> (length subs = 1 \<and> content (subs ! 0) \<noteq> content parent));
          idx = (if keep then Some (length (pc_parents r)) else None);
          seq = length (pc_children r)
      in \<lparr>pc_parents = (if keep then pc_parents r @ [parent] else pc_parents r),
           pc_children = pc_children r @ map (\<lambda>(i, sub). child_of parent (seq + i) idx sub) (enumerate 0 subs)\<rparr>)"

definition split_parent_child :: "patterns \<Rightarrow> rstr \<Rightarrow> splitter_config \<Rightarrow> splitter_config \<Rightarrow> parent_child_result" where
  "split_parent_child P text parent_cfg child_cfg =
     (let empty = \<lparr>pc_parents = [], pc_children = []\<rparr> in
      if text = [] then empty
      else let parents = strategy_split P text parent_cfg in
        if parents = [] then empty else fold (add_parent P child_cfg) parents empty)"

definition parent_chunk_size :: nat where "parent_chunk_size = 4096"
definition child_chunk_size :: nat where "child_chunk_size = 384"

definition parent_child_configs :: "splitter_config \<Rightarrow> nat \<Rightarrow> nat \<Rightarrow> splitter_config \<times> splitter_config" where
  "parent_child_configs base parent_size0 child_size0 =
     (let parent_size = (if parent_size0 = 0 then parent_chunk_size else parent_size0);
          child_size = (if child_size0 = 0 then child_chunk_size else child_size0)
      in (base\<lparr>chunk_size := parent_size, token_limit := 0\<rparr>,
          base\<lparr>chunk_size := child_size, chunk_overlap := child_size div 5, token_limit := 0\<rparr>))"

subsection \<open>Domain chunks\<close>

record ('id, 'loc) chunk =
  c_id :: 'id
  c_document_id :: 'id
  c_product_version_id :: 'id
  c_chunk_type :: rstr
  c_content :: rstr
  c_context_header :: rstr
  c_start_at :: int
  c_end_at :: int
  c_parent_chunk_id :: "'id option"
  c_generated_questions :: "rstr list"
  c_source_locator :: "'loc option"

definition as_i32 :: "nat \<Rightarrow> int" where
  "as_i32 n = (int n + 2 ^ 31) mod 2 ^ 32 - 2 ^ 31"

definition domain_chunk :: "'id \<Rightarrow> 'id \<Rightarrow> 'id \<Rightarrow> rstr \<Rightarrow> 'id option \<Rightarrow> text_chunk \<Rightarrow> ('id, 'loc) chunk" where
  "domain_chunk i document_id version_id chunk_type parent c =
     \<lparr>c_id = i, c_document_id = document_id, c_product_version_id = version_id, c_chunk_type = chunk_type,
       c_content = content c, c_context_header = context_header c, c_start_at = as_i32 (chunk_start c),
       c_end_at = as_i32 (chunk_end c), c_parent_chunk_id = parent, c_generated_questions = [], c_source_locator = None\<rparr>"

definition to_domain :: "(nat \<Rightarrow> 'id) \<Rightarrow> text_chunk list \<Rightarrow> 'id \<Rightarrow> 'id \<Rightarrow> ('id, 'loc) chunk list" where
  "to_domain new_id raw version_id document_id =
     map (\<lambda>(i, c). domain_chunk (new_id i) document_id version_id (lit ''text'') None c) (enumerate 0 raw)"

definition split_from_config ::
  "patterns \<Rightarrow> (nat \<Rightarrow> 'id) \<Rightarrow> rstr \<Rightarrow> 'id \<Rightarrow> 'id \<Rightarrow> splitter_config \<Rightarrow> bool \<Rightarrow> nat \<Rightarrow> nat \<Rightarrow> ('id, 'loc) chunk list" where
  "split_from_config P new_id markdown version_id document_id cfg parent_child parent_size child_size =
     (if \<not> parent_child then to_domain new_id (strategy_split P markdown cfg) version_id document_id
      else case parent_child_configs cfg parent_size child_size of (parent_cfg, child_cfg) \<Rightarrow>
        let result = split_parent_child P markdown parent_cfg child_cfg;
            parent_ids = map new_id [0..<length (pc_parents result)];
            parents = map (\<lambda>(i, p). domain_chunk (new_id i) document_id version_id (lit ''parent_text'') None p)
                        (enumerate 0 (pc_parents result));
            children = map (\<lambda>(i, c). domain_chunk (new_id i) document_id version_id (lit ''text'')
                          (case ch_parent_index c of None \<Rightarrow> None
                           | Some k \<Rightarrow> if k < length parent_ids then Some (parent_ids ! k) else None) (ch_chunk c))
                        (enumerate (length (pc_parents result)) (pc_children result))
        in parents @ children)"

definition split_with ::
  "patterns \<Rightarrow> (nat \<Rightarrow> 'id) \<Rightarrow> rstr \<Rightarrow> 'id \<Rightarrow> 'id \<Rightarrow> nat \<Rightarrow> nat \<Rightarrow> rstr \<Rightarrow> ('id, 'loc) chunk list" where
  "split_with P new_id markdown version_id document_id limit overlap strat =
     to_domain new_id (strategy_split P markdown (default_config\<lparr>chunk_size := limit, chunk_overlap := overlap, strategy := strat\<rparr>))
       version_id document_id"

definition chunker_split :: "patterns \<Rightarrow> (nat \<Rightarrow> 'id) \<Rightarrow> rstr \<Rightarrow> 'id \<Rightarrow> 'id \<Rightarrow> nat \<Rightarrow> nat \<Rightarrow> ('id, 'loc) chunk list" where
  "chunker_split P new_id markdown version_id document_id limit overlap =
     split_with P new_id markdown version_id document_id limit overlap (lit ''auto'')"

definition split_configured ::
  "patterns \<Rightarrow> (nat \<Rightarrow> 'id) \<Rightarrow> rstr \<Rightarrow> 'id \<Rightarrow> 'id \<Rightarrow> nat \<Rightarrow> nat \<Rightarrow> rstr \<Rightarrow> bool \<Rightarrow> ('id, 'loc) chunk list" where
  "split_configured P new_id markdown version_id document_id limit overlap strat parent_child =
     split_from_config P new_id markdown version_id document_id
       (default_config\<lparr>chunk_size := limit, chunk_overlap := overlap, strategy := strat\<rparr>) parent_child 0 0"

definition embedding_content :: "rstr \<Rightarrow> rstr \<Rightarrow> rstr" where
  "embedding_content header text =
     (if header = [] then trim text else header @ [newline, newline] @ trim text)"

definition index_content :: "rstr \<Rightarrow> ('id, 'loc) chunk \<Rightarrow> rstr" where
  "index_content title c =
     (if trim title = [] then [] else trim title @ [newline]) @ embedding_content (c_context_header c) (c_content c)"

end
