(* ===== verification/Splitter_Props.thy ===== *)
theory Splitter_Props
  imports Splitter
begin

text \<open>
  The splitter loses no text and keeps its limits: separators cut a text into pieces that
  concatenate to it, units tile the text, and merged chunks are slices of it (after a repeated table header)
  that cover it.
\<close>

subsection \<open>Pieces between separators\<close>

lemma concat_pieces:
  "matches_ok body pos ms \<Longrightarrow> is_boundary body pos \<Longrightarrow> concat (pieces_from body pos ms) = drop (rune_index body pos) body"
proof (induction body pos ms rule: pieces_from.induct)
  case (1 body pos)
  have "length body - rune_index body pos = 0" if "\<not> pos < byte_len body"
    using boundary_le [OF 1(2)] that by (simp add: antisym)
  then show ?case by (auto simp: byte_slice_def slice_def)
next
  case (2 body pos a b ms)
  then have bounds: "pos \<le> a" "a \<le> b" "is_boundary body a" "is_boundary body b" by simp_all
  then have idx: "rune_index body pos \<le> rune_index body a" "rune_index body a \<le> rune_index body b"
    using 2 rune_index_mono by blast+
  have "concat (pieces_from body pos ((a, b) # ms))
      = byte_slice body pos a @ byte_slice body a b @ drop (rune_index body b) body"
    using 2 bounds by (auto simp: byte_slice_def dest: antisym)
  also have "\<dots> = slice body (rune_index body pos) (rune_index body b) @ drop (rune_index body b) body"
    unfolding byte_slice_def append_assoc [symmetric] slice_append [OF idx] ..
  also have "\<dots> = drop (rune_index body pos) body"
    using idx by (simp add: slice_def) (metis append_take_drop_id drop_drop le_add_diff_inverse2 order_trans)
  finally show ?case .
qed

lemma concat_split_by_separators:
  assumes ok: "patterns_ok P"
  shows "concat (split_by_separators P body seps n) = body"
proof (induction seps arbitrary: body)
  case (Cons sep rest)
  have "concat (pieces_from body 0 (separator_pattern P sep body)) = body"
    using ok concat_pieces [of body 0 "separator_pattern P sep body"] by (simp add: patterns_ok_def find_iter_okD)
  moreover have "concat (concat (map (\<lambda>p. if n > 0 \<and> length p > n \<and> rest \<noteq> [] then split_by_separators P p rest n else [p]) ps))
      = concat ps" for ps
    by (induction ps) (simp_all add: Cons)
  ultimately show ?case by (simp add: Let_def Cons)
qed simp

subsection \<open>Units tile the body\<close>

fun tiles :: "rstr \<Rightarrow> nat \<Rightarrow> nat \<Rightarrow> split_unit list \<Rightarrow> bool" where
  "tiles body i j [] \<longleftrightarrow> i = j"
| "tiles body i j (u # us) \<longleftrightarrow> u_start u = i \<and> i \<le> u_end u \<and> u_end u \<le> length body
     \<and> u_text u = slice body i (u_end u) \<and> tiles body (u_end u) j us"

lemma tiles_append: "tiles body i j (us @ vs) \<longleftrightarrow> (\<exists>m. tiles body i m us \<and> tiles body m j vs)"
  by (induction us arbitrary: i) auto

lemma tiles_le: "tiles body i j us \<Longrightarrow> i \<le> j"
  by (induction us arbitrary: i) (auto intro: order_trans)

lemma tiles_length: "tiles body i j us \<Longrightarrow> us \<noteq> [] \<Longrightarrow> j \<le> length body"
  by (induction us arbitrary: i) (auto, metis tiles.simps(1))

lemma tiles_text: "tiles body i j us \<Longrightarrow> units_text us = slice body i j"
proof (induction us arbitrary: i)
  case (Cons u us)
  then show ?case using slice_append tiles_le by (auto simp: units_text_def)
qed (simp add: units_text_def)

lemma tiles_ends: "tiles body i j us \<Longrightarrow> us \<noteq> [] \<Longrightarrow> u_start (hd us) = i \<and> u_end (last us) = j"
proof (induction us arbitrary: i)
  case (Cons u us)
  then show ?case by (cases "us = []") auto
qed simp

lemma tiles_place_units:
  assumes "j \<le> length body" and "i \<le> j" and "concat ps = slice body i j"
  shows "tiles body i j (place_units i ps)"
  using assms
proof (induction ps arbitrary: i)
  case Nil
  then have "j - i = 0" using length_slice [of j body i] by (metis concat.simps(1) list.size(3))
  with Nil show ?case by simp
next
  case (Cons p ps)
  have len: "length p + length (concat ps) = j - i" using Cons.prems(1,3) length_slice [of j body i]
    by (metis concat.simps(2) length_append)
  then have le: "i + length p \<le> j" using Cons.prems(2) by simp
  have "slice body i (i + length p) @ slice body (i + length p) j = p @ concat ps"
    using Cons.prems(3) slice_append [of i "i + length p" j] le by simp
  then have "p = slice body i (i + length p) \<and> concat ps = slice body (i + length p) j"
    using le Cons.prems(1) by (subst (asm) append_eq_append_conv) auto
  with Cons le show ?case by simp
qed

lemma tiles_force_split:
  assumes "e \<le> length body" and "b \<le> e"
  shows "offset \<le> e - b \<Longrightarrow> tiles body (b + offset) e (force_split_from (slice body b e) b offset)"
proof (induction "e - b - offset" arbitrary: offset rule: less_induct)
  case less
  let ?r = "slice body b e"
  have len: "length ?r = e - b" using assms by simp
  show ?case
  proof (cases "offset < length ?r")
    case True
    let ?n = "snap_end ?r offset"
    have n: "offset < ?n" "?n \<le> e - b" using snap_end_bounds [OF True] len by simp_all
    then have "tiles body (b + ?n) e (force_split_from ?r b ?n)" using less by simp
    moreover have "slice ?r offset ?n = slice body (b + offset) (b + ?n)"
      using slice_slice [of ?n body b e offset] n len by simp
    ultimately show ?thesis
      using n assms True by (subst force_split_from.simps) simp
  next
    case False
    then show ?thesis using less.prems assms len by (subst force_split_from.simps) simp
  qed
qed

lemma tiles_force_split_runes:
  "e \<le> length body \<Longrightarrow> b \<le> e \<Longrightarrow> tiles body b e (force_split_runes (slice body b e) b)"
  using tiles_force_split [of e body b 0] by (simp add: force_split_runes_def)

lemma force_split_bounded: "u \<in> set (force_split_from runes base offset) \<Longrightarrow> length (u_text u) \<le> hard_cap"
proof (induction runes base offset rule: force_split_from.induct)
  case (1 runes base offset)
  then show ?case
    using snap_end_bounds [of offset runes]
    by (subst (asm) force_split_from.simps) (auto split: if_splits)
qed

lemma tiles_build_units:
  assumes ok: "patterns_ok P"
  shows "matches_ok body pos spans \<Longrightarrow> is_boundary body pos \<Longrightarrow>
    tiles body (rune_index body pos) (length body) (build_units_from P body seps n pos (rune_index body pos) spans)"
proof (induction spans arbitrary: pos)
  case Nil
  have "rune_index body pos \<le> length body" by (rule rune_index_le)
  moreover have "rune_index body pos = length body" if "\<not> pos < byte_len body"
    using boundary_le [OF Nil(2)] that by (simp add: antisym)
  ultimately show ?case
    by (auto simp: byte_slice_def concat_split_by_separators [OF ok] intro!: tiles_place_units)
next
  case (Cons ab spans)
  obtain a b where ab: "ab = (a, b)" by force
  let ?i = "rune_index body pos" let ?a = "rune_index body a" let ?b = "rune_index body b"
  have m: "pos \<le> a" "a \<le> b" "is_boundary body a" "is_boundary body b" "matches_ok body b spans"
    using Cons.prems ab by simp_all
  have idx: "?i \<le> ?a" "?a \<le> ?b" "?b \<le> length body"
    using m Cons.prems(2) rune_index_mono rune_index_le by blast+
  have pos1: "(if a > pos then ?i + length (byte_slice body pos a) else ?i) = ?a"
    using m(1) idx by (auto simp: byte_slice_def dest: antisym)
  have pos2: "?a + length (byte_slice body a b) = ?b" using idx by (simp add: byte_slice_def)
  have pre: "tiles body ?i ?a (if a > pos then place_units ?i (split_by_separators P (byte_slice body pos a) seps n) else [])"
    using idx m(1) by (auto simp: byte_slice_def concat_split_by_separators [OF ok] intro!: tiles_place_units dest: antisym)
  have prot: "tiles body ?a ?b (if length (byte_slice body a b) > hard_cap then force_split_runes (byte_slice body a b) ?a
      else [\<lparr>u_text = byte_slice body a b, u_start = ?a, u_end = ?a + length (byte_slice body a b)\<rparr>])"
    using idx pos2 tiles_force_split_runes [of ?b body ?a] by (simp add: byte_slice_def)
  have rest: "tiles body ?b (length body) (build_units_from P body seps n b ?b spans)"
    using Cons.IH m by simp
  show ?case
    unfolding ab build_units_from.simps Let_def pos1 pos2
    using pre prot [unfolded pos2] rest tiles_append by blast
qed

lemma drop_overlapping_ok:
  "(\<And>a b. (a, b) \<in> set xs \<Longrightarrow> a \<le> b \<and> is_boundary body a \<and> is_boundary body b) \<Longrightarrow>
   matches_ok body n (drop_overlapping n xs)"
  by (induction n xs rule: drop_overlapping.induct) auto

lemma set_insert_span [simp]: "set (insert_span x ys) = insert x (set ys)"
  by (induction ys) auto

lemma set_sort_spans [simp]: "set (sort_spans xs) = set xs"
  by (induction xs) (simp_all add: sort_spans_def)

lemma matches_ok_member:
  "matches_ok body p ms \<Longrightarrow> (a, b) \<in> set ms \<Longrightarrow> a \<le> b \<and> is_boundary body a \<and> is_boundary body b"
  by (induction body p ms rule: matches_ok.induct) auto

lemma protected_spans_ok: "patterns_ok P \<Longrightarrow> matches_ok body 0 (protected_spans P body)"
  unfolding protected_spans_def
  by (rule drop_overlapping_ok) (auto simp: patterns_ok_def dest!: find_iter_okD matches_ok_member)

subsection \<open>Overlap\<close>

lemma units_text_simps [simp]:
  "units_text [] = []" "units_text (u # us) = u_text u @ units_text us" "units_text (us @ vs) = units_text us @ units_text vs"
  by (simp_all add: units_text_def)

lemma overlap_suffix_spec:
  "overlap_suffix ov limit nx n taken us = (t, m) \<Longrightarrow>
   \<exists>xs ys. us = xs @ ys \<and> t = rev xs @ taken \<and> m = n + length (units_text (rev xs)) \<and> (xs \<noteq> [] \<longrightarrow> m + nx \<le> limit)"
proof (induction us arbitrary: n taken)
  case (Cons u us)
  show ?case
  proof (cases "n + length (u_text u) > ov \<or> n + length (u_text u) + nx > limit")
    case True
    then show ?thesis using Cons.prems by (intro exI [of _ "[]"] exI [of _ "u # us"]) auto
  next
    case False
    then have "overlap_suffix ov limit nx (n + length (u_text u)) (u # taken) us = (t, m)" using Cons.prems by simp
    from Cons.IH [OF this] obtain xs ys where "us = xs @ ys" "t = rev xs @ u # taken"
        "m = n + length (u_text u) + length (units_text (rev xs))" "xs \<noteq> [] \<longrightarrow> m + nx \<le> limit" by blast
    then show ?thesis using False by (intro exI [of _ "u # xs"] exI [of _ ys]) auto
  qed
qed simp

lemma drop_leading_spec:
  "drop_leading n us = (kept, m) \<Longrightarrow> n = length (units_text us) \<Longrightarrow>
   \<exists>xs. us = xs @ kept \<and> m = length (units_text kept) \<and> (kept \<noteq> [] \<longrightarrow> u_start (hd kept) \<noteq> u_end (hd kept))"
proof (induction us arbitrary: n)
  case (Cons u us)
  show ?case
  proof (cases "u_start u = u_end u \<or> trim (u_text u) = [] \<or> is_separator_only (u_text u)")
    case True
    then have "drop_leading (n - length (u_text u)) us = (kept, m)" using Cons.prems(1) by simp
    moreover have "n - length (u_text u) = length (units_text us)" using Cons.prems(2) by simp
    ultimately obtain xs where xs: "us = xs @ kept" "m = length (units_text kept)"
        "kept \<noteq> [] \<longrightarrow> u_start (hd kept) \<noteq> u_end (hd kept)"
      using Cons.IH by blast
    then show ?thesis by (intro exI [of _ "u # xs"]) simp
  next
    case False
    then have "kept = u # us" "m = n" using Cons.prems(1) by simp_all
    then show ?thesis using False Cons.prems(2) by (intro exI [of _ "[]"]) simp
  qed
qed simp

lemma compute_overlap_spec:
  assumes "compute_overlap cur ov limit nx = (kept, m)"
  shows "(kept = [] \<and> m = 0) \<or> (\<exists>xs. cur = xs @ kept \<and> kept \<noteq> [] \<and> u_start (hd kept) \<noteq> u_end (hd kept)
      \<and> m = length (units_text kept) \<and> m + nx \<le> limit)"
proof (cases "ov = 0 \<or> kept = []")
  case True
  then show ?thesis using assms by (auto simp: compute_overlap_def split: prod.splits if_splits)
next
  case False
  obtain t n where t: "overlap_suffix ov limit nx 0 [] (rev cur) = (t, n)" by force
  have k: "drop_leading n t = (kept, m)"
    using assms False t by (auto simp: compute_overlap_def split: prod.splits if_splits)
  obtain xs ys where xs: "rev cur = xs @ ys" "t = rev xs" "n = length (units_text (rev xs))" "xs \<noteq> [] \<longrightarrow> n + nx \<le> limit"
    using overlap_suffix_spec [OF t] by auto
  have cur: "cur = rev ys @ t" using xs(1,2) by (metis rev_append rev_rev_ident)
  have "n = length (units_text t)" using xs by simp
  from drop_leading_spec [OF k this]
  obtain zs where zs: "t = zs @ kept" "m = length (units_text kept)" "kept \<noteq> [] \<longrightarrow> u_start (hd kept) \<noteq> u_end (hd kept)"
    by blast
  have "m \<le> n" using zs(1,2) xs(2,3) by (metis le_add2 length_append units_text_simps(3))
  moreover have "xs \<noteq> []" using zs(1) xs(2) False by auto
  ultimately have "m + nx \<le> limit" using xs(4) by simp
  moreover have "cur = (rev ys @ zs) @ kept" using cur zs(1) by simp
  ultimately show ?thesis using zs False by blast
qed

lemma shrink_front_spec:
  "shrink_front extra limit us n = (cur, m) \<Longrightarrow> n = length (units_text us) \<Longrightarrow>
   \<exists>xs. us = xs @ cur \<and> m = length (units_text cur) \<and> (cur = [] \<or> m + extra \<le> limit)"
proof (induction us arbitrary: n)
  case (Cons u us)
  show ?case
  proof (cases "n + extra > limit")
    case True
    then have "shrink_front extra limit us (n - length (u_text u)) = (cur, m)" using Cons.prems(1) by simp
    moreover have "n - length (u_text u) = length (units_text us)" using Cons.prems(2) by simp
    ultimately obtain xs where "us = xs @ cur" "m = length (units_text cur)" "cur = [] \<or> m + extra \<le> limit"
      using Cons.IH by blast
    then show ?thesis by (intro exI [of _ "u # xs"]) simp
  next
    case False
    then have "cur = u # us" "m = n" using Cons.prems(1) by simp_all
    then show ?thesis using False Cons.prems(2) by (intro exI [of _ "[]"]) simp
  qed
qed simp

subsection \<open>Merging keeps the text\<close>

definition covered :: "text_chunk list \<Rightarrow> nat \<Rightarrow> bool" where
  "covered cs n \<longleftrightarrow> (\<forall>k<n. \<exists>c\<in>set cs. chunk_start c \<le> k \<and> k < chunk_end c)"

definition chunk_ok :: "rstr \<Rightarrow> text_chunk \<Rightarrow> bool" where
  "chunk_ok body c \<longleftrightarrow> chunk_start c \<le> chunk_end c \<and> chunk_end c \<le> length body
     \<and> (\<exists>hdr. content c = hdr @ slice body (chunk_start c) (chunk_end c))"

definition within_limit :: "nat \<Rightarrow> split_unit set \<Rightarrow> text_chunk \<Rightarrow> bool" where
  "within_limit n U c \<longleftrightarrow> length (content c) \<le> n
     \<or> (length (content c) \<le> hard_cap \<and> (\<exists>u\<in>U. sublist (content c) (u_text u)))"

definition cur_ok :: "rstr \<Rightarrow> nat \<Rightarrow> nat \<Rightarrow> split_unit list \<Rightarrow> bool" where
  "cur_ok body i j cur \<longleftrightarrow> i \<le> j \<and> j \<le> length body \<and>
     (tiles body i j cur \<or> (\<exists>h us. cur = h # us \<and> u_start h = i \<and> u_end h = i \<and> tiles body i j us))"

definition merge_ok :: "rstr \<Rightarrow> nat \<Rightarrow> split_unit set \<Rightarrow> nat \<Rightarrow> merge_state \<Rightarrow> bool" where
  "merge_ok body n U j s \<longleftrightarrow>
     (\<exists>i. (m_current s = [] \<longrightarrow> i = j) \<and> (m_current s \<noteq> [] \<longrightarrow> cur_ok body i j (m_current s)) \<and> covered (m_chunks s) i)
     \<and> m_len s = length (units_text (m_current s))
     \<and> (m_len s \<le> n \<or> (m_len s \<le> hard_cap \<and> (\<exists>u\<in>U. m_current s = [u])))
     \<and> (\<forall>c\<in>set (m_chunks s). chunk_ok body c \<and> within_limit n U c)
     \<and> map chunk_seq (m_chunks s) = [0..<length (m_chunks s)]"

lemma covered_append: "covered cs n \<Longrightarrow> covered (cs @ ds) n"
  by (auto simp: covered_def)

lemma covered_mono: "covered cs n \<Longrightarrow> m \<le> n \<Longrightarrow> covered cs m"
  by (simp add: covered_def)

lemma covered_extend: "covered cs i \<Longrightarrow> chunk_start c = i \<Longrightarrow> chunk_end c = j \<Longrightarrow> covered (cs @ [c]) j"
  unfolding covered_def by (metis UnCI in_set_conv_decomp linorder_not_le set_append)

lemma built_chunk:
  assumes cur: "cur_ok body i j cur" "cur \<noteq> []"
  shows "chunk_ok body (build_chunk cur k) \<and> chunk_start (build_chunk cur k) = i \<and> chunk_end (build_chunk cur k) = j"
proof (cases "tiles body i j cur")
  case True
  then show ?thesis
    using cur tiles_text [OF True] tiles_ends [OF True] by (auto simp: chunk_ok_def build_chunk_def cur_ok_def)
next
  case False
  then obtain h us where us: "cur = h # us" "u_start h = i" "u_end h = i" "tiles body i j us"
    using cur by (auto simp: cur_ok_def)
  have "u_end (last cur) = j" using us tiles_ends [OF us(4)] by (cases "us = []") auto
  then show ?thesis
    using cur us tiles_text [OF us(4)] by (auto simp: chunk_ok_def build_chunk_def cur_ok_def)
qed

lemma flush_ok:
  assumes ok: "merge_ok body n U j s" and "m_current s \<noteq> []"
  shows "merge_ok body n U j (flush s) \<and> m_current (flush s) = []"
proof -
  obtain i where i: "cur_ok body i j (m_current s)" "covered (m_chunks s) i"
    using assms by (auto simp: merge_ok_def)
  let ?c = "build_chunk (m_current s) (length (m_chunks s))"
  have c: "chunk_ok body ?c" "chunk_start ?c = i" "chunk_end ?c = j" using built_chunk [OF i(1) assms(2)] by simp_all
  have "within_limit n U ?c"
    using ok by (auto simp: merge_ok_def within_limit_def build_chunk_def)
  moreover have "covered (m_chunks s @ [?c]) j" using covered_extend [OF i(2) c(2,3)] .
  moreover have "chunk_seq ?c = length (m_chunks s)" by (simp add: build_chunk_def)
  ultimately show ?thesis using ok c(1) by (simp add: merge_ok_def flush_def)
qed

lemma cur_ok_suffix:
  assumes cur: "cur_ok body i j (xs @ ys)" and "ys \<noteq> []" and "u_start (hd ys) \<noteq> u_end (hd ys)"
  shows "\<exists>m. i \<le> m \<and> m \<le> j \<and> tiles body m j ys \<and> u_start (hd ys) = m"
proof (cases "tiles body i j (xs @ ys)")
  case True
  then obtain m where "tiles body i m xs" "tiles body m j ys" using tiles_append by blast
  then show ?thesis using tiles_le tiles_ends assms(2) by blast
next
  case False
  then obtain h us where us: "xs @ ys = h # us" "u_start h = u_end h" "tiles body i j us"
    using cur by (auto simp: cur_ok_def)
  then obtain zs where "xs = h # zs" "us = zs @ ys" using assms(2,3) by (cases xs) auto
  then obtain m where "tiles body i m zs" "tiles body m j ys" using us(3) tiles_append by blast
  then show ?thesis using tiles_le tiles_ends assms(2) by blast
qed

text \<open>
  What the merge holds after a chunk was pushed: the kept suffix \<open>cur\<close>, possibly below a header marker.
\<close>

lemma merge_ok_restart:
  assumes ok: "merge_ok body n U j s" and cur0: "m_current s \<noteq> []"
    and tl: "cur = [] \<or> tiles body i j cur" "cur \<noteq> [] \<longrightarrow> i \<le> j"
    and lim: "cur \<noteq> [] \<longrightarrow> length (units_text cur) \<le> n"
  shows "merge_ok body n U j (s\<lparr>m_chunks := m_chunks s @ [build_chunk (m_current s) (length (m_chunks s))],
           m_current := cur, m_len := length (units_text cur)\<rparr>)"
proof -
  have f: "merge_ok body n U j (flush s)" using flush_ok [OF ok cur0] by simp
  have "covered (m_chunks (flush s)) j" using f by (auto simp: merge_ok_def flush_def)
  moreover have "j \<le> length body" using ok cur0 by (auto simp: merge_ok_def cur_ok_def)
  ultimately have "\<exists>k. (cur = [] \<longrightarrow> k = j) \<and> (cur \<noteq> [] \<longrightarrow> cur_ok body k j cur) \<and> covered (m_chunks (flush s)) k"
    using tl covered_mono by (cases "cur = []") (auto simp: cur_ok_def)
  then show ?thesis using f lim by (cases "cur = []") (auto simp: merge_ok_def flush_def)
qed

lemma merge_ok_header:
  assumes ok: "merge_ok body n U j s" and j: "j \<le> length body"
    and cur: "m_current s = [] \<or> tiles body i j (m_current s)"
    and h: "u_start h = (if m_current s = [] then j else u_start (hd (m_current s)))" "u_end h = u_start h"
    and lim: "m_len s + length (u_text h) \<le> n"
  shows "merge_ok body n U j (s\<lparr>m_current := h # m_current s, m_len := m_len s + length (u_text h)\<rparr>)"
proof -
  obtain k where k: "m_current s = [] \<longrightarrow> k = j" "m_current s \<noteq> [] \<longrightarrow> cur_ok body k j (m_current s)" "covered (m_chunks s) k"
    using ok by (auto simp: merge_ok_def)
  have "\<exists>k. cur_ok body k j (h # m_current s) \<and> covered (m_chunks s) k"
  proof (cases "m_current s = []")
    case True
    then show ?thesis using k h j by (intro exI [of _ j]) (auto simp: cur_ok_def)
  next
    case False
    then have "tiles body i j (m_current s)" using cur by blast
    moreover have "u_start (hd (m_current s)) = i" using tiles_ends [OF calculation False] by simp
    moreover have "k = i"
    proof -
      have "u_start (hd (m_current s)) = k" using k(2) False tiles_ends by (fastforce simp: cur_ok_def)
      then show ?thesis using calculation(2) by simp
    qed
    ultimately show ?thesis using k(3) h False j tiles_le by (intro exI [of _ i]) (auto simp: cur_ok_def)
  qed
  then show ?thesis using ok lim by (auto simp: merge_ok_def)
qed

lemma overflow_ok:
  assumes ok: "merge_ok body n U j s" and cur0: "m_current s \<noteq> []" and "u_start u = j"
  shows "merge_ok body n U j (overflow_current P n ov headers u s)
    \<and> (m_current (overflow_current P n ov headers u s) = []
       \<or> m_len (overflow_current P n ov headers u s) + length (u_text u) \<le> n)"
proof -
  let ?chunks = "m_chunks s @ [build_chunk (m_current s) (length (m_chunks s))]"
  have j: "j \<le> length body" using ok cur0 by (auto simp: merge_ok_def cur_ok_def)
  obtain i0 where i0: "cur_ok body i0 j (m_current s)" using ok cur0 by (auto simp: merge_ok_def)
  obtain kept m where kept: "compute_overlap (m_current s) ov n (length (u_text u)) = (kept, m)" by force
  have spec: "m = length (units_text kept) \<and> (kept \<noteq> [] \<longrightarrow> m + length (u_text u) \<le> n \<and> (\<exists>i. i \<le> j \<and> tiles body i j kept))"
    using compute_overlap_spec [OF kept] cur_ok_suffix [of body i0 j _ kept] i0
    by (metis length_0_conv units_text_simps(1))
  have suffix: "merge_ok body n U j (s\<lparr>m_chunks := ?chunks, m_current := cur, m_len := length (units_text cur)\<rparr>)
      \<and> (cur = [] \<or> (\<exists>i. tiles body i j cur))" if "kept = xs @ cur" for xs cur
  proof -
    have "cur \<noteq> [] \<longrightarrow> (\<exists>i. i \<le> j \<and> tiles body i j cur)"
      using spec that tiles_append tiles_le by (metis append_is_Nil_conv)
    moreover have "cur \<noteq> [] \<longrightarrow> length (units_text cur) \<le> n"
      using spec that by auto
    ultimately show ?thesis
      using merge_ok_restart [OF ok cur0, of cur] by (cases "cur = []") auto
  qed
  show ?thesis
  proof (cases "headers \<noteq> [] \<and> length headers + length (u_text u) \<le> n")
    case False
    then show ?thesis
      using suffix [of "[]" kept] spec kept by (auto simp: overflow_current_def Let_def)
  next
    case True
    obtain cur k where cur: "shrink_front (length (u_text u) + length headers) n kept m = (cur, k)" by force
    obtain xs where xs: "kept = xs @ cur" "k = length (units_text cur)"
        "cur = [] \<or> k + (length (u_text u) + length headers) \<le> n"
      using shrink_front_spec [OF cur] spec by blast
    let ?s = "s\<lparr>m_chunks := ?chunks, m_current := cur, m_len := k\<rparr>"
    have s: "merge_ok body n U j ?s" "cur = [] \<or> (\<exists>i. tiles body i j cur)" using suffix [OF xs(1)] xs(2) by simp_all
    have lim: "k + length headers + length (u_text u) \<le> n" using xs(2,3) True by auto
    let ?h = "\<lparr>u_text = headers, u_start = (if cur = [] then u_start u else u_start (hd cur)),
                u_end = (if cur = [] then u_start u else u_start (hd cur))\<rparr>"
    have "merge_ok body n U j (?s\<lparr>m_current := ?h # m_current ?s, m_len := m_len ?s + length (u_text ?h)\<rparr>)"
    proof -
      obtain i where "cur = [] \<or> tiles body i j cur" using s(2) by blast
      then show ?thesis using lim assms(3) by (intro merge_ok_header [OF s(1) j, of i]) auto
    qed
    then show ?thesis
      using True kept cur s(1) lim by (auto simp: overflow_current_def Let_def)
  qed
qed

lemma covered_tiles:
  "tiles body i j us \<Longrightarrow> i \<le> k \<Longrightarrow> k < j \<Longrightarrow> \<exists>u\<in>set us. u_start u \<le> k \<and> k < u_end u"
proof (induction us arbitrary: i)
  case (Cons u us)
  then show ?case by (cases "k < u_end u") auto
qed simp

lemma tiles_unit: "tiles body i j us \<Longrightarrow> u \<in> set us \<Longrightarrow>
   u_start u \<le> u_end u \<and> u_end u \<le> length body \<and> u_text u = slice body (u_start u) (u_end u)"
  by (induction us arbitrary: i) auto

lemma sublist_slice: "sublist (slice s i j) s"
  by (metis append_take_drop_id slice_def sublist_appendI sublist_append_leftI sublist_def)

lemma force_split_sublist: "u \<in> set (force_split_from runes base offset) \<Longrightarrow> sublist (u_text u) runes"
proof (induction runes base offset rule: force_split_from.induct)
  case (1 runes base offset)
  then show ?case
    by (subst (asm) force_split_from.simps) (auto simp: sublist_slice split: if_splits)
qed

lemma set_piece_chunks:
  "set (piece_chunks n us) \<subseteq> {c. \<exists>u\<in>set us. content c = u_text u \<and> chunk_start c = u_start u \<and> chunk_end c = u_end u}"
  by (force simp: piece_chunks_def in_set_enumerate_eq)

lemma piece_chunks_cover:
  "u \<in> set us \<Longrightarrow> \<exists>c\<in>set (piece_chunks n us). chunk_start c = u_start u \<and> chunk_end c = u_end u"
proof -
  assume u: "u \<in> set us"
  have "map (\<lambda>c. (chunk_start c, chunk_end c)) (piece_chunks n us) = map (\<lambda>u. (u_start u, u_end u)) us"
    by (rule nth_equalityI) (simp_all add: piece_chunks_def nth_enumerate_eq)
  moreover have "(u_start u, u_end u) \<in> set (map (\<lambda>u. (u_start u, u_end u)) us)" using u by simp
  ultimately have "(u_start u, u_end u) \<in> set (map (\<lambda>c. (chunk_start c, chunk_end c)) (piece_chunks n us))" by (rule ssubst)
  then show ?thesis unfolding set_map by auto
qed

lemma seq_piece_chunks: "map chunk_seq (piece_chunks n us) = [n..<n + length us]"
  by (rule nth_equalityI) (simp_all add: piece_chunks_def nth_enumerate_eq)

lemma merge_big_ok:
  assumes ok: "merge_ok body n U j s" and empty: "m_current s = []" and u: "tiles body j e [u]" and "u \<in> U"
  shows "merge_ok body n U e (s\<lparr>m_tracker := ht,
     m_chunks := m_chunks s @ piece_chunks (length (m_chunks s)) (force_split_runes (u_text u) (u_start u))\<rparr>)"
proof -
  let ?us = "force_split_runes (u_text u) (u_start u)"
  let ?ps = "piece_chunks (length (m_chunks s)) ?us"
  have tl: "tiles body j e ?us" using u tiles_force_split_runes [of e body j] by auto
  have "chunk_ok body c \<and> within_limit n U c" if c: "c \<in> set ?ps" for c
  proof -
    obtain v where v: "v \<in> set ?us" "content c = u_text v" "chunk_start c = u_start v" "chunk_end c = u_end v"
      using c set_piece_chunks by blast
    have "length (u_text v) \<le> hard_cap" "sublist (u_text v) (u_text u)"
      using v(1) force_split_bounded force_split_sublist by (auto simp: force_split_runes_def)
    then show ?thesis
      using tiles_unit [OF tl v(1)] v assms(4) by (auto simp: chunk_ok_def within_limit_def)
  qed
  moreover have "covered (m_chunks s @ ?ps) e"
    unfolding covered_def
  proof (intro allI impI)
    fix k assume k: "k < e"
    have cov: "covered (m_chunks s) j" using ok empty by (simp add: merge_ok_def)
    show "\<exists>c\<in>set (m_chunks s @ ?ps). chunk_start c \<le> k \<and> k < chunk_end c"
    proof (cases "k < j")
      case True
      then show ?thesis using cov by (auto simp: covered_def)
    next
      case False
      then obtain v where v: "v \<in> set ?us" "u_start v \<le> k" "k < u_end v" using covered_tiles [OF tl _ k] by auto
      obtain c where "c \<in> set ?ps" "chunk_start c = u_start v" "chunk_end c = u_end v"
        using piece_chunks_cover [OF v(1)] by blast
      then show ?thesis using v by (intro bexI [of _ c]) simp_all
    qed
  qed
  moreover have "map chunk_seq (m_chunks s @ ?ps) = [0..<length (m_chunks s @ ?ps)]"
  proof -
    have "length ?ps = length ?us" by (simp add: piece_chunks_def)
    then show ?thesis
      using ok seq_piece_chunks [of "length (m_chunks s)" ?us]
      by (simp add: merge_ok_def) (metis le_add1 le0 upt_add_eq_append add_0)
  qed
  ultimately show ?thesis using ok empty by (auto simp: merge_ok_def)
qed

lemma merge_ok_tracker: "merge_ok body n U j (s\<lparr>m_tracker := ht\<rparr>) = merge_ok body n U j s"
  unfolding merge_ok_def by simp

lemma merge_unit_ok:
  assumes ok: "merge_ok body n U j s" and u: "tiles body j e [u]" and "u \<in> U"
  shows "merge_ok body n U e (merge_unit P n ov u s)"
proof (cases "length (u_text u) > hard_cap")
  case True
  let ?s = "if m_current s \<noteq> [] then flush s else s"
  have "merge_ok body n U j ?s" "m_current ?s = []" using ok flush_ok by auto
  from merge_big_ok [OF this u assms(3)] True show ?thesis
    by (simp add: merge_unit_def Let_def)
next
  case False
  let ?l = "length (u_text u)"
  define ht where "ht = tracker_update P (u_text u) (m_tracker s)"
  define s2 where "s2 = (if header_ended_this_unit ht \<and> m_current (s\<lparr>m_tracker := ht\<rparr>) \<noteq> [] then flush (s\<lparr>m_tracker := ht\<rparr>) else s\<lparr>m_tracker := ht\<rparr>)"
  define headers where "headers = (if length (get_headers ht) > n then [] else get_headers ht)"
  define s3 where "s3 = (if m_len s2 + ?l + length headers > n \<and> m_current s2 \<noteq> []
                  then overflow_current P n ov headers u s2 else s2)"
  define s4 where "s4 = (if m_len s3 + ?l > hard_cap \<and> m_current s3 \<noteq> [] then flush s3 else s3)"
  have j: "u_start u = j" "j \<le> u_end u" "u_end u = e" "e \<le> length body" "u_text u = slice body j e" using u by auto
  have "merge_ok body n U j (s\<lparr>m_tracker := ht\<rparr>)" using ok by (simp add: merge_ok_tracker)
  then have ok2: "merge_ok body n U j s2" using flush_ok by (auto simp: s2_def)
  have ok3: "merge_ok body n U j s3 \<and> (m_current s3 = [] \<or> m_len s3 + ?l \<le> n)"
    using ok2 overflow_ok [OF ok2 _ j(1)] by (auto simp: s3_def)
  then have ok4: "merge_ok body n U j s4" "m_current s4 = [] \<or> m_len s4 + ?l \<le> n"
    using flush_ok by (auto simp: s4_def)
  obtain i where i: "m_current s4 = [] \<longrightarrow> i = j" "m_current s4 \<noteq> [] \<longrightarrow> cur_ok body i j (m_current s4)" "covered (m_chunks s4) i"
    using ok4(1) by (auto simp: merge_ok_def)
  have "cur_ok body i e (m_current s4 @ [u])"
  proof (cases "m_current s4 = []")
    case True
    then show ?thesis using i(1) u j by (simp add: cur_ok_def)
  next
    case nonempty: False
    then have cur: "cur_ok body i j (m_current s4)" using i(2) by blast
    then have le: "i \<le> e" "e \<le> length body" using j by (auto simp: cur_ok_def)
    show ?thesis
    proof (cases "tiles body i j (m_current s4)")
      case True
      then show ?thesis using u le tiles_append by (auto simp: cur_ok_def)
    next
      case False
      then obtain h us where "m_current s4 = h # us" "u_start h = i" "u_end h = i" "tiles body i j us"
        using cur by (auto simp: cur_ok_def)
      moreover from this have "tiles body i e (us @ [u])" using u tiles_append by blast
      ultimately show ?thesis using le by (auto simp: cur_ok_def)
    qed
  qed
  moreover have "m_len s4 + ?l = length (units_text (m_current s4 @ [u]))" using ok4(1) by (simp add: merge_ok_def)
  moreover have "m_len s4 + ?l \<le> n \<or> (m_len s4 + ?l \<le> hard_cap \<and> (\<exists>v\<in>U. m_current s4 @ [u] = [v]))"
    using ok4 False assms(3) by (auto simp: merge_ok_def)
  moreover have "(\<forall>c\<in>set (m_chunks s4). chunk_ok body c \<and> within_limit n U c)"
      "map chunk_seq (m_chunks s4) = [0..<length (m_chunks s4)]" using ok4(1) by (simp_all add: merge_ok_def)
  ultimately have "merge_ok body n U e (s4\<lparr>m_current := m_current s4 @ [u], m_len := m_len s4 + ?l\<rparr>)"
    unfolding merge_ok_def using i(3) by simp blast
  moreover have "merge_unit P n ov u s = s4\<lparr>m_current := m_current s4 @ [u], m_len := m_len s4 + ?l\<rparr>"
    unfolding merge_unit_def Let_def s4_def s3_def headers_def s2_def ht_def if_not_P [OF False] ..
  ultimately show ?thesis by simp
qed

lemma merge_fold_ok:
  "merge_ok body n U i s \<Longrightarrow> tiles body i j us \<Longrightarrow> set us \<subseteq> U \<Longrightarrow> merge_ok body n U j (fold (merge_unit P n ov) us s)"
proof (induction us arbitrary: i s)
  case (Cons u us)
  then have "tiles body i (u_end u) [u]" by simp
  then have "merge_ok body n U (u_end u) (merge_unit P n ov u s)" using merge_unit_ok Cons.prems by simp
  then show ?case using Cons by simp
qed simp

lemma merge_units_ok:
  assumes "tiles body 0 j us"
  shows "covered (merge_units P us n ov) j
    \<and> (\<forall>c\<in>set (merge_units P us n ov). chunk_ok body c \<and> within_limit n (set us) c)
    \<and> map chunk_seq (merge_units P us n ov) = [0..<length (merge_units P us n ov)]"
proof (cases "us = []")
  case True
  then show ?thesis using assms by (simp add: merge_units_def covered_def)
next
  case False
  define s0 where "s0 = \<lparr>m_tracker = new_tracker, m_chunks = [], m_current = [], m_len = 0\<rparr>"
  define s where "s = fold (merge_unit P n ov) us s0"
  define t where "t = (if m_current s \<noteq> [] then flush s else s)"
  have "merge_ok body n (set us) 0 s0" by (simp add: s0_def merge_ok_def covered_def)
  then have "merge_ok body n (set us) j s" using merge_fold_ok [OF _ assms] by (simp add: s_def)
  then have t: "merge_ok body n (set us) j t" "m_current t = []" using flush_ok by (auto simp: t_def)
  have "merge_units P us n ov = m_chunks t"
    using False unfolding merge_units_def Let_def t_def s_def s0_def by simp
  then show ?thesis using t by (simp add: merge_ok_def)
qed

lemma split_text_ok:
  assumes "patterns_ok P" and "n = (if chunk_size = 0 then default_chunk_size else chunk_size)"
  shows "covered (split_text P body chunk_size overlap seps) (length body)
    \<and> (\<forall>c\<in>set (split_text P body chunk_size overlap seps). chunk_ok body c
        \<and> within_limit n (set (build_units_with_protection P body (protected_spans P body) seps n)) c)
    \<and> map chunk_seq (split_text P body chunk_size overlap seps) = [0..<length (split_text P body chunk_size overlap seps)]"
proof (cases "body = []")
  case False
  have "tiles body 0 (length body) (build_units_with_protection P body (protected_spans P body) seps n)"
    using tiles_build_units [OF assms(1) protected_spans_ok [OF assms(1)], of body seps n]
    by (simp add: build_units_with_protection_def)
  from merge_units_ok [OF this, of P n overlap] False show ?thesis
    by (simp add: split_text_def Let_def assms(2))
qed (simp add: split_text_def covered_def)

subsection \<open>Rune spans\<close>

lemma advance_spec:
  "advance rest bi ri target = (rest', bi', ri') \<Longrightarrow>
   \<exists>k\<le>length rest. rest' = drop k rest \<and> bi' = bi + byte_len (take k rest) \<and> ri' = ri + k
     \<and> (\<forall>m\<le>length rest. bi + byte_len (take m rest) = target \<longrightarrow> k = m)"
proof (induction rest arbitrary: bi ri)
  case (Cons c cs)
  show ?case
  proof (cases "bi < target")
    case True
    then have step: "advance cs (bi + len_utf8 c) (ri + 1) target = (rest', bi', ri')" using Cons.prems by simp
    obtain k where k: "k \<le> length cs" "rest' = drop k cs" "bi' = bi + len_utf8 c + byte_len (take k cs)" "ri' = ri + 1 + k"
        "\<forall>m\<le>length cs. bi + len_utf8 c + byte_len (take m cs) = target \<longrightarrow> k = m"
      using Cons.IH [OF step] by blast
    have "Suc k = m" if m: "m \<le> length (c # cs)" "bi + byte_len (take m (c # cs)) = target" for m
    proof (cases m)
      case (Suc q)
      then have "bi + len_utf8 c + byte_len (take q cs) = target" "q \<le> length cs" using m by simp_all
      then show ?thesis using k(5) Suc by blast
    qed (use m True in simp)
    moreover have "Suc k \<le> length (c # cs)" "rest' = drop (Suc k) (c # cs)" "bi' = bi + byte_len (take (Suc k) (c # cs))"
      "ri' = ri + Suc k" using k(1-4) by simp_all
    ultimately show ?thesis by blast
  next
    case False
    then have r: "rest' = c # cs" "bi' = bi" "ri' = ri" using Cons.prems by simp_all
    have "0 = m" if m: "bi + byte_len (take m (c # cs)) = target" for m
    proof (cases m)
      case (Suc q)
      then have "target = bi + len_utf8 c + byte_len (take q cs)" using m by simp
      then show ?thesis using False len_utf8_pos [of c] by linarith
    qed simp
    then show ?thesis using r by (intro exI [of _ 0]) simp
  qed
qed auto

lemma advance_boundary:
  assumes "is_boundary body a" and "i \<le> rune_index body a"
  shows "advance (drop i body) (byte_len (take i body)) i a = (drop (rune_index body a) body, a, rune_index body a)"
proof -
  let ?m = "rune_index body a - i"
  obtain rest' bi' ri' where adv: "advance (drop i body) (byte_len (take i body)) i a = (rest', bi', ri')"
    by (metis prod_cases3)
  have le: "?m \<le> length (drop i body)" using rune_index_le [of body a] by simp
  have split: "byte_len (take i body) + byte_len (take k (drop i body)) = byte_len (take (i + k) body)" for k
    by (metis byte_len_simps(3) take_add)
  have "byte_len (take i body) + byte_len (take ?m (drop i body)) = a"
    using assms split [of ?m] by (simp add: is_boundary_def)
  then obtain k where "k = ?m" "rest' = drop k (drop i body)" "bi' = byte_len (take i body) + byte_len (take k (drop i body))" "ri' = i + k"
    using advance_spec [OF adv] le by blast
  then show ?thesis using adv assms split [of ?m] by (simp add: is_boundary_def)
qed

lemma spans_rune_from_boundaries:
  "matches_ok body p ss \<Longrightarrow> is_boundary body p \<Longrightarrow>
   spans_rune_from (drop (rune_index body p) body) p (rune_index body p) ss
   = map (\<lambda>(a, b). (rune_index body a, rune_index body b)) ss"
proof (induction ss arbitrary: p)
  case (Cons ab ss)
  obtain a b where ab: "ab = (a, b)" by force
  then have m: "p \<le> a" "a \<le> b" "is_boundary body a" "is_boundary body b" "matches_ok body b ss" using Cons.prems by simp_all
  have ri: "byte_len (take (rune_index body p) body) = p" "byte_len (take (rune_index body a) body) = a"
    using Cons.prems(2) m(3) by (simp_all add: is_boundary_def)
  have "rune_index body p \<le> rune_index body a" "rune_index body a \<le> rune_index body b"
    using m Cons.prems(2) rune_index_mono by blast+
  then show ?case
    using advance_boundary [OF m(3), of "rune_index body p"] advance_boundary [OF m(4), of "rune_index body a"]
      Cons.IH [OF m(5,4)] by (simp add: ab ri)
qed simp

subsection \<open>A literal matcher\<close>

lemma literal_matches_ok:
  "body = pre @ rest \<Longrightarrow> pos = byte_len pre \<Longrightarrow> matches_ok body pos (literal_matches sep pos rest)"
proof (induction sep pos rest arbitrary: pre rule: literal_matches.induct)
  case (1 sep pos rest)
  have bnd: "is_boundary body (byte_len xs)" if "body = xs @ ys" for xs ys
    using that by (auto simp: boundary_iff intro!: exI [of _ "length xs"])
  consider "rest = []" | (hit) "rest \<noteq> []" "sep \<noteq> []" "prefix sep rest" | (miss) "rest \<noteq> []" "\<not> (sep \<noteq> [] \<and> prefix sep rest)"
    by blast
  then show ?case
  proof cases
    case hit
    then obtain tail where tail: "rest = sep @ tail" by (auto simp: prefix_def)
    have "matches_ok body (pos + byte_len sep) (literal_matches sep (pos + byte_len sep) (drop (length sep) rest))"
      using 1(1) [OF hit(1) _, of "pre @ sep"] hit 1 tail by simp
    moreover have "is_boundary body pos" "is_boundary body (pos + byte_len sep)"
      using bnd [of pre rest] bnd [of "pre @ sep" tail] 1 tail by simp_all
    ultimately show ?thesis
      using hit by (subst literal_matches.simps) simp
  next
    case miss
    then obtain c cs where rest: "rest = c # cs" by (cases rest) auto
    have "matches_ok body (pos + len_utf8 c) (literal_matches sep (pos + len_utf8 c) cs)"
      using 1(2) [OF miss, of "pre @ [c]"] 1 rest by simp
    moreover have "matches_ok body p ms \<Longrightarrow> q \<le> p \<Longrightarrow> matches_ok body q ms" for p q ms
      by (cases ms) auto
    ultimately have "matches_ok body pos (literal_matches sep (pos + len_utf8 c) cs)" by (meson le_add1)
    moreover have "literal_matches sep pos rest = literal_matches sep (pos + len_utf8 c) cs"
      using miss rest by (subst literal_matches.simps) auto
    ultimately show ?thesis by simp
  qed (simp add: literal_matches.simps)
qed

definition plain_patterns :: patterns where
  "plain_patterns = \<lparr>protected_patterns = [], separator_pattern = (\<lambda>sep t. literal_matches sep 0 t), table_start = (\<lambda>t. None),
     table_end = (\<lambda>t. False), table_row = (\<lambda>t. False), markdown_heading = (\<lambda>t. None), numbered_section = (\<lambda>t. False),
     all_caps_heading = (\<lambda>t. False), visual_separator = (\<lambda>t. False), excessive_blanks = (\<lambda>t. []), page_footer = (\<lambda>t. False),
     german_chapter = (\<lambda>t. False), english_chapter = (\<lambda>t. False), chinese_chapter = (\<lambda>t. False)\<rparr>"

lemma plain_patterns_ok: "patterns_ok plain_patterns"
  using literal_matches_ok [of _ "[]"] by (simp add: patterns_ok_def plain_patterns_def find_iter_ok_def)

subsection \<open>Properties\<close>

text \<open>
  Cutting a text at its separators loses nothing: for every list of separators and every size
  the pieces, separators included, concatenate to the text.
\<close>

lemma split_by_separators_lossless:
  assumes "patterns_ok P"
  shows "concat (split_by_separators P body seps chunk_size) = body"
  by (rule concat_split_by_separators [OF assms])

text \<open>
  The units handed to the merge tile the text: each starts where the one before it ends, the
  first at 0 and the last at the end, and each holds exactly the characters of its range.
\<close>

lemma units_tile_text:
  assumes "patterns_ok P"
  shows "tiles body 0 (length body) (build_units_with_protection P body (protected_spans P body) seps chunk_size)
    \<and> concat (map u_text (build_units_with_protection P body (protected_spans P body) seps chunk_size)) = body"
proof -
  have "tiles body 0 (length body) (build_units_with_protection P body (protected_spans P body) seps chunk_size)"
    using tiles_build_units [OF assms protected_spans_ok [OF assms], of body seps chunk_size]
    by (simp add: build_units_with_protection_def)
  then show ?thesis using tiles_text by (fastforce simp: units_text_def)
qed

text \<open>
  C10: the splitter loses no text.  Whatever the size, overlap and separators, every chunk is the
  slice of the text at its offsets, after a repeated table header if there is one, every position
  of the text lies in some chunk, and the chunks are numbered in order.
\<close>

theorem split_text_faithful:
  assumes "patterns_ok P"
  shows "(\<forall>c\<in>set (split_text P body chunk_size overlap seps). chunk_start c \<le> chunk_end c \<and> chunk_end c \<le> length body
        \<and> (\<exists>hdr. content c = hdr @ slice body (chunk_start c) (chunk_end c)))
    \<and> (\<forall>k<length body. \<exists>c\<in>set (split_text P body chunk_size overlap seps). chunk_start c \<le> k \<and> k < chunk_end c)
    \<and> map chunk_seq (split_text P body chunk_size overlap seps) = [0..<length (split_text P body chunk_size overlap seps)]"
  using split_text_ok [OF assms refl, of body chunk_size overlap seps] by (simp add: covered_def chunk_ok_def)

theorem split_text_faithful_witness:
  "map content (split_text plain_patterns (lit ''ab cd ef'') 5 0 [lit '' '']) = [lit ''ab cd'', lit '' ef'']
   \<and> covered (split_text plain_patterns (lit ''ab cd ef'') 5 0 [lit '' '']) 8"
proof -
  have "map content (split_text plain_patterns (lit ''ab cd ef'') 5 0 [lit '' '']) = [lit ''ab cd'', lit '' ef'']" by code_simp
  moreover have "length (lit ''ab cd ef'') = 8" by (simp add: lit_def)
  ultimately show ?thesis using split_text_faithful [OF plain_patterns_ok, of "lit ''ab cd ef''" 5 0 "[lit '' '']"]
    by (simp add: covered_def)
qed

text \<open>
  C11: chunk sizes.  A chunk, with its repeated header, is at most the chunk size long; the only
  exception is a chunk that is a single unit (or a piece of one) that could not be cut, and that
  is at most the hard cap of 7500 characters.
\<close>

theorem split_text_bounded:
  assumes "patterns_ok P" and "0 < chunk_size" and "c \<in> set (split_text P body chunk_size overlap seps)"
  shows "length (content c) \<le> chunk_size
    \<or> (length (content c) \<le> 7500 \<and>
       (\<exists>u\<in>set (build_units_with_protection P body (protected_spans P body) seps chunk_size). sublist (content c) (u_text u)))"
  using split_text_ok [OF assms(1) refl, of body chunk_size overlap seps] assms(2,3)
  by (auto simp: within_limit_def hard_cap_def)

theorem split_text_bounded_witness:
  "\<exists>c\<in>set (split_text plain_patterns (lit ''abcdefgh ij'') 5 0 [lit '' '']). length (content c) = 8 \<and> length (content c) \<le> 7500"
proof -
  have in_set: "\<lparr>content = lit ''abcdefgh'', context_header = [], chunk_seq = 0, chunk_start = 0, chunk_end = 8\<rparr>
    \<in> set (split_text plain_patterns (lit ''abcdefgh ij'') 5 0 [lit '' ''])" by code_simp
  from split_text_bounded [OF plain_patterns_ok _ this] show ?thesis
    using in_set by (intro bexI [OF _ in_set]) (auto simp: lit_def)
qed

text \<open>
  Converting protected spans from byte to character offsets in one pass over the text gives,
  for every list of matches, the character index of each bound.
\<close>

lemma protected_spans_rune_correct:
  assumes "matches_ok body 0 spans"
  shows "protected_spans_rune body spans = map (\<lambda>(a, b). (rune_index body a, rune_index body b)) spans"
  using spans_rune_from_boundaries [OF assms] by (simp add: protected_spans_rune_def)

end
