(* ===== verification/Chunk_Spec.thy ===== *)
theory Chunk_Spec
  imports Splitter_Props Heading_Split
begin

text \<open>
  What every tier of the chunker promises.  A chunk is faithful when its content contains, in order, the
  characters of the text at its offsets (a repeated table header may stand among them); a list of chunks is
  a chunking of a text when its chunks are faithful, numbered from 0, and every character that is not white
  space lies in one.  The locale states this as the contract of a tier and derives what its callers use; the
  legacy, heading and heuristic tiers and the adaptive entry are its interpretations.
\<close>

definition faithful :: "rstr \<Rightarrow> text_chunk \<Rightarrow> bool" where
  "faithful body c \<longleftrightarrow> chunk_start c \<le> chunk_end c \<and> chunk_end c \<le> length body
     \<and> subseq (slice body (chunk_start c) (chunk_end c)) (content c)"

definition covers :: "text_chunk list \<Rightarrow> nat \<Rightarrow> bool" where
  "covers cs k \<longleftrightarrow> (\<exists>c\<in>set cs. chunk_start c \<le> k \<and> k < chunk_end c)"

definition chunking :: "rstr \<Rightarrow> text_chunk list \<Rightarrow> bool" where
  "chunking body cs \<longleftrightarrow> (\<forall>c\<in>set cs. faithful body c)
     \<and> (\<forall>k<length body. \<not> is_whitespace (body ! k) \<longrightarrow> covers cs k)
     \<and> map chunk_seq cs = [0..<length cs]"

definition shift_chunk :: "nat \<Rightarrow> text_chunk \<Rightarrow> text_chunk" where
  "shift_chunk n c = c\<lparr>chunk_start := n + chunk_start c, chunk_end := n + chunk_end c\<rparr>"

locale chunk_tier =
  fixes run :: "patterns \<Rightarrow> splitter_config \<Rightarrow> rstr \<Rightarrow> text_chunk list"
  assumes run_chunking: "patterns_ok P \<Longrightarrow> 0 < chunk_size cfg \<Longrightarrow> chunking body (run P cfg body)"
begin

lemma run_nonempty:
  "patterns_ok P \<Longrightarrow> 0 < chunk_size cfg \<Longrightarrow> c \<in> set body \<Longrightarrow> \<not> is_whitespace c \<Longrightarrow> run P cfg body \<noteq> []"
proof -
  assume P: "patterns_ok P" "0 < chunk_size cfg" and c: "c \<in> set body" "\<not> is_whitespace c"
  obtain k where "k < length body" "body ! k = c" using c by (auto simp: in_set_conv_nth)
  then have "covers (run P cfg body) k" using run_chunking [OF P, of body] c by (simp add: chunking_def)
  then show ?thesis by (auto simp: covers_def)
qed

text \<open>A tier run on a slice, with its offsets moved, is faithful to the whole text.\<close>

lemma run_on_slice:
  assumes P: "patterns_ok P" "0 < chunk_size cfg" and ij: "i \<le> j" "j \<le> length body"
  shows "c \<in> set (run P cfg (slice body i j)) \<Longrightarrow> faithful body (shift_chunk i c)"
    and "i \<le> k \<Longrightarrow> k < j \<Longrightarrow> \<not> is_whitespace (body ! k) \<Longrightarrow> covers (map (shift_chunk i) (run P cfg (slice body i j))) k"
proof -
  have len: "length (slice body i j) = j - i" using ij by simp
  {
    assume "c \<in> set (run P cfg (slice body i j))"
    then have f: "faithful (slice body i j) c" using run_chunking [OF P, of "slice body i j"] by (auto simp: chunking_def)
    then have "slice (slice body i j) (chunk_start c) (chunk_end c) = slice body (i + chunk_start c) (i + chunk_end c)"
      by (intro slice_slice) (simp add: faithful_def)
    then show "faithful body (shift_chunk i c)" using f len ij by (auto simp: faithful_def shift_chunk_def)
  }
  {
    assume k: "i \<le> k" "k < j" "\<not> is_whitespace (body ! k)"
    have "slice body i j ! (k - i) = body ! k" using k ij by (simp add: slice_def)
    moreover have "k - i < length (slice body i j)" using k len by simp
    ultimately have "covers (run P cfg (slice body i j)) (k - i)"
      using run_chunking [OF P, of "slice body i j"] k(3) unfolding chunking_def by metis
    then obtain d where "d \<in> set (run P cfg (slice body i j))" "chunk_start d \<le> k - i" "k - i < chunk_end d"
      by (auto simp: covers_def)
    then show "covers (map (shift_chunk i) (run P cfg (slice body i j))) k"
      using k by (auto simp: covers_def shift_chunk_def intro!: bexI [of _ d])
  }
qed

end

lemma chunk_ok_faithful: "chunk_ok body c \<Longrightarrow> faithful body c"
  by (auto simp: chunk_ok_def faithful_def)

lemma split_cfg_chunking: "patterns_ok P \<Longrightarrow> chunking body (split_cfg P cfg body)"
  using split_text_ok [OF _ refl, of P body "chunk_size cfg" "chunk_overlap cfg" "separators cfg"] chunk_ok_faithful
  by (auto simp: chunking_def split_cfg_def covered_def covers_def)

interpretation legacy: chunk_tier split_cfg
  by unfold_locales (rule split_cfg_chunking)

lemma split_cfg_nonempty: "patterns_ok P \<Longrightarrow> body \<noteq> [] \<Longrightarrow> split_cfg P cfg body \<noteq> []"
  using split_text_ok [OF _ refl, of P body "chunk_size cfg" "chunk_overlap cfg" "separators cfg"]
  by (force simp: split_cfg_def covered_def)

lemma split_cfg_bounded:
  assumes "patterns_ok P" and "c \<in> set (split_cfg P cfg body)" and "0 < chunk_size cfg"
  shows "length (content c) \<le> max (chunk_size cfg) hard_cap"
  using split_text_ok [OF assms(1) refl, of body "chunk_size cfg" "chunk_overlap cfg" "separators cfg"] assms(2,3)
  by (auto simp: split_cfg_def within_limit_def)

lemma covers_append [simp]: "covers (cs @ ds) k \<longleftrightarrow> covers cs k \<or> covers ds k"
  by (auto simp: covers_def)

lemma covers_Nil [simp]: "\<not> covers [] k"
  by (simp add: covers_def)

lemma covers_Cons [simp]: "covers (c # cs) k \<longleftrightarrow> (chunk_start c \<le> k \<and> k < chunk_end c) \<or> covers cs k"
  by (auto simp: covers_def)

text \<open>Chunks that agree in offsets and content are equally faithful and cover the same characters.\<close>

lemma faithful_cong:
  "chunk_start c = chunk_start d \<Longrightarrow> chunk_end c = chunk_end d \<Longrightarrow> content c = content d \<Longrightarrow> faithful body c \<longleftrightarrow> faithful body d"
  by (simp add: faithful_def)

lemma covers_map_enumerate:
  assumes "\<And>i c. chunk_start (f (i, c)) = chunk_start (g c) \<and> chunk_end (f (i, c)) = chunk_end (g c)"
  shows "covers (map f (enumerate n cs)) k \<longleftrightarrow> covers (map g cs) k"
  by (induction cs arbitrary: n) (simp_all add: assms)

end
