(* ===== verification/Chunk_Profile_Props.thy ===== *)
theory Chunk_Profile_Props
  imports Chunk_Profile Splitter_Props
begin

text \<open>
  Token budgets, language detection and the profile behave as their comments say: the doubles of
  the code decide exactly as rational arithmetic does on every text of fewer than \<open>2 ^ 40\<close> characters, the
  heading counts of a profile are consistent, and the strategy chain follows from them.
\<close>

subsection \<open>Thresholds\<close>

lemma val_literals:
  "val f64_0_9 = 8106479329266893 / 2 ^ 53" "val f64_0_15 = 5404319552844595 / 2 ^ 55"
  "val f64_0_3 = 5404319552844595 / 2 ^ 54" "val f64_0_005 = 5764607523034235 / 2 ^ 60"
  "val f64_1_7 = 7656119366529843 / 2 ^ 52"
  unfolding val_def f64_0_9_def f64_0_15_def f64_0_3_def f64_0_005_def f64_1_7_def fst_conv snd_conv powr_nat_split
  by simp_all

lemma literals_close:
  "\<bar>val f64_0_15 - 3 / 20\<bar> \<le> ulp" "\<bar>val f64_0_3 - 3 / 10\<bar> \<le> ulp" "\<bar>val f64_0_005 - 1 / 200\<bar> \<le> ulp"
  by (simp_all add: val_literals ulp_def)

lemma ulp_pos: "0 < ulp"
  by (simp add: ulp_def)

lemma ratio_error:
  assumes "0 < d" and "d < 2 ^ 40" and "n \<le> d"
  shows "\<bar>val (f64_div (f64_of_nat n) (f64_of_nat d)) - real n / real d\<bar> \<le> ulp"
    and "val (f64_of_nat n) / val (f64_of_nat d) = real n / real d" and "0 < fst (f64_of_nat d)"
proof -
  have nd: "n < 2 ^ 53" "d < 2 ^ 53" using assms by simp_all
  show v: "val (f64_of_nat n) / val (f64_of_nat d) = real n / real d" using nd by (simp add: f64_of_nat_exact)
  show pos: "0 < fst (f64_of_nat d)" using f64_of_nat_pos assms(1) nd by simp
  have "real n / real d \<le> 1" using assms by simp
  then have "real n / real d * ulp \<le> 1 * ulp" by (intro mult_right_mono) (simp_all add: ulp_def)
  then show "\<bar>val (f64_div (f64_of_nat n) (f64_of_nat d)) - real n / real d\<bar> \<le> ulp"
    using f64_div_error [OF pos, of "f64_of_nat n"] unfolding v by simp
qed

lemma ratio_gap:
  assumes "0 < d" and "d < 2 ^ 40" and "a * d < k * n" and "0 < k" and "k \<le> 200"
  shows "real a / real k + 4 * ulp < real n / real d"
proof -
  have "real (a * d + 1) \<le> real (k * n)" using assms(3) by (simp only: of_nat_le_iff)
  then have "real a * real d + 1 \<le> real k * real n" by simp
  then have "1 / (real k * real d) \<le> (real k * real n - real a * real d) / (real k * real d)"
    by (intro divide_right_mono) simp_all
  also have "\<dots> = real n / real d - real a / real k" using assms by (simp add: field_simps)
  finally have "real a / real k + 1 / (real k * real d) \<le> real n / real d" by simp
  moreover have "real (k * d) < real (200 * 2 ^ 40)" unfolding of_nat_less_iff using assms
    by (intro mult_le_less_imp_less) simp_all
  then have "real k * real d < 200 * 2 ^ 40" by simp
  then have "1 / (200 * 2 ^ 40) < 1 / (real k * real d)" using assms by (intro divide_strict_left_mono) simp_all
  moreover have "4 * ulp < 1 / (200 * 2 ^ 40)" by (simp add: ulp_def)
  ultimately show ?thesis by linarith
qed

lemma ratio_gap_below:
  assumes "0 < d" and "d < 2 ^ 40" and "k * n < a * d" and "0 < k" and "k \<le> 200"
  shows "real n / real d < real a / real k - 4 * ulp"
proof -
  have "real (k * n + 1) \<le> real (a * d)" using assms(3) by (simp only: of_nat_le_iff)
  then have "real k * real n + 1 \<le> real a * real d" by simp
  then have "1 / (real k * real d) \<le> (real a * real d - real k * real n) / (real k * real d)"
    by (intro divide_right_mono) simp_all
  also have "\<dots> = real a / real k - real n / real d" using assms by (simp add: field_simps)
  finally have "real n / real d + 1 / (real k * real d) \<le> real a / real k" by simp
  moreover have "real (k * d) < real (200 * 2 ^ 40)" unfolding of_nat_less_iff using assms
    by (intro mult_le_less_imp_less) simp_all
  then have "real k * real d < 200 * 2 ^ 40" by simp
  then have "1 / (200 * 2 ^ 40) < 1 / (real k * real d)" using assms by (intro divide_strict_left_mono) simp_all
  moreover have "4 * ulp < 1 / (200 * 2 ^ 40)" by (simp add: ulp_def)
  ultimately show ?thesis by linarith
qed

lemma ratio_at_least_15_percent:
  assumes "0 < d" and "d < 2 ^ 40" and "n \<le> d"
  shows "f64_le f64_0_15 (f64_div (f64_of_nat n) (f64_of_nat d)) \<longleftrightarrow> 3 * d \<le> 20 * n"
proof (cases "3 * d \<le> 20 * n")
  case True
  then have "real (3 * d) \<le> real (20 * n)" by (simp only: of_nat_le_iff)
  then have "3 / 20 \<le> real n / real d" using assms(1) by (simp add: field_simps)
  then have "val f64_0_15 \<le> real n / real d" by (simp add: val_literals)
  then show ?thesis
    using True f64_repr_le_div [OF ratio_error(3) [OF assms], of f64_0_15 "f64_of_nat n"] ratio_error(2) [OF assms]
    by (simp add: f64_le_val f64_0_15_def)
next
  case False
  then have "real n / real d < 3 / 20 - 4 * ulp" using ratio_gap_below [of d 20 n 3] assms by simp
  then have "val (f64_div (f64_of_nat n) (f64_of_nat d)) < val f64_0_15"
    using ratio_error(1) [OF assms] literals_close ulp_pos by linarith
  then show ?thesis using False by (simp add: f64_le_val)
qed

lemma ratio_over_30_percent:
  assumes "0 < d" and "d < 2 ^ 40" and "n \<le> d" and "10 * n \<noteq> 3 * d"
  shows "f64_less f64_0_3 (f64_div (f64_of_nat n) (f64_of_nat d)) \<longleftrightarrow> 3 * d < 10 * n"
proof (cases "3 * d < 10 * n")
  case True
  then have "3 / 10 + 4 * ulp < real n / real d" using ratio_gap [of d 3 10 n] assms by simp
  then have "val f64_0_3 < val (f64_div (f64_of_nat n) (f64_of_nat d))"
    using ratio_error(1) [OF assms(1-3)] literals_close ulp_pos by linarith
  then show ?thesis using True by (simp add: f64_less_val)
next
  case False
  then have "real n / real d < 3 / 10 - 4 * ulp" using ratio_gap_below [of d 10 n 3] assms by simp
  then have "val (f64_div (f64_of_nat n) (f64_of_nat d)) < val f64_0_3"
    using ratio_error(1) [OF assms(1-3)] literals_close ulp_pos by linarith
  then show ?thesis using False by (simp add: f64_less_val)
qed

lemma ratio_over_half_percent:
  assumes "0 < d" and "d < 2 ^ 40" and "n \<le> d"
  shows "f64_less f64_0_005 (f64_div (f64_of_nat n) (f64_of_nat d)) \<longleftrightarrow> d < 200 * n"
proof (cases "d < 200 * n")
  case True
  then have "1 / 200 + 4 * ulp < real n / real d" using ratio_gap [of d 1 200 n] assms by simp
  then have "val f64_0_005 < val (f64_div (f64_of_nat n) (f64_of_nat d))"
    using ratio_error(1) [OF assms] literals_close ulp_pos by linarith
  then show ?thesis using True by (simp add: f64_less_val)
next
  case False
  then have "real (200 * n) \<le> real d" by (simp only: of_nat_le_iff not_less)
  then have "real n / real d \<le> 1 / 200" using assms(1) by (simp add: field_simps)
  then have "real n / real d \<le> val f64_0_005" by (simp add: val_literals)
  then have "val (f64_div (f64_of_nat n) (f64_of_nat d)) \<le> val f64_0_005"
    using f64_div_le_repr [OF ratio_error(3) [OF assms], of f64_0_005 "f64_of_nat n"] ratio_error(2) [OF assms]
    by (simp add: f64_0_005_def)
  then show ?thesis using False by (simp add: f64_less_val)
qed

subsection \<open>Token budget\<close>

lemma close_bounds: "0 \<le> x \<Longrightarrow> \<bar>y - x\<bar> \<le> x * ulp \<Longrightarrow> 0.9999 * x \<le> y \<and> y \<le> 1.0001 * x"
proof -
  assume x: "0 \<le> x" and y: "\<bar>y - x\<bar> \<le> x * ulp"
  have "x * ulp \<le> x * 0.0001" using x by (intro mult_left_mono) (simp_all add: ulp_def)
  then have "\<bar>y - x\<bar> \<le> x / 10000" using y by simp
  then have "- (x / 10000) \<le> y - x" "y - x \<le> x / 10000" by linarith+
  then show ?thesis by simp
qed

lemma chars_per_token_bounds: "1 < val (chars_per_token lang) \<and> val (chars_per_token lang) \<le> 4.5"
  by (simp add: chars_per_token_def val_literals) (simp add: val_def powr_nat_split)

lemma token_product_bounds:
  "0.89 * (val (chars_per_token lang) * real tokens)
     \<le> val (f64_mul (f64_mul (f64_of_nat tokens) (chars_per_token lang)) f64_0_9) \<and>
   val (f64_mul (f64_mul (f64_of_nat tokens) (chars_per_token lang)) f64_0_9)
     \<le> 0.91 * (val (chars_per_token lang) * real tokens)"
proof -
  define r t a b where "r = val (chars_per_token lang)" and "t = val (f64_of_nat tokens)"
    and "a = val (f64_mul (f64_of_nat tokens) (chars_per_token lang))"
    and "b = val (f64_mul (f64_mul (f64_of_nat tokens) (chars_per_token lang)) f64_0_9)"
  have r: "0 \<le> r" "0 \<le> t" "0 \<le> a" by (simp_all add: r_def t_def a_def)
  have t: "0.9999 * real tokens \<le> t \<and> t \<le> 1.0001 * real tokens"
    using close_bounds f64_of_nat_error unfolding t_def by simp
  have a: "0.9999 * (t * r) \<le> a \<and> a \<le> 1.0001 * (t * r)"
    using close_bounds [of "t * r" a] f64_mul_error [of "f64_of_nat tokens" "chars_per_token lang"] r
    by (simp add: a_def t_def r_def)
  have b: "0.9999 * (a * val f64_0_9) \<le> b \<and> b \<le> 1.0001 * (a * val f64_0_9)"
    unfolding a_def b_def by (intro close_bounds f64_mul_error) simp
  have "0.8999 * a \<le> b \<and> b \<le> 0.9001 * a" using b r(3) by (simp add: val_literals)
  moreover have "0.9999 * real tokens * r \<le> t * r \<and> t * r \<le> 1.0001 * real tokens * r"
    using t r(1) by (intro conjI mult_right_mono) simp_all
  moreover have "0 \<le> r * real tokens" using r by simp
  ultimately show ?thesis using a unfolding r_def [symmetric] b_def [symmetric]
    by (simp add: mult.commute mult.left_commute)
qed


subsection \<open>Languages\<close>

abbreviation cjk_count :: "rstr \<Rightarrow> nat" where
  "cjk_count s \<equiv> length (filter is_cjk s)"

abbreviation latin_count :: "rstr \<Rightarrow> nat" where
  "latin_count s \<equiv> length (filter (\<lambda>r. \<not> is_cjk r \<and> (is_german_umlaut r \<or> is_ascii_alphabetic r)) s)"

lemma fold_count_script:
  "fold count_script s (a, b, c) =
     (a + cjk_count s, b + latin_count s, c + length (filter (\<lambda>r. \<not> is_cjk r \<and> is_german_umlaut r) s))"
  by (induction s arbitrary: a b c) (auto simp: count_script_def)

lemma umlaut_not_cjk: "is_german_umlaut r \<Longrightarrow> \<not> is_cjk r"
  by (auto simp: is_german_umlaut_def is_cjk_def)

lemma umlaut_count_pos: "0 < length (filter (\<lambda>r. \<not> is_cjk r \<and> is_german_umlaut r) s) \<longleftrightarrow> list_ex is_german_umlaut s"
  using umlaut_not_cjk by (auto simp: list_ex_iff filter_empty_conv)

subsection \<open>Heading counts\<close>

definition headings_ok :: "doc_profile \<Rightarrow> bool" where
  "headings_ok p \<longleftrightarrow> length (md_heading_counts p) = 7 \<and> md_heading_counts p ! 0 = 0
     \<and> md_heading_total p = sum_list (md_heading_counts p)"

lemma count_markers_headings [simp]:
  "md_heading_counts (count_markers P line p) = md_heading_counts p"
  "md_heading_total (count_markers P line p) = md_heading_total p"
  by (simp_all add: count_markers_def Let_def)

lemma count_markers_total_lines [simp]:
  "total_lines (count_markers P line p) = total_lines p"
  by (simp add: count_markers_def Let_def)

lemma profile_line_lines [simp]: "total_lines (pl_profile (profile_line P line l)) = total_lines (pl_profile l)"
  by (simp add: profile_line_def Let_def split: prod.splits)

lemma profile_line_headings:
  assumes "headings_ok (pl_profile l)"
  shows "headings_ok (pl_profile (profile_line P line l)) \<and>
    md_heading_total (pl_profile (profile_line P line l)) \<le> md_heading_total (pl_profile l) + 1"
proof -
  let ?c = "md_heading_counts (pl_profile l)"
  have "headings_ok (pl_profile l\<lparr>md_heading_counts := ?c[k := ?c ! k + 1], md_heading_total := md_heading_total (pl_profile l) + 1\<rparr>)"
    if "1 \<le> k" "k \<le> 6" for k
    using assms that by (simp add: headings_ok_def sum_list_update)
  then show ?thesis
    using assms by (auto simp: profile_line_def match_heading_def Let_def headings_ok_def split: option.splits prod.splits)
qed

lemma profile_fold_headings:
  "headings_ok (pl_profile l) \<Longrightarrow> headings_ok (pl_profile (fold (profile_line P) ls l)) \<and>
    md_heading_total (pl_profile (fold (profile_line P) ls l)) \<le> md_heading_total (pl_profile l) + length ls \<and>
    total_lines (pl_profile (fold (profile_line P) ls l)) = total_lines (pl_profile l)"
proof (induction ls arbitrary: l)
  case (Cons line ls)
  note step = profile_line_headings [OF Cons.prems, of P line]
  show ?case using Cons.IH [of "profile_line P line l"] step by simp
qed simp

lemma line_stats_fields [simp]:
  "md_heading_counts (line_stats ls p) = md_heading_counts p" "md_heading_total (line_stats ls p) = md_heading_total p"
  "total_lines (line_stats ls p) = total_lines p"
  by (simp_all add: line_stats_def Let_def)

lemma profile_document_headings:
  "headings_ok (profile_document P body) \<and> md_heading_total (profile_document P body) \<le> total_lines (profile_document P body)"
proof (cases "body = []")
  case True
  then show ?thesis by (simp add: profile_document_def headings_ok_def default_profile_def)
next
  case False
  define p0 where "p0 = default_profile\<lparr>total_chars := length body, form_feed_count := count_list body 12,
    total_lines := length (split_char newline body)\<rparr>"
  have "headings_ok p0" "md_heading_total p0 = 0" "total_lines p0 = length (split_char newline body)"
    by (simp_all add: p0_def headings_ok_def default_profile_def)
  then have "headings_ok (pl_profile (fold (profile_line P) (split_char newline body)
        \<lparr>pl_profile = p0, pl_fence = False, pl_code = 0, pl_lengths = []\<rparr>)) \<and>
      md_heading_total (pl_profile (fold (profile_line P) (split_char newline body)
        \<lparr>pl_profile = p0, pl_fence = False, pl_code = 0, pl_lengths = []\<rparr>))
      \<le> total_lines (pl_profile (fold (profile_line P) (split_char newline body)
        \<lparr>pl_profile = p0, pl_fence = False, pl_code = 0, pl_lengths = []\<rparr>))"
    using profile_fold_headings [of "\<lparr>pl_profile = p0, pl_fence = False, pl_code = 0, pl_lengths = []\<rparr>" P "split_char newline body"]
    by simp
  then show ?thesis
    using False by (simp add: profile_document_def Let_def headings_ok_def p0_def [symmetric])
qed

lemma find_least:
  assumes "find Q [a..<b] = Some k"
  shows "Q k \<and> a \<le> k \<and> k < b \<and> (\<forall>j. a \<le> j \<longrightarrow> j < k \<longrightarrow> \<not> Q j)"
proof -
  obtain i where i: "i < length [a..<b]" "Q ([a..<b] ! i)" "k = [a..<b] ! i" "\<And>j. j < i \<Longrightarrow> \<not> Q ([a..<b] ! j)"
    using assms unfolding find_Some_iff by blast
  have "\<not> Q j" if "a \<le> j" "j < k" for j
    using i(4) [of "j - a"] that i(1,3) by simp
  then show ?thesis using i by auto
qed

lemma find_greatest:
  assumes "find Q (rev [a..<b]) = Some k"
  shows "Q k \<and> a \<le> k \<and> k < b \<and> (\<forall>j. k < j \<longrightarrow> j < b \<longrightarrow> \<not> Q j)"
proof -
  obtain i where i: "i < b - a" "Q (rev [a..<b] ! i)" "k = rev [a..<b] ! i" "\<And>j. j < i \<Longrightarrow> \<not> Q (rev [a..<b] ! j)"
    using assms unfolding find_Some_iff by auto
  have nth: "rev [a..<b] ! j = b - Suc j" if "j < b - a" for j using that by (simp add: rev_nth)
  have "\<not> Q j" if "k < j" "j < b" for j
    using i(4) [of "b - Suc j"] that i(1,3) nth [of "b - Suc j"] nth [of i] by simp
  then show ?thesis using i nth [of i] by auto
qed

lemma dominant_level_spec:
  assumes "headings_ok p" and "0 < md_heading_total p"
  shows "1 \<le> dominant_heading_level p \<and> dominant_heading_level p \<le> 6 \<and> 0 < md_heading_counts p ! dominant_heading_level p
    \<and> (\<forall>k. 1 \<le> k \<longrightarrow> k < dominant_heading_level p \<longrightarrow> md_heading_counts p ! k < 3)
    \<and> (md_heading_counts p ! dominant_heading_level p < 3 \<longrightarrow>
        (\<forall>k. dominant_heading_level p < k \<longrightarrow> k \<le> 6 \<longrightarrow> md_heading_counts p ! k = 0))"
proof -
  let ?c = "md_heading_counts p"
  show ?thesis
  proof (cases "find (\<lambda>level. ?c ! level \<ge> 3) [1..<7]")
    case (Some k)
    then show ?thesis using find_least [OF Some] assms(2) by (auto simp: dominant_heading_level_def not_le)
  next
    case None
    then have small: "?c ! k < 3" if "1 \<le> k" "k < 7" for k using that unfolding find_None_iff by auto
    obtain i where i: "i < 7" "?c ! i \<noteq> 0"
      using assms by (metis (no_types, lifting) headings_ok_def in_set_conv_nth less_numeral_extra(3) sum_list_eq_0_iff)
    then have "i \<noteq> 0" using assms(1) by (auto simp: headings_ok_def intro: gr0I)
    then have "find (\<lambda>level. 0 < ?c ! level) (rev [1..<7]) \<noteq> None" using i unfolding find_None_iff by auto
    then obtain k where k: "find (\<lambda>level. 0 < ?c ! level) (rev [1..<7]) = Some k" by blast
    have "dominant_heading_level p = k" using assms(2) None k by (simp add: dominant_heading_level_def)
    then show ?thesis using find_greatest [OF k] small by auto
  qed
qed

text \<open>
  A concrete heading pattern for the examples: one to six hashes, white space and a title, as the
  program's expression for ATX headings asks.
\<close>

definition atx_heading :: "rstr \<Rightarrow> (rstr option \<times> rstr option) option" where
  "atx_heading line =
     (let hashes = takeWhile (\<lambda>c. c = 35) line; rest = dropWhile (\<lambda>c. c = 35) line in
      if 1 \<le> length hashes \<and> length hashes \<le> 6 \<and> rest \<noteq> [] \<and> is_whitespace (hd rest) \<and> trim rest \<noteq> []
      then Some (Some hashes, Some (trim rest)) else None)"

definition atx_patterns :: patterns where
  "atx_patterns = plain_patterns\<lparr>markdown_heading := atx_heading\<rparr>"

lemma atx_patterns_ok: "patterns_ok atx_patterns"
  using plain_patterns_ok by (simp add: patterns_ok_def atx_patterns_def)

subsection \<open>Properties\<close>

text \<open>
  The character budget for a token limit is conservative: it never exceeds the limit times the
  characters per token of the language, and stays within eleven percent (and one character) of it.
\<close>

lemma token_budget_conservative:
  assumes "tokens \<le> 2 ^ 60"
  shows "real (chars_for_token_limit tokens lang) \<le> val (chars_per_token lang) * real tokens
    \<and> 0.89 * (val (chars_per_token lang) * real tokens) - 1 \<le> real (chars_for_token_limit tokens lang)"
proof (cases "tokens = 0")
  case False
  define b where "b = val (f64_mul (f64_mul (f64_of_nat tokens) (chars_per_token lang)) f64_0_9)"
  define x where "x = val (chars_per_token lang) * real tokens"
  have b: "89 / 100 * x \<le> b" "b \<le> 91 / 100 * x" using token_product_bounds [of lang tokens] by (simp_all add: b_def x_def)
  have "real tokens \<le> 2 ^ 60" using assms by (metis of_nat_le_numeral_power_cancel_iff of_nat_numeral)
  then have "x \<le> 4.5 * 2 ^ 60" unfolding x_def using chars_per_token_bounds by (intro mult_mono) simp_all
  then have "b < 2 ^ 64 - 1" using b(2) by simp
  then have "nat \<lfloor>b\<rfloor> \<le> 2 ^ 64 - 1" by (simp add: nat_le_iff floor_le_iff)
  then have "chars_for_token_limit tokens lang = nat \<lfloor>b\<rfloor>"
    using False by (simp add: chars_for_token_limit_def f64_to_usize_val b_def)
  moreover have "0 \<le> b" "0 \<le> x" by (simp_all add: b_def x_def)
  then have "real (nat \<lfloor>b\<rfloor>) \<le> b" "b - 1 \<le> real (nat \<lfloor>b\<rfloor>)" by linarith+
  then have "real (nat \<lfloor>b\<rfloor>) \<le> x" "89 / 100 * x - 1 \<le> real (nat \<lfloor>b\<rfloor>)" using b \<open>0 \<le> x\<close> by linarith+
  moreover have "89 / 100 = (0.89 :: real)" by simp
  ultimately show ?thesis unfolding x_def [symmetric] by (simp only: simp_thms)
qed (simp add: chars_for_token_limit_def)

text \<open>
  C30: language detection is exact although it compares doubles: for a text of fewer than
  \<open>2 ^ 40\<close> letters the answer is the one of rational arithmetic on the counts of CJK and Latin letters, with
  15 and 30 percent as thresholds, and German is told from English by an umlaut or a German word.
\<close>

theorem detect_language_exact:
  assumes "cjk_count s + latin_count s < 2 ^ 40"
  shows "detect_language s =
    (if cjk_count s + latin_count s = 0 then lang_mixed
     else if 3 * (cjk_count s + latin_count s) \<le> 20 * cjk_count s \<and> 3 * (cjk_count s + latin_count s) \<le> 20 * latin_count s
     then lang_mixed
     else if 3 * (cjk_count s + latin_count s) < 10 * cjk_count s then lang_chinese
     else if list_ex is_german_umlaut s \<or> has_german_words s then lang_german else lang_english)"
proof (cases "cjk_count s + latin_count s = 0")
  case True
  then show ?thesis using fold_count_script [of s 0 0 0] by (simp add: detect_language_def)
next
  case False
  define c l where "c = cjk_count s" and "l = latin_count s"
  have cl: "0 < c + l" "c + l < 2 ^ 40" using False assms unfolding c_def l_def by linarith+
  obtain u where u: "fold count_script s (0, 0, 0) = (c, l, u)" "0 < u \<longleftrightarrow> list_ex is_german_umlaut s"
    using fold_count_script [of s 0 0 0] umlaut_count_pos [of s] by (simp add: c_def l_def)
  have ne: "(s = []) = False" "(c + l = 0) = False" using False cl by auto
  have d: "detect_language s =
    (if f64_le f64_0_15 (f64_div (f64_of_nat c) (f64_of_nat (c + l))) \<and> f64_le f64_0_15 (f64_div (f64_of_nat l) (f64_of_nat (c + l)))
     then lang_mixed
     else if f64_less f64_0_3 (f64_div (f64_of_nat c) (f64_of_nat (c + l))) then lang_chinese
     else if list_ex is_german_umlaut s \<or> has_german_words s then lang_german else lang_english)"
    unfolding detect_language_def u(1) Let_def prod.case ne if_False u(2) ..
  have "f64_le f64_0_15 (f64_div (f64_of_nat c) (f64_of_nat (c + l))) \<longleftrightarrow> 3 * (c + l) \<le> 20 * c"
    "f64_le f64_0_15 (f64_div (f64_of_nat l) (f64_of_nat (c + l))) \<longleftrightarrow> 3 * (c + l) \<le> 20 * l"
    using ratio_at_least_15_percent [OF cl] by simp_all
  moreover have "f64_less f64_0_3 (f64_div (f64_of_nat c) (f64_of_nat (c + l))) \<longleftrightarrow> 3 * (c + l) < 10 * c"
    if "\<not> (3 * (c + l) \<le> 20 * c \<and> 3 * (c + l) \<le> 20 * l)"
    using that by (intro ratio_over_30_percent [OF cl]) auto
  ultimately show ?thesis using cl unfolding d c_def [symmetric] l_def [symmetric] by simp
qed

theorem detect_language_exact_witness:
  "detect_language (lit ''Hi'') = lang_english \<and> detect_language [0x4E2D, 0x6587, 97] = lang_mixed"
proof -
  have "\<not> has_german_words (lit ''Hi'')"
    by (simp add: has_german_words_def german_words_def contains_lower_def utf8_bytes_def byte_prefix_def lit_def len_utf8_def)
  then have "detect_language (lit ''Hi'') = lang_english"
    using detect_language_exact [of "lit ''Hi''"]
    by (simp add: lit_def is_cjk_def is_german_umlaut_def is_ascii_alphabetic_def)
  moreover have "detect_language [0x4E2D, 0x6587, 97] = lang_mixed"
    using detect_language_exact [of "[0x4E2D, 0x6587, 97]"]
    by (simp add: is_cjk_def is_german_umlaut_def is_ascii_alphabetic_def)
  ultimately show ?thesis ..
qed

text \<open>
  The strategy chain of a document follows its headings: the heading tier is tried first exactly
  when there are at least three headings and more than one line in two hundred is one; the level it splits at
  is then a level from 1 to 6 that occurs, with no shallower level that occurs three times, and no deeper one
  at all unless it occurs three times itself.  The chain always ends with the legacy splitter.
\<close>

lemma select_strategy_correct:
  assumes "total_lines (profile_document P body) < 2 ^ 40"
  shows "(hd (select_strategy (profile_document P body)) = Heading \<longleftrightarrow>
      3 \<le> md_heading_total (profile_document P body)
      \<and> total_lines (profile_document P body) < 200 * md_heading_total (profile_document P body))
    \<and> (0 < md_heading_total (profile_document P body) \<longrightarrow>
        1 \<le> dominant_heading_level (profile_document P body) \<and> dominant_heading_level (profile_document P body) \<le> 6
        \<and> 0 < md_heading_counts (profile_document P body) ! dominant_heading_level (profile_document P body)
        \<and> (\<forall>k. 1 \<le> k \<longrightarrow> k < dominant_heading_level (profile_document P body) \<longrightarrow>
              md_heading_counts (profile_document P body) ! k < 3)
        \<and> (md_heading_counts (profile_document P body) ! dominant_heading_level (profile_document P body) < 3 \<longrightarrow>
            (\<forall>k. dominant_heading_level (profile_document P body) < k \<longrightarrow> k \<le> 6 \<longrightarrow>
              md_heading_counts (profile_document P body) ! k = 0)))
    \<and> last (select_strategy (profile_document P body)) = Legacy"
proof -
  define p where "p = profile_document P body"
  have ok: "headings_ok p" "md_heading_total p \<le> total_lines p" "total_lines p < 2 ^ 40"
    using profile_document_headings assms unfolding p_def by blast+
  have dens: "f64_less f64_0_005 (heading_density p) \<longleftrightarrow> total_lines p < 200 * md_heading_total p" if "0 < total_lines p"
    using ratio_over_half_percent [OF that ok(3,2)] that by (simp add: heading_density_def)
  have "hd (select_strategy p) = Heading \<longleftrightarrow> 3 \<le> md_heading_total p \<and> total_lines p < 200 * md_heading_total p"
  proof (cases "3 \<le> md_heading_total p")
    case True
    then have "0 < total_lines p" "0 < dominant_heading_level p" using ok dominant_level_spec [of p] by simp_all
    then show ?thesis using True dens by (simp add: select_strategy_def)
  qed (simp add: select_strategy_def)
  moreover have "last (select_strategy p) = Legacy" by (simp add: select_strategy_def)
  ultimately show ?thesis
    unfolding p_def [symmetric] using dominant_level_spec [OF ok(1)] by blast
qed

end
