(* ===== verification/Heading_Props.thy ===== *)
theory Heading_Props
  imports Chunk_Spec Chunk_Profile_Props
begin

text \<open>
  The heading tier keeps the contract of theory \<open>Chunk_Spec\<close>, and the context header of a chunk
  is the path of open headings.
\<close>

subsection \<open>Section boundaries\<close>

lemma length_join_Cons:
  "length (join [newline] (l # ls)) = length l + (if ls = [] then 0 else Suc (length (join [newline] ls)))"
  by (cases ls) simp_all

definition bounds_ok :: "nat \<Rightarrow> heading_boundary list \<Rightarrow> bool" where
  "bounds_ok n bs \<longleftrightarrow> bs \<noteq> [] \<and> hb_start (hd bs) = 0 \<and> sorted (map hb_start bs) \<and> (\<forall>b\<in>set bs. hb_start b \<le> n)"

lemma bounds_ok_mono: "bounds_ok m bs \<Longrightarrow> m \<le> n \<Longrightarrow> bounds_ok n bs"
  by (auto simp: bounds_ok_def)

lemma bounds_ok_snoc: "bounds_ok n bs \<Longrightarrow> bounds_ok n (bs @ [\<lparr>hb_start = n, hb_line = l\<rparr>])"
  by (cases bs) (auto simp: bounds_ok_def sorted_append)

lemma bounds_ok_line: "bounds_ok n bs \<Longrightarrow> bounds_ok n (bs[0 := (bs ! 0)\<lparr>hb_line := l\<rparr>])"
  by (cases bs) (auto simp: bounds_ok_def)

lemma boundaries_from_ok:
  "bounds_ok pos bs \<Longrightarrow> pos + length (join [newline] ls) \<le> n \<Longrightarrow> bounds_ok n (boundaries_from P primary ls pos fence bs)"
proof (induction ls arbitrary: pos fence bs)
  case Nil
  then show ?case using bounds_ok_mono by simp
next
  case (Cons line rest)
  let ?p = "next_pos pos line rest"
  have le: "pos \<le> ?p" "?p + length (join [newline] rest) \<le> n"
    using Cons.prems(2) unfolding length_join_Cons by (cases rest; simp add: next_pos_def)+
  have IH: "bounds_ok n (boundaries_from P primary rest ?p f cs)" if "bounds_ok pos cs" for f cs
    using Cons.IH bounds_ok_mono [OF that le(1)] le(2) by blast
  have "bounds_ok pos (if fence then bs else case markdown_heading P line of None \<Rightarrow> bs
      | Some caps \<Rightarrow> if 1 \<le> heading_level caps \<and> heading_level caps \<le> primary
          then (if pos > 0 then bs @ [\<lparr>hb_start = pos, hb_line = line\<rparr>] else bs[0 := (bs ! 0)\<lparr>hb_line := line\<rparr>])
          else bs)"
    using Cons.prems(1) bounds_ok_snoc [of pos bs line] bounds_ok_line [of pos bs line] by (auto split: option.splits)
  then show ?case
    unfolding boundaries_from.simps Let_def using IH Cons.prems(1) by (simp only: if_split) blast
qed

lemma find_heading_boundaries_ok: "bounds_ok (length body) (find_heading_boundaries P body primary)"
proof -
  have "bounds_ok 0 [\<lparr>hb_start = 0, hb_line = []\<rparr>]" by (simp add: bounds_ok_def)
  then show ?thesis
    using boundaries_from_ok [of 0 "[\<lparr>hb_start = 0, hb_line = []\<rparr>]" "split_char newline body" "length body"]
    by (simp add: find_heading_boundaries_def Let_def bounds_ok_def)
qed

subsection \<open>Sections cover the text\<close>

definition section_spec :: "rstr \<Rightarrow> nat \<Rightarrow> nat \<Rightarrow> nat \<Rightarrow> nat \<Rightarrow> text_chunk list \<Rightarrow> bool" where
  "section_spec body limit i j n cs \<longleftrightarrow> (\<forall>c\<in>set cs. faithful body c \<and> length (content c) \<le> limit)
     \<and> (\<forall>k. i \<le> k \<longrightarrow> k < j \<longrightarrow> \<not> is_whitespace (body ! k) \<longrightarrow> covers cs k)
     \<and> map chunk_seq cs = [n..<n + length cs]"

lemma section_spec_append:
  assumes "section_spec body l i j n cs" and "section_spec body l j k (n + length cs) ds"
  shows "section_spec body l i k n (cs @ ds)"
proof -
  have "map chunk_seq (cs @ ds) = [n..<n + length cs] @ [n + length cs..<n + length cs + length ds]"
    using assms by (simp add: section_spec_def)
  also have "\<dots> = [n..<n + length (cs @ ds)]" using upt_add_eq_append [of n "n + length cs" "length ds"] by (simp add: add.assoc)
  finally have "map chunk_seq (cs @ ds) = [n..<n + length (cs @ ds)]" .
  moreover have "covers (cs @ ds) q" if "i \<le> q" "q < k" "\<not> is_whitespace (body ! q)" for q
    using assms that by (cases "q < j") (auto simp: section_spec_def)
  ultimately show ?thesis using assms by (auto simp: section_spec_def)
qed

lemma shifted_section:
  assumes P: "patterns_ok P" and ij: "i < j" "j \<le> length body" and pos: "0 < chunk_size cfg"
    and f: "\<And>k c. content (f (k, c)) = content c \<and> chunk_seq (f (k, c)) = n + k
      \<and> chunk_start (f (k, c)) = i + chunk_start c \<and> chunk_end (f (k, c)) = i + chunk_end c"
  shows "section_spec body (max (chunk_size cfg) hard_cap) i j n (map f (enumerate 0 (split_cfg P cfg (slice body i j))))"
proof -
  define subs where "subs = split_cfg P cfg (slice body i j)"
  have sh: "chunk_start (f (k, c)) = chunk_start (shift_chunk i c)" "chunk_end (f (k, c)) = chunk_end (shift_chunk i c)"
    "content (f (k, c)) = content (shift_chunk i c)" for k c
    using f [of k c] by (simp_all add: shift_chunk_def)
  have "faithful body (f (k, c)) \<and> length (content (f (k, c))) \<le> max (chunk_size cfg) hard_cap" if "c \<in> set subs" for k c
  proof -
    have "faithful body (shift_chunk i c)"
      using legacy.run_on_slice(1) [OF P pos less_imp_le [OF ij(1)] ij(2)] that unfolding subs_def by blast
    then have "faithful body (f (k, c))" using faithful_cong [OF sh] by blast
    then show ?thesis using split_cfg_bounded [OF P _ pos] that f by (simp add: subs_def)
  qed
  moreover have "covers (map f (enumerate 0 subs)) k" if "i \<le> k" "k < j" "\<not> is_whitespace (body ! k)" for k
    using legacy.run_on_slice(2) [OF P pos less_imp_le [OF ij(1)] ij(2) that] covers_map_enumerate [of f "shift_chunk i"] sh
    unfolding subs_def by simp
  moreover have "map chunk_seq (map f (enumerate 0 subs)) = [n..<n + length (map f (enumerate 0 subs))]"
    by (intro nth_equalityI) (simp_all add: nth_enumerate_eq f)
  moreover have "snd p \<in> set subs" if "p \<in> set (enumerate 0 subs)" for p
    using that set_zip_rightD [of "fst p" "snd p" "[0..<length subs]" subs] by (simp add: enumerate_eq_zip)
  ultimately show ?thesis
    unfolding subs_def [symmetric] section_spec_def by (metis (no_types, lifting) imageE list.set_map prod.collapse)
qed

lemma section_chunks_spec:
  assumes P: "patterns_ok P" and ij: "i < j" "j \<le> length body" and size: "0 < chunk_size cfg"
  shows "section_spec body (max (chunk_size cfg) hard_cap) i j n (section_chunks P cfg primary h body n i j)"
proof (cases "length (breadcrumb_with_hashes h) + 2 + length (slice body i j) \<le> chunk_size cfg")
  case True
  then have "length (slice body i j) \<le> max (chunk_size cfg) hard_cap" by simp
  then show ?thesis
    using True ij by (simp add: section_chunks_def Let_def section_spec_def faithful_def)
next
  case False
  then show ?thesis
    unfolding section_chunks_def Let_def by (simp only: if_False) (rule shifted_section [OF P ij size], simp)
qed

lemma heading_sections_spec:
  assumes P: "patterns_ok P" and size: "0 < chunk_size cfg"
  shows "sorted (map hb_start bs) \<Longrightarrow> \<forall>b\<in>set bs. hb_start b \<le> length body \<Longrightarrow>
    section_spec body (max (chunk_size cfg) hard_cap) (if bs = [] then length body else hb_start (hd bs)) (length body) n
      (heading_sections P cfg primary body bs h n)"
proof (induction bs arbitrary: h n)
  case Nil
  then show ?case by (simp add: section_spec_def)
next
  case (Cons b bs)
  define e where "e = (case bs of [] \<Rightarrow> length body | x # _ \<Rightarrow> hb_start x)"
  have e: "hb_start b \<le> e" "e \<le> length body" "(if bs = [] then length body else hb_start (hd bs)) = e"
    using Cons.prems by (cases bs; simp add: e_def)+
  have IH: "section_spec body (max (chunk_size cfg) hard_cap) e (length body) m (heading_sections P cfg primary body bs g m)" for g m
    using Cons e(3) by simp
  define h1 where "h1 = (if hb_line b \<noteq> [] then fst (observe P (hb_line b) h) else h)"
  define h2 where "h2 = observe_sub_headings P (slice body (hb_start b) e) primary h1"
  show ?case
  proof (cases "hb_start b \<ge> e")
    case True
    then have "hb_start b = e" using e by simp
    then show ?thesis
      using IH [of n h2] True
      unfolding heading_sections.simps Let_def e_def [symmetric] h1_def [symmetric] h2_def [symmetric] by simp
  next
    case False
    let ?cs = "section_chunks P cfg primary h1 body n (hb_start b) e"
    have "section_spec body (max (chunk_size cfg) hard_cap) (hb_start b) e n ?cs"
      using section_chunks_spec [OF P _ e(2) size] False by simp
    from section_spec_append [OF this IH [of "n + length ?cs" h2]] False show ?thesis
      unfolding heading_sections.simps Let_def e_def [symmetric] h1_def [symmetric] h2_def [symmetric] by simp
  qed
qed

subsection \<open>Joining\<close>

lemma faithful_join:
  assumes "faithful body c" and "faithful body d" and "chunk_end c = chunk_start d"
  shows "faithful body (c\<lparr>content := content c @ content d, context_header := hd', chunk_end := chunk_end d\<rparr>)"
proof -
  have "subseq (slice body (chunk_start c) (chunk_end c) @ slice body (chunk_start d) (chunk_end d)) (content c @ content d)"
    using assms by (intro list_emb_append_mono) (simp_all add: faithful_def)
  moreover have "slice body (chunk_start c) (chunk_end c) @ slice body (chunk_start d) (chunk_end d) = slice body (chunk_start c) (chunk_end d)"
    unfolding assms(3) using assms by (intro slice_append) (simp_all add: faithful_def)
  ultimately show ?thesis using assms by (simp add: faithful_def)
qed

lemma coalesce_from_ok:
  assumes "limit \<le> L"
  shows "faithful body cur \<Longrightarrow> n = length (content cur) \<Longrightarrow> n \<le> L \<Longrightarrow>
    \<forall>c\<in>set rest. faithful body c \<and> length (content c) \<le> L \<Longrightarrow>
    (\<forall>c\<in>set (coalesce_from target limit cur n rest). faithful body c \<and> length (content c) \<le> L)
    \<and> (\<forall>k. covers (cur # rest) k \<longrightarrow> covers (coalesce_from target limit cur n rest) k)"
proof (induction rest arbitrary: cur n)
  case (Cons nxt rest)
  let ?shared = "common_heading_prefix (context_header cur) (context_header nxt)"
  show ?case
  proof (cases "?shared \<noteq> [] \<and> chunk_end cur = chunk_start nxt \<and> n < target \<and> n + length (content nxt) \<le> limit")
    case True
    define cur' where "cur' = cur\<lparr>content := content cur @ content nxt, context_header := ?shared, chunk_end := chunk_end nxt\<rparr>"
    have eq: "coalesce_from target limit cur n (nxt # rest) = coalesce_from target limit cur' (n + length (content nxt)) rest"
      using True by (simp add: Let_def cur'_def)
    have "faithful body cur'" unfolding cur'_def using Cons.prems True by (intro faithful_join) simp_all
    moreover have "covers (cur' # rest) k" if "covers (cur # nxt # rest) k" for k
      using that True Cons.prems by (auto simp: cur'_def faithful_def)
    moreover have "n + length (content nxt) = length (content cur')" "n + length (content nxt) \<le> L"
      using Cons.prems True assms by (simp_all add: cur'_def)
    moreover have "\<forall>c\<in>set rest. faithful body c \<and> length (content c) \<le> L" using Cons.prems by simp
    ultimately show ?thesis
      unfolding eq using Cons.IH [of cur' "n + length (content nxt)"] by blast
  next
    case False
    then have eq: "coalesce_from target limit cur n (nxt # rest) = cur # coalesce_from target limit nxt (length (content nxt)) rest"
      by (auto simp: Let_def)
    show ?thesis unfolding eq using Cons.IH [of nxt "length (content nxt)"] Cons.prems by auto
  qed
qed simp

lemma coalesce_tiny_chunks_spec:
  assumes "section_spec body L i j 0 cs" and "limit \<le> L"
  shows "section_spec body L i j 0 (coalesce_tiny_chunks cs limit)"
proof (cases "length cs \<le> 1 \<or> limit = 0")
  case False
  define out where "out = coalesce_from (max (limit div 2) 200) limit (hd cs) (length (content (hd cs))) (tl cs)"
  define f where "f = (\<lambda>(i, c :: text_chunk). c\<lparr>chunk_seq := i\<rparr>)"
  have eq: "coalesce_tiny_chunks cs limit = map f (enumerate 0 out)"
    using False unfolding coalesce_tiny_chunks_def Let_def out_def f_def by simp
  have f: "content (f (k, c)) = content c" "chunk_seq (f (k, c)) = k" "chunk_start (f (k, c)) = chunk_start c"
    "chunk_end (f (k, c)) = chunk_end c" for k and c :: text_chunk by (simp_all add: f_def)
  have cs: "cs = hd cs # tl cs" "hd cs \<in> set cs" "set (tl cs) \<subseteq> set cs" using False by (cases cs; auto)+
  have "(\<forall>c\<in>set out. faithful body c \<and> length (content c) \<le> L) \<and> (\<forall>k. covers (hd cs # tl cs) k \<longrightarrow> covers out k)"
    unfolding out_def using assms cs by (intro coalesce_from_ok) (auto simp: section_spec_def)
  then have out: "\<And>c. c \<in> set out \<Longrightarrow> faithful body c \<and> length (content c) \<le> L" "\<And>k. covers cs k \<Longrightarrow> covers out k"
    using cs(1) by simp_all
  have mem: "snd p \<in> set out" if "p \<in> set (enumerate 0 out)" for p
    using that set_zip_rightD [of "fst p" "snd p" "[0..<length out]" out] by (simp add: enumerate_eq_zip)
  have "faithful body (f p) \<and> length (content (f p)) \<le> L" if "p \<in> set (enumerate 0 out)" for p
    using out(1) [OF mem [OF that]] faithful_cong [of "f p" "snd p"] f [of "fst p" "snd p"] by simp
  moreover have "covers (map f (enumerate 0 out)) k \<longleftrightarrow> covers out k" for k
    using covers_map_enumerate [of f id 0 out k] by (simp add: f)
  moreover have "map chunk_seq (map f (enumerate 0 out)) = [0..<0 + length (map f (enumerate 0 out))]"
    by (intro nth_equalityI) (simp_all add: nth_enumerate_eq f)
  ultimately show ?thesis
    unfolding eq using assms(1) out(2) by (simp add: section_spec_def)
qed (use assms in \<open>auto simp: coalesce_tiny_chunks_def\<close>)

subsection \<open>The tier\<close>

lemma section_spec_chunking: "section_spec body L 0 (length body) 0 cs \<Longrightarrow> chunking body cs"
  by (simp add: section_spec_def chunking_def)

lemma split_by_headings_spec:
  assumes P: "patterns_ok P" and pos: "0 < chunk_size cfg"
  shows "section_spec body (max (chunk_size cfg) hard_cap) 0 (length body) 0 (split_by_headings P body cfg profile)"
proof -
  have legacy: "section_spec body (max (chunk_size cfg) hard_cap) 0 (length body) 0 (split_cfg P cfg body)"
    using legacy.run_chunking [OF P pos, of body] split_cfg_bounded [OF P _ pos] by (simp add: section_spec_def chunking_def)
  define primary where "primary = dominant_heading_level (case profile of Some p \<Rightarrow> p | None \<Rightarrow> profile_document P body)"
  define bs where "bs = find_heading_boundaries P body primary"
  have bs: "bs \<noteq> []" "hb_start (hd bs) = 0" "sorted (map hb_start bs)" "\<forall>b\<in>set bs. hb_start b \<le> length body"
    using find_heading_boundaries_ok [of body P primary] by (simp_all add: bounds_ok_def bs_def)
  have "section_spec body (max (chunk_size cfg) hard_cap) 0 (length body) 0 (heading_sections P cfg primary body bs new_hierarchy 0)"
    using heading_sections_spec [OF P pos bs(3,4), of 0 primary new_hierarchy] bs(1,2) by simp
  then have "section_spec body (max (chunk_size cfg) hard_cap) 0 (length body) 0
      (coalesce_tiny_chunks (heading_sections P cfg primary body bs new_hierarchy 0) (chunk_size cfg))"
    by (rule coalesce_tiny_chunks_spec) simp
  moreover have "section_spec [] (max (chunk_size cfg) hard_cap) 0 (length body) 0 []" if "body = []"
    using that by (simp add: section_spec_def)
  ultimately show ?thesis
    using legacy unfolding split_by_headings_def Let_def primary_def [symmetric] bs_def [symmetric] by simp
qed

interpretation heading: chunk_tier "\<lambda>P cfg body. split_by_headings P body cfg profile" for profile
  using split_by_headings_spec section_spec_chunking by unfold_locales blast

subsection \<open>Breadcrumbs\<close>

definition hierarchy_ok :: "heading_hierarchy \<Rightarrow> bool" where
  "hierarchy_ok h \<longleftrightarrow> length (stack h) = 6 \<and> depth h \<le> 6 \<and> (\<forall>i<6. stack h ! i \<noteq> [] \<longrightarrow> i < depth h)"

lemma length_clear_fold [simp]: "length (fold (\<lambda>i s. s[i := []]) is s) = length s"
  by (induction "is" arbitrary: s) simp_all

lemma nth_clear_fold: "j < length s \<Longrightarrow> fold (\<lambda>i s. s[i := []]) is s ! j = (if j \<in> set is then [] else s ! j)"
  by (induction "is" arbitrary: s) (auto simp: nth_list_update)

lemma deepest_fold:
  "fold (\<lambda>i d. if Q i then Suc i else d) [0..<n] (0::nat) \<le> n
   \<and> (\<forall>i<n. Q i \<longrightarrow> i < fold (\<lambda>i d. if Q i then Suc i else d) [0..<n] 0)
   \<and> (0 < fold (\<lambda>i d. if Q i then Suc i else d) [0..<n] 0 \<longrightarrow> Q (fold (\<lambda>i d. if Q i then Suc i else d) [0..<n] 0 - 1))"
  by (induction n) (auto simp: less_Suc_eq)

lemma observe_some:
  assumes "markdown_heading P line = Some caps" and "1 \<le> heading_level caps" and "heading_level caps \<le> 6"
    and "length (stack h) = 6" and "t = (case snd caps of Some m \<Rightarrow> trim m | None \<Rightarrow> [])"
  shows "length (stack (fst (observe P line h))) = 6"
    and "i < 6 \<Longrightarrow> stack (fst (observe P line h)) ! i =
      (if heading_level caps \<le> i then [] else if i = heading_level caps - 1 then t else stack h ! i)"
    and "depth (fst (observe P line h)) = (if heading_level caps > depth h then heading_level caps
      else fold (\<lambda>i d. if stack (fst (observe P line h)) ! i \<noteq> [] then Suc i else d) [0..<6] 0)"
  using assms by (simp_all add: observe_def Let_def nth_clear_fold nth_list_update)

lemma observe_none:
  "\<not> (\<exists>caps. markdown_heading P line = Some caps \<and> 1 \<le> heading_level caps \<and> heading_level caps \<le> 6) \<Longrightarrow>
   fst (observe P line h) = h"
  by (auto simp: observe_def Let_def split: option.splits)

lemma observe_ok:
  assumes "hierarchy_ok h"
  shows "hierarchy_ok (fst (observe P line h))"
proof (cases "\<exists>caps. markdown_heading P line = Some caps \<and> 1 \<le> heading_level caps \<and> heading_level caps \<le> 6")
  case True
  then obtain caps where c: "markdown_heading P line = Some caps" "1 \<le> heading_level caps" "heading_level caps \<le> 6" by blast
  have len: "length (stack h) = 6" using assms by (simp add: hierarchy_ok_def)
  note o = observe_some [OF c len refl]
  let ?h = "fst (observe P line h)"
  have "i < depth ?h" if "i < 6" "stack ?h ! i \<noteq> []" for i
    using that o(2) [OF that(1)] o(3) deepest_fold [of "\<lambda>i. stack ?h ! i \<noteq> []" 6] by (auto split: if_splits)
  moreover have "depth ?h \<le> 6" using o(3) c deepest_fold [of "\<lambda>i. stack ?h ! i \<noteq> []" 6] by auto
  ultimately show ?thesis using o(1) by (simp add: hierarchy_ok_def)
qed (simp add: observe_none assms)

lemma observe_depth:
  assumes h: "hierarchy_ok h" and c: "markdown_heading P line = Some caps" "1 \<le> heading_level caps" "heading_level caps \<le> 6"
    and t: "t = (case snd caps of Some m \<Rightarrow> trim m | None \<Rightarrow> [])" "t \<noteq> []"
  shows "depth (fst (observe P line h)) = heading_level caps"
proof -
  have len: "length (stack h) = 6" using h by (simp add: hierarchy_ok_def)
  note o = observe_some [OF c len t(1)]
  let ?h = "fst (observe P line h)" let ?l = "heading_level caps"
  let ?d = "fold (\<lambda>i d. if stack ?h ! i \<noteq> [] then Suc i else d) [0..<6] 0"
  have top: "stack ?h ! (?l - 1) \<noteq> []" "?l - 1 < 6" using o(2) [of "?l - 1"] c t(2) by simp_all
  then have gt: "?l - 1 < ?d" "?d \<le> 6" using deepest_fold [of "\<lambda>i. stack ?h ! i \<noteq> []" 6] by blast+
  then have "stack ?h ! (?d - 1) \<noteq> []" using deepest_fold [of "\<lambda>i. stack ?h ! i \<noteq> []" 6] by fastforce
  then have "\<not> ?l \<le> ?d - 1" using o(2) [of "?d - 1"] gt by auto
  then show ?thesis using o(3) gt by auto
qed

abbreviation observe_all :: "patterns \<Rightarrow> rstr list \<Rightarrow> heading_hierarchy" where
  "observe_all P lines \<equiv> fold (\<lambda>l h. fst (observe P l h)) lines new_hierarchy"

lemma observe_all_ok: "hierarchy_ok (observe_all P lines)"
proof -
  have "hierarchy_ok (fold (\<lambda>l h. fst (observe P l h)) lines h)" if "hierarchy_ok h" for h
    using that observe_ok by (induction lines arbitrary: h) simp_all
  moreover have "hierarchy_ok new_hierarchy" by (simp add: hierarchy_ok_def new_hierarchy_def)
  ultimately show ?thesis by blast
qed

lemmas atx_eval = atx_patterns_def atx_heading_def trim_def trim_end_matches_def is_whitespace_def len_utf8_def Let_def

subsection \<open>Properties\<close>

text \<open>
  The breadcrumb of a heading is its path.  After any sequence of lines, observing a heading of
  level \<open>l\<close> with a title yields the open headings above level \<open>l\<close>, from the top, followed by the heading
  itself: a heading closes every heading of its own level and below.
\<close>

lemma heading_breadcrumb_path:
  assumes "markdown_heading P line = Some (Some hashes, Some title)"
    and "1 \<le> byte_len hashes" and "byte_len hashes \<le> 6" and "trim title \<noteq> []"
  shows "breadcrumb_with_hashes (fst (observe P line (observe_all P lines))) =
    join [newline] (map (\<lambda>i. breadcrumb_line i (stack (observe_all P lines) ! i))
        (filter (\<lambda>i. stack (observe_all P lines) ! i \<noteq> []) [0..<byte_len hashes - 1])
      @ [breadcrumb_line (byte_len hashes - 1) (trim title)])"
proof -
  let ?h = "observe_all P lines" let ?g = "fst (observe P line ?h)" let ?l = "byte_len hashes"
  have lev: "heading_level (Some hashes, Some title) = ?l" by (simp add: heading_level_def)
  have ok: "hierarchy_ok ?h" by (rule observe_all_ok)
  have d: "depth ?g = ?l" using observe_depth [OF ok assms(1)] assms lev by simp
  have len: "length (stack ?h) = 6" using ok by (simp add: hierarchy_ok_def)
  have st: "stack ?g ! i = (if ?l \<le> i then [] else if i = ?l - 1 then trim title else stack ?h ! i)" if "i < 6" for i
    using observe_some(2) [OF assms(1) _ _ len refl that] assms lev by simp
  have up: "[0..<?l] = [0..<?l - 1] @ [?l - 1]" using assms(2) upt_Suc_append [of 0 "?l - 1"] by simp
  have fl: "filter (\<lambda>i. stack ?g ! i \<noteq> []) [0..<?l - 1] = filter (\<lambda>i. stack ?h ! i \<noteq> []) [0..<?l - 1]"
    using st assms(3) by (intro filter_cong) auto
  have mp: "map (\<lambda>i. breadcrumb_line i (stack ?g ! i)) (filter (\<lambda>i. stack ?h ! i \<noteq> []) [0..<?l - 1])
      = map (\<lambda>i. breadcrumb_line i (stack ?h ! i)) (filter (\<lambda>i. stack ?h ! i \<noteq> []) [0..<?l - 1])"
    using st assms(3) by (intro map_cong) auto
  have top: "stack ?g ! (?l - 1) = trim title" using st [of "?l - 1"] assms(2,3) by (cases ?l) simp_all
  have "filter (\<lambda>i. stack ?g ! i \<noteq> []) [0..<?l] = filter (\<lambda>i. stack ?h ! i \<noteq> []) [0..<?l - 1] @ [?l - 1]"
    unfolding up filter_append fl using top assms(4) by simp
  moreover have "depth ?g \<noteq> 0" using d assms(2) by simp
  ultimately show ?thesis
    unfolding breadcrumb_with_hashes_def d by (simp only: map_append mp top list.map if_False)
qed

text \<open>
  The heading tier is lossless and bounded: whatever profile it is given, its chunks contain the
  characters at their offsets in order, are numbered from 0, together hold every character that is not white
  space, and none is longer than the chunk size and the hard cap of 7500.
\<close>

lemma split_by_headings_lossless:
  assumes "patterns_ok P" and "0 < chunk_size cfg"
  shows "chunking body (split_by_headings P body cfg profile)
    \<and> (\<forall>c\<in>set (split_by_headings P body cfg profile). length (content c) \<le> max (chunk_size cfg) 7500)"
  using split_by_headings_spec [OF assms, of body profile] heading.run_chunking [OF assms]
  by (simp add: section_spec_def hard_cap_def)

end
