(* ===== verification/Heuristic_Props.thy ===== *)
theory Heuristic_Props
  imports Heuristic_Split Heading_Props
begin

text \<open>
  The heuristic tier keeps the contract of theory \<open>Chunk_Spec\<close>: the boundaries it uses are in order,
  no block between two of them is lost, and a chunk exceeds the chunk size by at most the overlap window
  or the smallest chunk it waits for.
\<close>

subsection \<open>Boundaries\<close>

lemma line_boundaries_le:
  "b \<in> set (line_boundaries P langs ls pos fence) \<Longrightarrow> pos + length (join [newline] ls) \<le> n \<Longrightarrow> b_start b \<le> n"
proof (induction ls arbitrary: pos fence)
  case (Cons line rest)
  let ?p = "next_pos pos line rest"
  have le: "pos \<le> n" "?p + length (join [newline] rest) \<le> n"
    using Cons.prems(2) unfolding length_join_Cons by (cases rest; simp add: next_pos_def)+
  have "b_start b \<le> n" if "b \<in> set (line_boundaries P langs rest ?p f)" for f
    using Cons.IH [OF that le(2)] .
  then show ?case using Cons.prems(1) le(1) by (auto split: if_splits option.splits)
qed simp

lemma find_boundaries_le: "b \<in> set (find_heuristic_boundaries P body langs) \<Longrightarrow> b_start b \<le> length body"
proof -
  have ded: "set (dedupe prev bs) \<subseteq> set bs" for prev bs
    by (induction prev bs rule: dedupe.induct) auto
  have "b_start b \<le> length body" if "b \<in> set (line_boundaries P langs (split_char newline body) 0 False)"
    using line_boundaries_le [OF that, of "length body"] by simp
  moreover have "length (byte_slice body 0 e) \<le> length body" for e
    by (simp add: byte_slice_def slice_def)
  moreover have "i < length body" if "(i, r) \<in> set (enumerate 0 body)" for i r
    using that by (auto simp: enumerate_eq_zip set_zip)
  ultimately show "b \<in> set (find_heuristic_boundaries P body langs) \<Longrightarrow> b_start b \<le> length body"
    using ded by (auto simp: find_heuristic_boundaries_def Let_def split: if_splits dest!: subsetD [OF ded]) (meson less_imp_le)+
qed

lemma sorted_dedupe: "sorted (map b_start bs) \<Longrightarrow> sorted (map b_start (dedupe prev bs))"
proof -
  have "set (dedupe p bs) \<subseteq> set bs" for p bs
    by (induction p bs rule: dedupe.induct) auto
  then show "sorted (map b_start bs) \<Longrightarrow> sorted (map b_start (dedupe prev bs))"
    by (induction prev bs rule: dedupe.induct) auto
qed

lemma sorted_find_boundaries: "sorted (map b_start (find_heuristic_boundaries P body langs))"
  by (simp add: find_heuristic_boundaries_def Let_def sorted_dedupe)

lemma sorted_drop_bounds: "sorted (map b_start bs) \<Longrightarrow> sorted (map b_start (drop_bounds_inside_spans bs spans))"
  by (simp add: drop_bounds_inside_spans_def sorted_filter)

subsection \<open>The overlap window\<close>

lemma scan_back_bounds:
  "i \<le> target \<Longrightarrow> w \<le> target \<Longrightarrow> w \<le> scan_back runes w target i \<and> scan_back runes w target i \<le> Suc target"
  by (induction i) auto

lemma fold_max_in: "fold (\<lambda>s best. max best s) hs (h::nat) \<in> set (h # hs)"
  by (induction hs arbitrary: h) (auto simp: max_def split: if_splits)

lemma overlap_aligned_bounds:
  "cur_end - 2 * overlap \<le> apply_overlap_aligned runes cur_end overlap bounds
   \<and> apply_overlap_aligned runes cur_end overlap bounds \<le> cur_end"
proof (cases "overlap = 0")
  case False
  let ?hits = "filter (\<lambda>s. cur_end - 2 * overlap \<le> s \<and> s < cur_end) (map b_start bounds)"
  show ?thesis
  proof (cases ?hits)
    case Nil
    have r: "apply_overlap_aligned runes cur_end overlap bounds
        = scan_back runes (cur_end - 2 * overlap) (cur_end - overlap) (cur_end - overlap)"
      using False Nil by (simp add: apply_overlap_aligned_def Let_def)
    have "scan_back runes 0 0 0 = 0" by simp
    then have "cur_end = 0 \<or> overlap \<ge> cur_end \<Longrightarrow> scan_back runes (cur_end - 2 * overlap) (cur_end - overlap) (cur_end - overlap) = 0"
      by auto
    moreover have "Suc (cur_end - overlap) \<le> cur_end" if "\<not> (cur_end = 0 \<or> overlap \<ge> cur_end)" using that False by arith
    moreover have "cur_end - 2 * overlap \<le> cur_end - overlap" by simp
    note scan_back_bounds [OF order_refl this, of runes]
    ultimately show ?thesis
      unfolding r by (cases "cur_end = 0 \<or> overlap \<ge> cur_end") (auto intro: order_trans)
  next
    case (Cons h hs)
    then have "apply_overlap_aligned runes cur_end overlap bounds = fold (\<lambda>s best. max best s) hs h"
      using False by (simp add: apply_overlap_aligned_def Let_def)
    moreover have "fold (\<lambda>s best. max best s) hs h \<in> set ?hits" unfolding Cons by (rule fold_max_in)
    ultimately show ?thesis by auto
  qed
qed (simp add: apply_overlap_aligned_def)

subsection \<open>Blocks\<close>

lemma trim_empty_iff: "trim s = [] \<longleftrightarrow> (\<forall>c\<in>set s. is_whitespace c)"
proof -
  have "dropWhile is_whitespace (rev (dropWhile is_whitespace s)) = [] \<longleftrightarrow> (\<forall>c\<in>set (dropWhile is_whitespace s). is_whitespace c)"
    by (simp add: dropWhile_eq_Nil_conv)
  moreover have "(\<forall>c\<in>set (dropWhile is_whitespace s). is_whitespace c) \<longleftrightarrow> (\<forall>c\<in>set s. is_whitespace c)"
    by (induction s) auto
  ultimately show ?thesis by (simp add: trim_def trim_end_matches_def)
qed

lemma nth_slice: "i \<le> k \<Longrightarrow> k < j \<Longrightarrow> j \<le> length s \<Longrightarrow> s ! k \<in> set (slice s i j)"
proof -
  assume k: "i \<le> k" "k < j" "j \<le> length s"
  then have "slice s i j ! (k - i) = s ! k" "k - i < length (slice s i j)" by (simp_all add: slice_def)
  then show "s ! k \<in> set (slice s i j)" by (metis nth_mem)
qed

definition out_ok :: "rstr \<Rightarrow> nat \<Rightarrow> nat \<Rightarrow> text_chunk list \<times> nat \<Rightarrow> bool" where
  "out_ok body L i s \<longleftrightarrow> section_spec body L 0 i 0 (fst s) \<and> snd s = length (fst s)"

lemma append_chunk_ok:
  assumes "out_ok body L i s" and "i \<le> j" and "j \<le> length body" and "j - i \<le> L"
  shows "out_ok body L j (append_chunk body i j s)"
proof (cases "j \<le> i")
  case True
  then show ?thesis using assms(1,2) by (simp add: append_chunk_def split: prod.splits)
next
  case False
  obtain out n where s: "s = (out, n)" by force
  have out: "section_spec body L 0 i 0 out" "n = length out" using assms(1) by (simp_all add: out_ok_def s)
  define c where "c = \<lparr>content = slice body i j, context_header = [], chunk_seq = n, chunk_start = i, chunk_end = j\<rparr>"
  show ?thesis
  proof (cases "trim (slice body i j) = []")
    case True
    then have "is_whitespace (body ! k)" if "i \<le> k" "k < j" for k
      using that nth_slice [OF that assms(3)] by (simp add: trim_empty_iff)
    then have "section_spec body L i j n []" by (simp add: section_spec_def)
    then have "section_spec body L 0 j 0 out" using section_spec_append [OF out(1), of j "[]"] out(2) by simp
    then show ?thesis using True False out(2) by (simp add: append_chunk_def s out_ok_def)
  next
    case blank: False
    have "section_spec body L i j n [c]" using assms False by (simp add: section_spec_def c_def faithful_def)
    then have "section_spec body L 0 j 0 (out @ [c])" using section_spec_append [OF out(1), of j "[c]"] out(2) by simp
    then show ?thesis using blank False out(2) by (simp add: append_chunk_def s out_ok_def c_def)
  qed
qed

lemma append_oversize_ok:
  assumes P: "patterns_ok P" and pos: "0 < chunk_size cfg" and L: "max (chunk_size cfg) hard_cap \<le> L"
    and s: "out_ok body L i s" and ij: "i < j" "j \<le> length body"
  shows "out_ok body L j (append_oversize P cfg body i j s)"
proof -
  obtain out n where so: "s = (out, n)" by force
  have out: "section_spec body L 0 i 0 out" "n = length out" using s by (simp_all add: out_ok_def so)
  define f where "f = (\<lambda>(k, c :: text_chunk). \<lparr>content = content c, context_header = [], chunk_seq = n + k,
    chunk_start = i + chunk_start c, chunk_end = i + chunk_end c\<rparr>)"
  define subs where "subs = split_cfg P cfg (slice body i j)"
  have f: "\<And>k c. content (f (k, c)) = content c \<and> chunk_seq (f (k, c)) = n + k
      \<and> chunk_start (f (k, c)) = i + chunk_start c \<and> chunk_end (f (k, c)) = i + chunk_end c"
    by (simp add: f_def)
  have "section_spec body (max (chunk_size cfg) hard_cap) i j n (map f (enumerate 0 subs))"
    unfolding subs_def by (rule shifted_section [OF P ij pos f])
  then have "section_spec body L i j n (map f (enumerate 0 subs))" using L by (auto simp: section_spec_def)
  then have "section_spec body L 0 j 0 (out @ map f (enumerate 0 subs))"
    using section_spec_append [OF out(1)] out(2) by simp
  moreover have "append_oversize P cfg body i j s = (out @ map f (enumerate 0 subs), n + length subs)"
    using ij(1) by (simp add: append_oversize_def so Let_def f_def subs_def)
  ultimately show ?thesis using out(2) by (simp add: out_ok_def)
qed

definition wide :: "splitter_config \<Rightarrow> nat" where
  "wide cfg = chunk_size cfg + max (2 * chunk_overlap cfg) (min_chunk_size cfg)"

definition loop_ok :: "rstr \<Rightarrow> splitter_config \<Rightarrow> heuristic_state \<Rightarrow> bool" where
  "loop_ok body cfg s \<longleftrightarrow> out_ok body (max (wide cfg) hard_cap) (hs_start s) (hs_out s) \<and> hs_start s \<le> hs_end s
     \<and> hs_end s \<le> length body \<and> hs_end s - hs_start s \<le> wide cfg"

lemma out_ok_prefix: "out_ok body L j s \<Longrightarrow> i \<le> j \<Longrightarrow> out_ok body L i s"
  by (auto simp: out_ok_def section_spec_def)

lemma heuristic_step_ok:
  assumes P: "patterns_ok P" and pos: "0 < chunk_size cfg" and s: "loop_ok body cfg s"
    and b: "hs_end s \<le> b_start b" "b_start b \<le> length body"
  shows "loop_ok body cfg (heuristic_step P cfg body bounds b s) \<and> hs_end (heuristic_step P cfg body bounds b s) = b_start b"
proof -
  let ?L = "max (wide cfg) hard_cap" let ?i = "hs_start s" let ?j = "hs_end s" let ?n = "b_start b"
  have s': "out_ok body ?L ?i (hs_out s)" "?i \<le> ?j" "?j \<le> length body" "?j - ?i \<le> wide cfg"
    using s by (simp_all add: loop_ok_def)
  have app: "out_ok body ?L ?j (append_chunk body ?i ?j (hs_out s))"
    using append_chunk_ok [OF s'(1,2,3)] s'(4) by simp
  consider (big) "?n - ?j > chunk_size cfg"
    | (cut) "\<not> ?n - ?j > chunk_size cfg" "?n - ?i > chunk_size cfg \<and> ?j - ?i \<ge> min_chunk_size cfg"
    | (grow) "\<not> ?n - ?j > chunk_size cfg" "\<not> (?n - ?i > chunk_size cfg \<and> ?j - ?i \<ge> min_chunk_size cfg)" by blast
  then show ?thesis
  proof cases
    case big
    let ?o = "if ?j > ?i then append_chunk body ?i ?j (hs_out s) else hs_out s"
    have "out_ok body ?L ?j ?o" using app s'(1,2) by (cases "?j > ?i") simp_all
    moreover have "max (chunk_size cfg) hard_cap \<le> ?L" by (auto simp: wide_def)
    ultimately have "out_ok body ?L ?n (append_oversize P cfg body ?j ?n ?o)"
      using big by (intro append_oversize_ok [OF P pos _ _ _ b(2)]) simp_all
    then show ?thesis using big b(2) by (simp add: heuristic_step_def Let_def loop_ok_def)
  next
    case cut
    let ?a = "apply_overlap_aligned body ?j (chunk_overlap cfg) bounds"
    have a: "?j - 2 * chunk_overlap cfg \<le> ?a" "?a \<le> ?j" using overlap_aligned_bounds by blast+
    then have "?n - ?a \<le> wide cfg" using cut(1) b(1) unfolding wide_def by arith
    then show ?thesis
      using cut a b out_ok_prefix [OF app a(2)] by (simp add: heuristic_step_def Let_def loop_ok_def)
  next
    case grow
    then have "?n - ?i \<le> wide cfg" using b(1) s'(2) unfolding wide_def by arith
    then show ?thesis using grow s' b by (auto simp: heuristic_step_def Let_def loop_ok_def)
  qed
qed

lemma heuristic_fold_ok:
  assumes P: "patterns_ok P" and pos: "0 < chunk_size cfg"
  shows "loop_ok body cfg s \<Longrightarrow> sorted (hs_end s # map b_start bs) \<Longrightarrow> \<forall>b\<in>set bs. b_start b \<le> length body \<Longrightarrow>
    loop_ok body cfg (fold (heuristic_step P cfg body bounds) bs s)
    \<and> hs_end (fold (heuristic_step P cfg body bounds) bs s) = last (hs_end s # map b_start bs)"
proof (induction bs arbitrary: s)
  case (Cons b bs)
  have b: "hs_end s \<le> b_start b" "b_start b \<le> length body" using Cons.prems by simp_all
  note step = heuristic_step_ok [OF P pos Cons.prems(1) b, of bounds]
  have "sorted (hs_end (heuristic_step P cfg body bounds b s) # map b_start bs)" using Cons.prems(2) step by simp
  then show ?case using Cons.IH [of "heuristic_step P cfg body bounds b s"] step Cons.prems(3) by simp
qed simp

lemma split_by_heuristics_spec:
  assumes P: "patterns_ok P" and pos: "0 < chunk_size cfg"
  shows "section_spec body (max (wide cfg) hard_cap) 0 (length body) 0 (split_by_heuristics P body cfg)"
proof -
  have legacy: "section_spec body (max (wide cfg) hard_cap) 0 (length body) 0 (split_cfg P cfg body)"
  proof -
    have "length (content c) \<le> max (wide cfg) hard_cap" if "c \<in> set (split_cfg P cfg body)" for c
      using split_cfg_bounded [OF P that pos] by (auto simp: wide_def)
    then show ?thesis using legacy.run_chunking [OF P pos, of body] by (simp add: section_spec_def chunking_def)
  qed
  define b0 where "b0 = find_heuristic_boundaries P body (languages cfg)"
  define prot where "prot = protected_spans_rune body (protected_spans P body)"
  define b1 where "b1 = (if prot \<noteq> [] then drop_bounds_inside_spans b0 prot else b0)"
  define b2 where "b2 = b1 @ [\<lparr>b_start = length body, b_priority = 0\<rparr>]"
  define bs where "bs = (if b_start (hd b2) \<noteq> 0 then \<lparr>b_start = 0, b_priority = 0\<rparr> # b2 else b2)"
  define s0 where "s0 = \<lparr>hs_out = ([], 0), hs_start = b_start (hd bs), hs_end = b_start (hd bs)\<rparr>"
  define s where "s = fold (heuristic_step P cfg body bs) (tl bs) s0"
  have "set b1 \<subseteq> set b0" by (auto simp: b1_def drop_bounds_inside_spans_def)
  then have le1: "\<forall>b\<in>set b1. b_start b \<le> length body" using find_boundaries_le unfolding b0_def by blast
  have "sorted (map b_start b1)"
    using sorted_find_boundaries [of P body "languages cfg"] sorted_drop_bounds by (simp add: b1_def b0_def)
  then have b2: "sorted (map b_start b2)" "\<forall>b\<in>set b2. b_start b \<le> length body"
    using le1 by (auto simp: b2_def sorted_append)
  have bs: "sorted (map b_start bs)" "\<forall>b\<in>set bs. b_start b \<le> length body" "bs = hd bs # tl bs" "b_start (hd bs) = 0"
    "b_start (last bs) = length body"
    using b2 by (auto simp: bs_def b2_def)
  have sorted_bs: "sorted (b_start (hd bs) # map b_start (tl bs))" using bs(1) bs(3) by (metis list.simps(9))
  have "loop_ok body cfg s0" by (simp add: loop_ok_def s0_def out_ok_def section_spec_def bs(4))
  then have fin: "loop_ok body cfg s \<and> hs_end s = last (hs_end s0 # map b_start (tl bs))"
    unfolding s_def
  proof (rule heuristic_fold_ok [OF P pos])
    show "sorted (hs_end s0 # map b_start (tl bs))" using sorted_bs by (simp add: s0_def)
    show "\<forall>b\<in>set (tl bs). b_start b \<le> length body" using bs(2,3) by (metis list.set_intros(2))
  qed
  have "last (hs_end s0 # map b_start (tl bs)) = b_start (last bs)"
  proof -
    have "hs_end s0 # map b_start (tl bs) = map b_start bs" using bs(3) by (metis list.simps(9) s0_def heuristic_state.select_convs(3))
    moreover have "bs \<noteq> []" using bs(3) by (metis list.distinct(1))
    ultimately show ?thesis by (simp add: last_map)
  qed
  then have end_s: "hs_end s = length body" using fin bs(5) by simp
  then have "out_ok body (max (wide cfg) hard_cap) (length body)
      (if hs_end s > hs_start s then append_chunk body (hs_start s) (hs_end s) (hs_out s) else hs_out s)"
    using fin append_chunk_ok [of body "max (wide cfg) hard_cap" "hs_start s" "hs_out s" "hs_end s"]
    by (auto simp: loop_ok_def)
  then have "section_spec body (max (wide cfg) hard_cap) 0 (length body) 0
      (fst (if hs_end s > hs_start s then append_chunk body (hs_start s) (hs_end s) (hs_out s) else hs_out s))"
    by (simp add: out_ok_def)
  moreover have "section_spec [] (max (wide cfg) hard_cap) 0 0 0 []" by (simp add: section_spec_def)
  ultimately show ?thesis
    using legacy unfolding split_by_heuristics_def Let_def b0_def [symmetric] prot_def [symmetric] b1_def [symmetric]
      b2_def [symmetric] bs_def [symmetric] s0_def [symmetric] s_def [symmetric] by simp
qed

interpretation heuristic: chunk_tier "\<lambda>P cfg body. split_by_heuristics P body cfg"
  using split_by_heuristics_spec section_spec_chunking by unfold_locales blast

subsection \<open>Properties\<close>

text \<open>
  The heuristic tier is lossless and bounded: its chunks hold every character that is not white
  space, at their offsets and numbered from 0, and a chunk is no longer than the chunk size plus the larger of
  twice the overlap and the least chunk size, or the hard cap.
\<close>

lemma split_by_heuristics_lossless:
  assumes "patterns_ok P" and "0 < chunk_size cfg"
  shows "chunking body (split_by_heuristics P body cfg)
    \<and> (\<forall>c\<in>set (split_by_heuristics P body cfg). length (content c)
        \<le> max (chunk_size cfg + max (2 * chunk_overlap cfg) (max (chunk_size cfg div 4) 50)) 7500)"
  using split_by_heuristics_spec [OF assms, of body] heuristic.run_chunking [OF assms, of body]
  by (simp add: section_spec_def hard_cap_def wide_def min_chunk_size_def)


end
