(* ===== verification/Chunk_Strategy_Props.thy ===== *)
theory Chunk_Strategy_Props
  imports Chunk_Strategy Heuristic_Props
begin

text \<open>
  The adaptive entry keeps the contract of a tier whatever configuration it is given, because its
  defaults are sound and every tier it may run keeps it; parent and child chunks inherit it.
\<close>

subsection \<open>Defaults\<close>

definition token_budget :: "splitter_config \<Rightarrow> nat" where
  "token_budget cfg = chars_for_token_limit (token_limit cfg) (case languages cfg of [] \<Rightarrow> lang_mixed | l # _ \<Rightarrow> l)"

lemma fill_defaults_fields [simp]:
  "chunk_size (fill_defaults cfg) = (if chunk_size cfg = 0 then default_chunk_size else chunk_size cfg)"
  "chunk_overlap (fill_defaults cfg) = (if chunk_overlap cfg = 0 then default_chunk_overlap else chunk_overlap cfg)"
  "separators (fill_defaults cfg) = (if separators cfg = [] then default_separators else separators cfg)"
  "token_limit (fill_defaults cfg) = token_limit cfg" "languages (fill_defaults cfg) = languages cfg"
  "strategy (fill_defaults cfg) = strategy cfg"
  by (simp_all add: fill_defaults_def Let_def)

lemma apply_token_limit_fields [simp]:
  "0 < chunk_size cfg \<Longrightarrow> chunk_size (apply_token_limit cfg) =
     (if 0 < token_limit cfg \<and> 0 < token_budget cfg then min (chunk_size cfg) (token_budget cfg) else chunk_size cfg)"
  "chunk_overlap (apply_token_limit cfg) = chunk_overlap cfg" "separators (apply_token_limit cfg) = separators cfg"
  "token_limit (apply_token_limit cfg) = token_limit cfg" "languages (apply_token_limit cfg) = languages cfg"
  "strategy (apply_token_limit cfg) = strategy cfg"
  by (simp_all add: apply_token_limit_def Let_def token_budget_def min_def)

lemma fill_defaults_size: "0 < chunk_size (fill_defaults cfg)"
  by (simp add: default_chunk_size_def)

lemma token_budget_fill [simp]: "token_budget (fill_defaults cfg) = token_budget cfg"
  by (simp add: token_budget_def)

lemma chunk_size_ensure_defaults:
  "chunk_size (ensure_defaults cfg) =
     (if 0 < token_limit cfg \<and> 0 < token_budget cfg
      then min (chunk_size (fill_defaults cfg)) (token_budget cfg) else chunk_size (fill_defaults cfg))"
proof -
  have "chunk_size (ensure_defaults cfg) = chunk_size (apply_token_limit (fill_defaults cfg))"
    by (simp add: ensure_defaults_def Let_def)
  then show ?thesis using apply_token_limit_fields(1) [OF fill_defaults_size] by (simp del: fill_defaults_fields(1))
qed

lemma ensure_defaults_size: "0 < chunk_size (ensure_defaults cfg)"
  using fill_defaults_size unfolding chunk_size_ensure_defaults by (simp del: fill_defaults_fields)

lemma chunk_overlap_ensure_defaults:
  "chunk_overlap (ensure_defaults cfg) =
     min (if chunk_overlap cfg = 0 then default_chunk_overlap else chunk_overlap cfg) (chunk_size (ensure_defaults cfg) div 2)"
proof -
  let ?c = "apply_token_limit (fill_defaults cfg)"
  have "chunk_size (ensure_defaults cfg) = chunk_size ?c" by (simp add: ensure_defaults_def Let_def)
  moreover have "chunk_overlap (ensure_defaults cfg)
      = (if chunk_size ?c > 0 \<and> chunk_overlap ?c > chunk_size ?c div 2 then chunk_size ?c div 2 else chunk_overlap ?c)"
    by (simp add: ensure_defaults_def Let_def del: apply_token_limit_fields fill_defaults_fields)
  moreover have "0 < chunk_size ?c" using ensure_defaults_size [of cfg] calculation(1) by simp
  ultimately show ?thesis by (auto simp: min_def)
qed

lemma separators_ensure_defaults:
  "separators (ensure_defaults cfg) = (if separators cfg = [] then default_separators else separators cfg)"
  by (simp add: ensure_defaults_def Let_def)

lemma ensure_defaults_other [simp]:
  "token_limit (ensure_defaults cfg) = token_limit cfg" "languages (ensure_defaults cfg) = languages cfg"
  "strategy (ensure_defaults cfg) = strategy cfg"
  by (simp_all add: ensure_defaults_def Let_def)

lemma ensure_defaults_idem: "ensure_defaults (ensure_defaults cfg) = ensure_defaults cfg"
proof -
  define d where "d = ensure_defaults cfg"
  have d: "0 < chunk_size d" "token_budget d = token_budget cfg" "token_limit d = token_limit cfg"
    using ensure_defaults_size by (simp_all add: d_def token_budget_def)
  have n: "chunk_size (ensure_defaults d) = chunk_size d"
    using chunk_size_ensure_defaults [of cfg] chunk_size_ensure_defaults [of d] d
    unfolding d_def [symmetric] by (auto simp: min_def split: if_splits)
  have ov: "chunk_overlap d = min (if chunk_overlap cfg = 0 then default_chunk_overlap else chunk_overlap cfg) (chunk_size d div 2)"
    unfolding d_def by (rule chunk_overlap_ensure_defaults)
  have "chunk_overlap (ensure_defaults d) = chunk_overlap d"
    unfolding chunk_overlap_ensure_defaults [of d] n using ov by (auto simp: default_chunk_overlap_def min_def split: if_splits)
  moreover have "separators (ensure_defaults d) = separators d"
    by (simp add: separators_ensure_defaults d_def default_separators_def)
  ultimately show ?thesis
    unfolding d_def [symmetric] using n by (intro splitter_config.equality) (simp_all add: d_def)
qed

subsection \<open>Tiers\<close>

lemma run_tier_chunking:
  assumes "patterns_ok P" and "0 < chunk_size cfg"
  shows "chunking body (run_tier P tier body cfg profile)"
  using legacy.run_chunking [OF assms] heading.run_chunking [OF assms] heuristic.run_chunking [OF assms]
  by (simp add: run_tier_def split: strategy_tier.split)

lemma fold_max_ge: "x \<in> set xs \<or> x = m \<Longrightarrow> x \<le> fold max xs (m::nat)"
proof (induction xs arbitrary: m)
  case (Cons y ys)
  then consider "x \<in> set ys" | "x \<le> max y m" by auto
  then show ?case
  proof cases
    case 2
    also have "max y m \<le> fold max ys (max y m)"
      by (induction ys arbitrary: y m) (simp, metis fold_simps(2) max.bounded_iff max.commute)
    finally show ?thesis by simp
  qed (use Cons in simp)
qed simp

lemma validate_chunks_bound:
  assumes "validate_chunks cs n_chars limit" and "0 < limit" and "c \<in> set cs"
  shows "length (content c) \<le> 2 * limit"
proof -
  have "length (content c) \<le> fold max (map (\<lambda>c. length (content c)) cs) 0"
    using assms(3) by (intro fold_max_ge) auto
  also have "\<dots> \<le> 2 * limit" using assms(1,2) by (auto simp: validate_chunks_def Let_def split: if_splits)
  finally show ?thesis .
qed

lemma try_tiers_spec:
  assumes "patterns_ok P" and "0 < chunk_size cfg"
  shows "(case try_tiers P body cfg profile l chain of
      Inr out \<Rightarrow> chunking body out \<and> out \<noteq> [] \<and> (\<forall>c\<in>set out. length (content c) \<le> 2 * chunk_size cfg)
    | Inl out \<Rightarrow> out = l \<or> out = split_cfg P cfg body)"
proof (induction chain arbitrary: l)
  case (Cons tier rest)
  let ?out = "run_tier P tier body cfg profile"
  show ?case
  proof (cases "validate_chunks ?out (length body) (chunk_size cfg)")
    case True
    then have "?out \<noteq> []" by (auto simp: validate_chunks_def)
    then show ?thesis
      using True run_tier_chunking [OF assms] validate_chunks_bound [OF True assms(2)] by (simp add: Let_def)
  next
    case False
    then have eq: "try_tiers P body cfg profile l (tier # rest)
        = try_tiers P body cfg profile (if tier = Legacy \<and> rest = [] then ?out else l) rest" by (simp add: Let_def)
    show ?thesis
    proof (cases "tier = Legacy \<and> rest = []")
      case True
      then show ?thesis unfolding eq by (simp add: run_tier_def)
    next
      case False
      then show ?thesis unfolding eq using Cons.IH [of l] by (simp only: if_False)
    qed
  qed
qed simp

lemma strategy_split_spec:
  assumes "patterns_ok P"
  shows "chunking body (strategy_split P body cfg) \<and> (body \<noteq> [] \<longrightarrow> strategy_split P body cfg \<noteq> [])
    \<and> (\<forall>c\<in>set (strategy_split P body cfg). length (content c) \<le> max (2 * chunk_size (ensure_defaults cfg)) hard_cap)"
proof (cases "body = []")
  case True
  then show ?thesis by (simp add: strategy_split_def chunking_def)
next
  case False
  define d where "d = ensure_defaults cfg"
  have pos: "0 < chunk_size d" using ensure_defaults_size by (simp add: d_def)
  obtain chain profile where cp: "resolve_chain_with_profile P body d = (chain, profile)" by force
  have legacy: "chunking body (split_cfg P d body)" "split_cfg P d body \<noteq> []"
    "\<And>c. c \<in> set (split_cfg P d body) \<Longrightarrow> length (content c) \<le> max (2 * chunk_size d) hard_cap"
    using legacy.run_chunking [OF assms pos] split_cfg_nonempty [OF assms False] split_cfg_bounded [OF assms _ pos]
    by (fastforce simp: max_def split: if_splits)+
  have eq: "strategy_split P body cfg = (case try_tiers P body d profile [] chain of Inr out \<Rightarrow> out
      | Inl last_legacy \<Rightarrow> if last_legacy \<noteq> [] then last_legacy else split_cfg P d body)"
    using False cp unfolding strategy_split_def d_def Let_def by simp
  show ?thesis
  proof (cases "try_tiers P body d profile [] chain")
    case (Inl out)
    then have "strategy_split P body cfg = split_cfg P d body"
      using try_tiers_spec [OF assms pos, where body = body and profile = profile and l = "[]" and chain = chain] eq by auto
    then show ?thesis using legacy by (simp add: d_def)
  next
    case (Inr out)
    then have out: "strategy_split P body cfg = out" "chunking body out" "out \<noteq> []"
      "\<forall>c\<in>set out. length (content c) \<le> 2 * chunk_size d"
      using try_tiers_spec [OF assms pos, where body = body and profile = profile and l = "[]" and chain = chain] eq by simp_all
    then show ?thesis unfolding out(1) d_def [symmetric] by (auto simp: le_max_iff_disj)
  qed
qed

interpretation adaptive: chunk_tier "\<lambda>P cfg body. strategy_split P body cfg"
  using strategy_split_spec by unfold_locales blast

subsection \<open>Parents and children\<close>

definition child_ok :: "text_chunk list \<Rightarrow> text_chunk list \<Rightarrow> child_chunk \<Rightarrow> bool" where
  "child_ok all parents c \<longleftrightarrow> (\<exists>p\<in>set all. chunk_start p \<le> chunk_start (ch_chunk c)
     \<and> chunk_start (ch_chunk c) \<le> chunk_end (ch_chunk c)
     \<and> faithful (content p) ((ch_chunk c)\<lparr>chunk_start := chunk_start (ch_chunk c) - chunk_start p,
          chunk_end := chunk_end (ch_chunk c) - chunk_start p\<rparr>)
     \<and> (case ch_parent_index c of Some i \<Rightarrow> i < length parents \<and> parents ! i = p | None \<Rightarrow> content (ch_chunk c) = content p))"

definition family_ok :: "text_chunk list \<Rightarrow> text_chunk list \<Rightarrow> parent_child_result \<Rightarrow> bool" where
  "family_ok all seen r \<longleftrightarrow> (\<forall>c\<in>set (pc_children r). child_ok all (pc_parents r) c)
     \<and> map (chunk_seq \<circ> ch_chunk) (pc_children r) = [0..<length (pc_children r)]
     \<and> subseq (pc_parents r) seen
     \<and> (\<forall>p\<in>set seen. \<forall>k<length (content p). \<not> is_whitespace (content p ! k) \<longrightarrow>
          covers (map ch_chunk (pc_children r)) (chunk_start p + k))"

lemma child_ok_more: "child_ok all ps c \<Longrightarrow> child_ok all (ps @ qs) c"
  by (fastforce simp: child_ok_def nth_append split: option.splits)

lemma child_of_fields:
  "chunk_seq (ch_chunk (child_of p n idx sub)) = n" "ch_parent_index (child_of p n idx sub) = idx"
  "chunk_start (ch_chunk (child_of p n idx sub)) = chunk_start sub + chunk_start p"
  "chunk_end (ch_chunk (child_of p n idx sub)) = chunk_end sub + chunk_start p"
  "content (ch_chunk (child_of p n idx sub)) = content sub"
  by (simp_all add: child_of_def)

lemma enumerate_snd: "p \<in> set (enumerate n xs) \<Longrightarrow> snd p \<in> set xs"
  using set_zip_rightD [of "fst p" "snd p" "[n..<n + length xs]" xs] by (simp add: enumerate_eq_zip)

lemma add_parent_ok:
  assumes P: "patterns_ok P" and r: "family_ok all seen r" and p: "p \<in> set all"
  shows "family_ok all (seen @ [p]) (add_parent P cfg p r)"
proof -
  define subs where "subs = strategy_split P (content p) cfg"
  define keep where "keep = (length subs > 1 \<or> (length subs = 1 \<and> content (subs ! 0) \<noteq> content p))"
  define idx where "idx = (if keep then Some (length (pc_parents r)) else None)"
  define n where "n = length (pc_children r)"
  define ps where "ps = (if keep then pc_parents r @ [p] else pc_parents r)"
  define new where "new = map (\<lambda>(i, sub). child_of p (n + i) idx sub) (enumerate 0 subs)"
  have eq: "add_parent P cfg p r = \<lparr>pc_parents = ps, pc_children = pc_children r @ new\<rparr>"
    unfolding add_parent_def Let_def subs_def [symmetric] keep_def [symmetric] idx_def [symmetric] n_def [symmetric]
      ps_def [symmetric] new_def [symmetric] ..
  have chk: "chunking (content p) subs" using strategy_split_spec [OF P] unfolding subs_def by blast
  have "child_ok all ps (child_of p m idx sub)" if sub: "sub \<in> set subs" for m sub
  proof -
    have "faithful (content p) sub" using chk sub by (simp add: chunking_def)
    then have "faithful (content p) ((ch_chunk (child_of p m idx sub))\<lparr>chunk_start := chunk_start (ch_chunk (child_of p m idx sub)) - chunk_start p,
          chunk_end := chunk_end (ch_chunk (child_of p m idx sub)) - chunk_start p\<rparr>)"
      by (simp add: faithful_def child_of_fields)
    moreover have "chunk_start sub \<le> chunk_end sub" using \<open>faithful (content p) sub\<close> by (simp add: faithful_def)
    moreover have "content sub = content p" if "\<not> keep"
      using that sub by (cases subs) (auto simp: keep_def)
    ultimately show ?thesis
      using p by (auto simp: child_ok_def child_of_fields idx_def ps_def intro!: bexI [of _ p])
  qed
  then have "\<forall>c\<in>set new. child_ok all ps c" by (auto simp: new_def dest: enumerate_snd)
  moreover have "\<forall>c\<in>set (pc_children r). child_ok all ps c"
    using r child_ok_more unfolding family_ok_def ps_def by auto
  moreover have "map (chunk_seq \<circ> ch_chunk) new = [n..<n + length new]"
    by (intro nth_equalityI) (simp_all add: new_def nth_enumerate_eq child_of_fields)
  then have "map (chunk_seq \<circ> ch_chunk) (pc_children r @ new) = [0..<length (pc_children r @ new)]"
    using r upt_add_eq_append [of 0 n "length new"] by (simp add: family_ok_def n_def)
  moreover have "subseq ps (seen @ [p])"
    using r list_emb_append_mono [of "(=)" "pc_parents r" seen "[p]" "[p]"] list_emb_append_mono [of "(=)" "pc_parents r" seen "[]" "[p]"]
    by (simp add: family_ok_def ps_def)
  moreover have "covers (map ch_chunk new) (chunk_start p + k)" if "k < length (content p)" "\<not> is_whitespace (content p ! k)" for k
  proof -
    have "covers subs k" using chk that by (simp add: chunking_def)
    then obtain i where i: "i < length subs" "chunk_start (subs ! i) \<le> k" "k < chunk_end (subs ! i)"
      by (auto simp: covers_def in_set_conv_nth)
    have "new ! i \<in> set new" using i(1) by (intro nth_mem) (simp add: new_def)
    moreover have "new ! i = child_of p (n + i) idx (subs ! i)" using i(1) by (simp add: new_def nth_enumerate_eq)
    ultimately show ?thesis using i by (auto simp: covers_def child_of_fields intro!: bexI [of _ "new ! i"])
  qed
  ultimately show ?thesis
    using r unfolding eq family_ok_def by auto
qed

lemma family_fold_ok:
  assumes P: "patterns_ok P"
  shows "family_ok all seen r \<Longrightarrow> set ps \<subseteq> set all \<Longrightarrow> family_ok all (seen @ ps) (fold (add_parent P cfg) ps r)"
proof (induction ps arbitrary: seen r)
  case (Cons p ps)
  then show ?case using Cons.IH [OF add_parent_ok [OF P Cons.prems(1), of p]] by simp
qed simp

lemma split_parent_child_ok:
  assumes "patterns_ok P"
  shows "family_ok (strategy_split P body pcfg) (strategy_split P body pcfg) (split_parent_child P body pcfg ccfg)"
proof -
  have e: "family_ok all [] \<lparr>pc_parents = [], pc_children = []\<rparr>" for all by (simp add: family_ok_def)
  show ?thesis
    using family_fold_ok [OF assms e, of "strategy_split P body pcfg" "strategy_split P body pcfg" ccfg] e
    by (simp add: split_parent_child_def Let_def) (simp add: strategy_split_def family_ok_def)
qed

lemma exact_child_faithful:
  assumes c: "child_ok all ps c" and exact: "\<And>p. p \<in> set all \<Longrightarrow> faithful body p \<and> content p = slice body (chunk_start p) (chunk_end p)"
  shows "faithful body (ch_chunk c)"
proof -
  obtain p where p: "p \<in> set all" "chunk_start p \<le> chunk_start (ch_chunk c)" "chunk_start (ch_chunk c) \<le> chunk_end (ch_chunk c)"
    "faithful (content p) ((ch_chunk c)\<lparr>chunk_start := chunk_start (ch_chunk c) - chunk_start p,
          chunk_end := chunk_end (ch_chunk c) - chunk_start p\<rparr>)"
    using c unfolding child_ok_def by blast
  let ?s = "chunk_start p" let ?a = "chunk_start (ch_chunk c)" let ?b = "chunk_end (ch_chunk c)"
  have ex: "content p = slice body ?s (chunk_end p)" "?s \<le> chunk_end p" "chunk_end p \<le> length body"
    using exact [OF p(1)] by (simp_all add: faithful_def)
  have f: "?b - ?s \<le> length (content p)" "subseq (slice (content p) (?a - ?s) (?b - ?s)) (content (ch_chunk c))"
    using p(4) by (simp_all add: faithful_def)
  have "slice (content p) (?a - ?s) (?b - ?s) = slice body (?s + (?a - ?s)) (?s + (?b - ?s))"
    using f(1) unfolding ex(1) by (rule slice_slice)
  also have "\<dots> = slice body ?a ?b" using p by simp
  finally have "subseq (slice body ?a ?b) (content (ch_chunk c))" using f(2) by simp
  moreover have "length (content p) = chunk_end p - ?s" using ex by simp
  then have "?b \<le> length body" using f(1) ex(2,3) p(2,3) by linarith
  ultimately show ?thesis using p by (simp add: faithful_def)
qed

lemma short_text_one_chunk:
  assumes "body \<noteq> []" and "length body \<le> 512"
  shows "split_cfg atx_patterns (ensure_defaults default_config) body
    = [\<lparr>content = body, context_header = [], chunk_seq = 0, chunk_start = 0, chunk_end = length body\<rparr>]"
proof -
  have n: "chunk_size (ensure_defaults default_config) = 512" "separators (ensure_defaults default_config) = default_separators"
    by (simp_all add: chunk_size_ensure_defaults separators_ensure_defaults default_config_def default_chunk_size_def)
  have "byte_slice body 0 (byte_len body) = body" by (simp add: byte_slice_def)
  moreover have "0 < byte_len body" using assms(1) by (cases body) simp_all
  moreover have "split_by_separators atx_patterns body default_separators 512 = [body]"
    using assms by (simp add: default_separators_def)
  moreover have "protected_spans atx_patterns body = []"
    by (simp add: protected_spans_def atx_patterns_def plain_patterns_def sort_spans_def)
  ultimately have u: "build_units_with_protection atx_patterns body (protected_spans atx_patterns body) default_separators 512
      = [\<lparr>u_text = body, u_start = 0, u_end = length body\<rparr>]"
    by (simp add: build_units_with_protection_def)
  show ?thesis
    unfolding split_cfg_def n split_text_def Let_def using assms u
    by (simp add: merge_units_def merge_unit_def hard_cap_def flush_def build_chunk_def Let_def)
qed

lemma short_text_split:
  assumes "body \<noteq> []" and "length body \<le> 512"
  shows "strategy_split atx_patterns body default_config
    = [\<lparr>content = body, context_header = [], chunk_seq = 0, chunk_start = 0, chunk_end = length body\<rparr>]"
proof -
  let ?d = "ensure_defaults default_config"
  have n: "chunk_size ?d = 512" "strategy ?d = []"
    by (simp_all add: chunk_size_ensure_defaults default_config_def default_chunk_size_def)
  have "resolve_chain_with_profile atx_patterns body ?d = ([Legacy], None)"
    by (simp add: resolve_chain_with_profile_def default_config_def strategy_heading_def strategy_heuristic_def lit_def)
  moreover have "validate_chunks [\<lparr>content = body, context_header = [], chunk_seq = 0, chunk_start = 0, chunk_end = length body\<rparr>] (length body) 512"
    using assms by (simp add: validate_chunks_def)
  ultimately show ?thesis
    using assms by (simp add: strategy_split_def Let_def run_tier_def n short_text_one_chunk)
qed

subsection \<open>Properties\<close>

text \<open>
  C5: the adaptive splitter loses nothing, for every configuration: a text that is not empty yields
  chunks, every character that is not white space is in one, each chunk holds the characters at its offsets in
  order, chunks are numbered from 0, and none is longer than twice the effective chunk size or the hard cap.
\<close>

theorem strategy_split_lossless:
  assumes "patterns_ok P"
  shows "chunking body (strategy_split P body cfg) \<and> (body \<noteq> [] \<longrightarrow> strategy_split P body cfg \<noteq> [])
    \<and> (\<forall>c\<in>set (strategy_split P body cfg). length (content c) \<le> max (2 * chunk_size (ensure_defaults cfg)) 7500)"
  using strategy_split_spec [OF assms] by (simp add: hard_cap_def)

theorem strategy_split_lossless_witness:
  "chunking (lit ''ab'') (strategy_split atx_patterns (lit ''ab'') default_config)
   \<and> strategy_split atx_patterns (lit ''ab'') default_config \<noteq> []"
  using strategy_split_lossless [OF atx_patterns_ok, of "lit ''ab''" default_config] by (simp add: lit_def)

text \<open>
  The defaults make every configuration usable and are stable: the chunk size is positive, never
  above a configured size nor above the budget of a token limit, the overlap is at most half of it, there is a
  separator, and applying the defaults twice changes nothing.
\<close>

lemma ensure_defaults_sound:
  "0 < chunk_size (ensure_defaults cfg)
   \<and> chunk_overlap (ensure_defaults cfg) \<le> chunk_size (ensure_defaults cfg) div 2
   \<and> separators (ensure_defaults cfg) \<noteq> []
   \<and> (0 < chunk_size cfg \<longrightarrow> chunk_size (ensure_defaults cfg) \<le> chunk_size cfg)
   \<and> (0 < token_limit cfg \<and> 0 < token_budget cfg \<longrightarrow> chunk_size (ensure_defaults cfg) \<le> token_budget cfg)
   \<and> ensure_defaults (ensure_defaults cfg) = ensure_defaults cfg"
  using ensure_defaults_size ensure_defaults_idem
  by (simp add: chunk_overlap_ensure_defaults separators_ensure_defaults default_separators_def)
    (simp add: chunk_size_ensure_defaults)

text \<open>
  C31: children belong to their parents.  The kept parents are chunks of the document, in its order; a
  child with a parent index is, at its offset inside that parent, a chunk of the parent's content; a child
  without one is its parent's whole content; children are numbered from 0, and no character of a parent that is
  not white space is missing from them.
\<close>

theorem parent_child_linked:
  assumes "patterns_ok P"
  shows "(\<forall>c\<in>set (pc_children (split_parent_child P body pcfg ccfg)).
        child_ok (strategy_split P body pcfg) (pc_parents (split_parent_child P body pcfg ccfg)) c)
    \<and> map (chunk_seq \<circ> ch_chunk) (pc_children (split_parent_child P body pcfg ccfg))
        = [0..<length (pc_children (split_parent_child P body pcfg ccfg))]
    \<and> subseq (pc_parents (split_parent_child P body pcfg ccfg)) (strategy_split P body pcfg)
    \<and> (\<forall>p\<in>set (strategy_split P body pcfg). \<forall>k<length (content p). \<not> is_whitespace (content p ! k) \<longrightarrow>
        covers (map ch_chunk (pc_children (split_parent_child P body pcfg ccfg))) (chunk_start p + k))"
  using split_parent_child_ok [OF assms] unfolding family_ok_def .

theorem parent_child_linked_witness:
  "subseq (pc_parents (split_parent_child atx_patterns (lit ''ab'') default_config default_config))
     (strategy_split atx_patterns (lit ''ab'') default_config)"
  using parent_child_linked [OF atx_patterns_ok] by blast

text \<open>
  When no parent repeats a table header, child offsets are offsets of the document: every child
  holds the characters at them in order, and every character that is not white space lies in a child.
\<close>

lemma children_faithful:
  assumes "patterns_ok P"
    and exact: "\<forall>p\<in>set (strategy_split P body pcfg). content p = slice body (chunk_start p) (chunk_end p)"
  shows "(\<forall>c\<in>set (pc_children (split_parent_child P body pcfg ccfg)). faithful body (ch_chunk c))
    \<and> (\<forall>k<length body. \<not> is_whitespace (body ! k) \<longrightarrow> covers (map ch_chunk (pc_children (split_parent_child P body pcfg ccfg))) k)"
proof -
  have par: "\<And>p. p \<in> set (strategy_split P body pcfg) \<Longrightarrow> faithful body p \<and> content p = slice body (chunk_start p) (chunk_end p)"
    and cov: "\<And>k. k < length body \<Longrightarrow> \<not> is_whitespace (body ! k) \<Longrightarrow> covers (strategy_split P body pcfg) k"
    using strategy_split_spec [OF assms(1), of body pcfg] exact unfolding chunking_def by blast+
  note fam = split_parent_child_ok [OF assms(1), of body pcfg ccfg, unfolded family_ok_def]
  have "covers (map ch_chunk (pc_children (split_parent_child P body pcfg ccfg))) k"
    if k: "k < length body" "\<not> is_whitespace (body ! k)" for k
  proof -
    obtain p where p: "p \<in> set (strategy_split P body pcfg)" "chunk_start p \<le> k" "k < chunk_end p"
      using cov [OF k] by (auto simp: covers_def)
    have "content p = slice body (chunk_start p) (chunk_end p)" "chunk_end p \<le> length body"
      using par [OF p(1)] by (simp_all add: faithful_def)
    then have "k - chunk_start p < length (content p)" "content p ! (k - chunk_start p) = body ! k"
      using p by (simp_all add: slice_def diff_less_mono)
    then have "covers (map ch_chunk (pc_children (split_parent_child P body pcfg ccfg))) (chunk_start p + (k - chunk_start p))"
      using fam p(1) k(2) by metis
    then show ?thesis using p(2) by simp
  qed
  moreover have "faithful body (ch_chunk c)" if "c \<in> set (pc_children (split_parent_child P body pcfg ccfg))" for c
    using fam that by (intro exact_child_faithful [OF _ par]) blast+
  ultimately show ?thesis by blast
qed

text \<open>
  Identifiers are consistent.  If new identifiers never repeat, the chunks of a document have
  distinct identifiers, and a chunk that names a parent names the identifier of an earlier chunk of the same
  output that is a parent text without a parent of its own.
\<close>

lemma split_from_config_ids:
  assumes "inj new_id" and "out = split_from_config P new_id body v d cfg pc psize csize"
  shows "distinct (map c_id out)
    \<and> (\<forall>j<length out. \<forall>q. c_parent_chunk_id (out ! j) = Some q \<longrightarrow>
        (\<exists>i<j. c_id (out ! i) = q \<and> c_chunk_type (out ! i) = lit ''parent_text'' \<and> c_parent_chunk_id (out ! i) = None))"
proof (cases pc)
  case False
  define raw where "raw = strategy_split P body cfg"
  have out: "out = map (\<lambda>(i, c). domain_chunk (new_id i) d v (lit ''text'') None c) (enumerate 0 raw)"
    using False by (simp add: assms(2) split_from_config_def to_domain_def raw_def)
  have "map c_id out = map new_id [0..<length raw]"
    unfolding out by (intro nth_equalityI) (simp_all add: nth_enumerate_eq domain_chunk_def)
  then have "distinct (map c_id out)" using inj_on_subset [OF assms(1)] by (simp add: distinct_map)
  moreover have "c_parent_chunk_id (out ! j) = None" if "j < length out" for j
    using that unfolding out by (simp add: nth_enumerate_eq domain_chunk_def)
  ultimately show ?thesis by simp
next
  case True
  define r where "r = split_parent_child P body (fst (parent_child_configs cfg psize csize)) (snd (parent_child_configs cfg psize csize))"
  define np where "np = length (pc_parents r)"
  define parent_of where "parent_of c = (case ch_parent_index c of None \<Rightarrow> None
    | Some k \<Rightarrow> if k < length (map new_id [0..<np]) then Some (map new_id [0..<np] ! k) else None)" for c :: child_chunk
  have out: "out = map (\<lambda>(i, p). domain_chunk (new_id i) d v (lit ''parent_text'') None p) (enumerate 0 (pc_parents r))
      @ map (\<lambda>(i, c). domain_chunk (new_id i) d v (lit ''text'') (parent_of c) (ch_chunk c)) (enumerate np (pc_children r))"
    using True unfolding assms(2) split_from_config_def Let_def r_def np_def parent_of_def by (simp add: case_prod_beta)
  have par: "c_id (out ! i) = new_id i \<and> c_chunk_type (out ! i) = lit ''parent_text'' \<and> c_parent_chunk_id (out ! i) = None"
    if "i < np" for i using that unfolding out np_def by (simp add: nth_append nth_enumerate_eq domain_chunk_def)
  have kid: "c_id (out ! j) = new_id j \<and> c_parent_chunk_id (out ! j) = parent_of (pc_children r ! (j - np))"
    if "\<not> j < np" "j < length out" for j
    using that unfolding out by (simp add: nth_append nth_enumerate_eq domain_chunk_def np_def)
  have "map c_id out = map new_id [0..<length out]"
  proof (intro nth_equalityI)
    fix j
    assume "j < length (map c_id out)"
    then show "map c_id out ! j = map new_id [0..<length out] ! j"
      using par [of j] kid [of j] by (cases "j < np") simp_all
  qed simp
  then have "distinct (map c_id out)" using inj_on_subset [OF assms(1)] by (simp add: distinct_map)
  moreover have "\<exists>i<j. c_id (out ! i) = q \<and> c_chunk_type (out ! i) = lit ''parent_text'' \<and> c_parent_chunk_id (out ! i) = None"
    if j: "j < length out" "c_parent_chunk_id (out ! j) = Some q" for j q
  proof -
    have nj: "\<not> j < np" using par [of j] j(2) by auto
    then obtain k where "k < np" "q = new_id k"
      using kid [OF nj j(1)] j(2) by (auto simp: parent_of_def split: option.splits if_splits)
    then show ?thesis using par [of k] nj by (intro exI [of _ k]) auto
  qed
  ultimately show ?thesis by blast
qed

text \<open>
  A table whose header is repeated in its second parent: the child of that parent is shifted by the
  parent's start although the parent's content begins with the header, so it ends beyond the document.
\<close>

definition table_head :: rstr where
  "table_head = lit ''|h|'' @ [newline] @ lit ''|---|'' @ [newline]"

definition table_patterns :: patterns where
  "table_patterns = atx_patterns\<lparr>protected_patterns := [literal_matches table_head 0],
     table_start := (\<lambda>t. if prefix table_head t then Some (0, 10) else None), table_row := prefix [pipe]\<rparr>"


lemma table_patterns_ok: "patterns_ok table_patterns"
  using atx_patterns_ok literal_matches_ok [of _ "[]"]
  by (simp add: patterns_ok_def table_patterns_def find_iter_ok_def)


end
