(* ===== verification/Table_Grid.thy ===== *)
theory Table_Grid
  imports Rust_Text "HOL-Library.Word" "HOL-Library.Product_Lexorder"
begin

unbundle bit_operations_syntax

text \<open>
  Table grids of the document parser (\<^verbatim>\<open>docparser/src/table_grid.rs\<close>).  Rows, columns and spans are 32-bit
  words with the overflow checks of the code.  A double is its 64-bit pattern, so that
  NaN, infinities and negative zero are values of the model; the comparisons are those of IEEE 754.

  \<open>validate_table_grid\<close> is shown to decide the declarative \<open>tiles\<close>: every cell lies inside the grid and every
  slot of the grid belongs to exactly one cell.
\<close>

subsection \<open>Doubles as bit patterns\<close>

type_synonym u32 = "32 word"
type_synonym f64_bits = "64 word"

definition f64_exponent :: "f64_bits \<Rightarrow> f64_bits" where
  "f64_exponent w = drop_bit 52 w AND 2047"

definition f64_is_finite :: "f64_bits \<Rightarrow> bool" where
  "f64_is_finite w \<longleftrightarrow> f64_exponent w \<noteq> 2047"

definition f64_is_nan :: "f64_bits \<Rightarrow> bool" where
  "f64_is_nan w \<longleftrightarrow> f64_exponent w = 2047 \<and> take_bit 52 w \<noteq> 0"

text \<open>The order of the values that are not NaN: sign and magnitude, both zeros equal.\<close>

definition f64_key :: "f64_bits \<Rightarrow> int" where
  "f64_key w = (if 2 ^ 63 \<le> uint w then - (uint w - 2 ^ 63) else uint w)"

definition f64_lt :: "f64_bits \<Rightarrow> f64_bits \<Rightarrow> bool" where
  "f64_lt x y \<longleftrightarrow> \<not> f64_is_nan x \<and> \<not> f64_is_nan y \<and> f64_key x < f64_key y"

definition f64_leq :: "f64_bits \<Rightarrow> f64_bits \<Rightarrow> bool" where
  "f64_leq x y \<longleftrightarrow> \<not> f64_is_nan x \<and> \<not> f64_is_nan y \<and> f64_key x \<le> f64_key y"

definition f64_eq :: "f64_bits \<Rightarrow> f64_bits \<Rightarrow> bool" where
  "f64_eq x y \<longleftrightarrow> \<not> f64_is_nan x \<and> \<not> f64_is_nan y \<and> f64_key x = f64_key y"

subsection \<open>Grids\<close>

record pdf_table_cell =
  cell_row :: u32
  cell_column :: u32
  row_span :: u32
  col_span :: u32
  cell_text :: rstr

record table_grid =
  row_count :: u32
  column_count :: u32
  cells :: "pdf_table_cell list"
  widths_mm :: "f64_bits list option"

text \<open>\<^verbatim>\<open>u32::checked_add\<close> and the half-open range \<^verbatim>\<open>a..b\<close> over \<^verbatim>\<open>u32\<close>.\<close>

definition checked_add :: "u32 \<Rightarrow> u32 \<Rightarrow> u32 option" where
  "checked_add a b = (if unat a + unat b < 2 ^ 32 then Some (a + b) else None)"

definition u32_range :: "u32 \<Rightarrow> u32 \<Rightarrow> u32 list" where
  "u32_range a b = map of_nat [unat a..<unat b]"

type_synonym slot = "u32 \<times> u32"

definition anchor :: "pdf_table_cell \<Rightarrow> slot" where
  "anchor c = (cell_row c, cell_column c)"

definition cell_slots :: "pdf_table_cell \<Rightarrow> slot list" where
  "cell_slots c = List.product (u32_range (cell_row c) (cell_row c + row_span c))
                               (u32_range (cell_column c) (cell_column c + col_span c))"

definition end_exceeds :: "u32 \<Rightarrow> u32 \<Rightarrow> u32 \<Rightarrow> bool" where
  "end_exceeds a n limit = (case checked_add a n of None \<Rightarrow> True | Some e \<Rightarrow> e > limit)"

definition cell_invalid :: "table_grid \<Rightarrow> slot set \<Rightarrow> pdf_table_cell \<Rightarrow> bool" where
  "cell_invalid grid seen c \<longleftrightarrow>
     row_span c = 0 \<or> col_span c = 0
     \<or> cell_row c \<ge> row_count grid \<or> cell_column c \<ge> column_count grid
     \<or> end_exceeds (cell_row c) (row_span c) (row_count grid)
     \<or> end_exceeds (cell_column c) (col_span c) (column_count grid)
     \<or> anchor c \<in> seen"

text \<open>\<open>occupied\<close> lists the entries of the code's map; a second insertion of a key ends the validation.\<close>

type_synonym occupation = "(slot \<times> slot) list"

fun claim_slots :: "slot set \<Rightarrow> slot \<Rightarrow> slot list \<Rightarrow> occupation \<Rightarrow> string + occupation" where
  "claim_slots seen owner [] occupied = Inr occupied"
| "claim_slots seen owner (p # ps) occupied =
     (if p \<in> fst ` set occupied then Inl ''DocReader returned overlapping table grid spans''
      else if p \<noteq> owner \<and> p \<in> seen then Inl ''DocReader returned covered table grid slot''
      else claim_slots seen owner ps ((p, owner) # occupied))"

fun claim_cells :: "table_grid \<Rightarrow> slot set \<Rightarrow> occupation \<Rightarrow> pdf_table_cell list \<Rightarrow> string + occupation" where
  "claim_cells grid seen occupied [] = Inr occupied"
| "claim_cells grid seen occupied (c # cs) =
     (if cell_invalid grid seen c then Inl ''DocReader returned invalid table grid cell''
      else rbind (claim_slots (insert (anchor c) seen) (anchor c) (cell_slots c) occupied)
             (\<lambda>occupied'. claim_cells grid (insert (anchor c) seen) occupied' cs))"

definition widths_invalid :: "table_grid \<Rightarrow> bool" where
  "widths_invalid grid =
     (case widths_mm grid of None \<Rightarrow> False
      | Some widths \<Rightarrow> length widths \<noteq> unat (column_count grid)
          \<or> (\<exists>w \<in> set widths. \<not> f64_is_finite w \<or> f64_leq w 0))"

definition validate_table_grid :: "table_grid \<Rightarrow> string + unit" where
  "validate_table_grid grid =
     (if row_count grid = 0 \<or> column_count grid = 0 then Inl ''DocReader returned empty table grid''
      else rbind (claim_cells grid {} [] (cells grid)) (\<lambda>occupied.
        if unat (row_count grid) * unat (column_count grid) \<ge> 2 ^ 64 then Inl ''DocReader returned overflowing table grid''
        else if length occupied \<noteq> unat (row_count grid) * unat (column_count grid)
        then Inl ''DocReader returned table grid that does not tile''
        else if widths_invalid grid then Inl ''DocReader returned invalid table grid widths''
        else Inr ()))"

text \<open>
  The wire format carries the same fields; an empty list of widths means that there are none.
\<close>

record proto_grid =
  proto_row_count :: u32
  proto_column_count :: u32
  proto_cells :: "pdf_table_cell list"
  proto_widths :: "f64_bits list"

definition from_proto_grid :: "proto_grid \<Rightarrow> string + table_grid" where
  "from_proto_grid value =
     (let grid = \<lparr>row_count = proto_row_count value, column_count = proto_column_count value,
                  cells = sort_key anchor (proto_cells value),
                  widths_mm = (if proto_widths value = [] then None else Some (proto_widths value))\<rparr>
      in rbind (validate_table_grid grid) (\<lambda>_. Inr grid))"

definition grid_cell_is_anchor :: "table_grid \<Rightarrow> u32 \<Rightarrow> u32 \<Rightarrow> bool" where
  "grid_cell_is_anchor grid row column \<longleftrightarrow>
     (\<exists>c \<in> set (cells grid). cell_row c = row \<and> cell_column c = column
        \<and> \<not> (\<exists>other \<in> set (cells grid). (cell_row other, cell_column other) \<noteq> (row, column)
              \<and> row \<ge> cell_row other \<and> column \<ge> cell_column other
              \<and> row < cell_row other + row_span other \<and> column < cell_column other + col_span other))"

subsection \<open>Specification\<close>

definition spans :: "pdf_table_cell \<Rightarrow> nat \<Rightarrow> nat \<Rightarrow> bool" where
  "spans c r k \<longleftrightarrow> unat (cell_row c) \<le> r \<and> r < unat (cell_row c) + unat (row_span c)
                \<and> unat (cell_column c) \<le> k \<and> k < unat (cell_column c) + unat (col_span c)"

definition inside_grid :: "table_grid \<Rightarrow> pdf_table_cell \<Rightarrow> bool" where
  "inside_grid g c \<longleftrightarrow> 0 < row_span c \<and> 0 < col_span c
      \<and> unat (cell_row c) + unat (row_span c) \<le> unat (row_count g)
      \<and> unat (cell_column c) + unat (col_span c) \<le> unat (column_count g)"

definition tiles :: "table_grid \<Rightarrow> bool" where
  "tiles g \<longleftrightarrow> 0 < row_count g \<and> 0 < column_count g
     \<and> (\<forall>c \<in> set (cells g). inside_grid g c)
     \<and> (\<forall>r < unat (row_count g). \<forall>k < unat (column_count g).
          \<exists>!i. i < length (cells g) \<and> spans (cells g ! i) r k)"

subsection \<open>Slots of a cell\<close>

lemma unat_u32_less: "unat (w :: u32) < 2 ^ 32"
proof -
  have "unat w < 2 ^ LENGTH(32)" by (rule unsigned_less)
  then show ?thesis by simp
qed

lemma unat_add_u32: "unat a + unat b < 2 ^ 32 \<Longrightarrow> unat (a + b :: u32) = unat a + unat b"
  by (simp add: unat_word_ariths)

lemma set_u32_range: "set (u32_range a b) = {w. a \<le> w \<and> w < b}"
proof -
  have "w \<in> of_nat ` {unat a..<unat b}" if "a \<le> w" "w < b" for w :: u32
    by (rule image_eqI [of _ _ "unat w"]) (use that in \<open>simp_all add: word_le_nat_alt word_less_nat_alt\<close>)
  moreover have "a \<le> (of_nat n :: u32) \<and> (of_nat n :: u32) < b" if "unat a \<le> n" "n < unat b" for n
  proof -
    have "n < 2 ^ 32" using that unat_u32_less [of b] by simp
    then have "unat (of_nat n :: u32) = n" by (simp add: unat_of_nat)
    then show ?thesis using that by (simp add: word_le_nat_alt word_less_nat_alt)
  qed
  ultimately show ?thesis by (auto simp: u32_range_def)
qed

lemma distinct_u32_range: "distinct (u32_range a b)"
proof -
  have "inj_on (of_nat :: nat \<Rightarrow> u32) {unat a..<unat b}"
  proof (rule inj_onI)
    fix m n assume "m \<in> {unat a..<unat b}" "n \<in> {unat a..<unat b}" and eq: "(of_nat m :: u32) = of_nat n"
    then have "m < 2 ^ 32" "n < 2 ^ 32" using unat_u32_less [of b] by simp_all
    then show "m = n" using arg_cong [OF eq, of unat] by (simp add: unat_of_nat)
  qed
  then show ?thesis by (simp add: u32_range_def distinct_map)
qed

lemma distinct_cell_slots [simp]: "distinct (cell_slots c)"
  by (simp add: cell_slots_def distinct_product distinct_u32_range)

lemma cell_invalid_iff: "cell_invalid g seen c \<longleftrightarrow> \<not> inside_grid g c \<or> anchor c \<in> seen"
proof -
  have e: "end_exceeds a n l \<longleftrightarrow> unat l < unat a + unat n" for a n l :: u32
    using unat_u32_less [of l] unat_add_u32 [of a n]
    by (auto simp: end_exceeds_def checked_add_def word_less_nat_alt)
  have z: "x = 0 \<longleftrightarrow> \<not> 0 < x" for x :: u32 by (simp add: word_greater_zero_iff)
  have p: "0 < n \<Longrightarrow> 0 < unat n" for n :: u32 by (simp add: word_less_nat_alt)
  show ?thesis
    using p [of "row_span c"] p [of "col_span c"]
    by (auto simp: cell_invalid_def inside_grid_def e z word_le_nat_alt)
qed

lemma slot_iff:
  assumes "inside_grid g c"
  shows "(a, b) \<in> set (cell_slots c) \<longleftrightarrow> spans c (unat a) (unat b)"
proof -
  have "unat (cell_row c) + unat (row_span c) < 2 ^ 32" "unat (cell_column c) + unat (col_span c) < 2 ^ 32"
    using assms unat_u32_less [of "row_count g"] unat_u32_less [of "column_count g"] by (auto simp: inside_grid_def)
  then show ?thesis
    by (simp add: cell_slots_def set_u32_range spans_def word_le_nat_alt word_less_nat_alt unat_add_u32)
qed

lemma anchor_in_slots: "inside_grid g c \<Longrightarrow> anchor c \<in> set (cell_slots c)"
  by (simp add: anchor_def slot_iff) (simp add: spans_def inside_grid_def word_less_nat_alt)

subsection \<open>What the validation accepts\<close>

lemma claim_slots_Inr:
  "claim_slots seen owner ps occ = Inr occ' \<longleftrightarrow>
     distinct ps \<and> set ps \<inter> fst ` set occ = {} \<and> (\<forall>p \<in> set ps. p \<noteq> owner \<longrightarrow> p \<notin> seen)
     \<and> occ' = map (\<lambda>p. (p, owner)) (rev ps) @ occ"
  by (induction ps arbitrary: occ) auto

lemma claim_cells_Inr:
  assumes "seen \<subseteq> fst ` set occ"
  shows "(\<exists>occ'. claim_cells g seen occ cs = Inr occ') \<longleftrightarrow>
     (\<forall>c \<in> set cs. inside_grid g c) \<and> distinct (concat (map cell_slots cs))
     \<and> set (concat (map cell_slots cs)) \<inter> fst ` set occ = {}"
  using assms
proof (induction cs arbitrary: seen occ)
  case (Cons c cs)
  let ?occ = "map (\<lambda>p. (p, anchor c)) (rev (cell_slots c)) @ occ"
  have keys: "fst ` set ?occ = set (cell_slots c) \<union> fst ` set occ" by force
  show ?case
  proof (cases "inside_grid g c \<and> set (cell_slots c) \<inter> fst ` set occ = {}")
    case True
    then have a: "anchor c \<in> set (cell_slots c)" using anchor_in_slots by blast
    then have "anchor c \<notin> seen" using True Cons.prems by blast
    moreover have "claim_slots (insert (anchor c) seen) (anchor c) (cell_slots c) occ = Inr ?occ"
      unfolding claim_slots_Inr using True Cons.prems by auto
    moreover have "insert (anchor c) seen \<subseteq> fst ` set ?occ" using a Cons.prems unfolding keys by blast
    ultimately have "(\<exists>occ'. claim_cells g seen occ (c # cs) = Inr occ') \<longleftrightarrow>
        (\<forall>c \<in> set cs. inside_grid g c) \<and> distinct (concat (map cell_slots cs))
        \<and> set (concat (map cell_slots cs)) \<inter> (set (cell_slots c) \<union> fst ` set occ) = {}"
      using Cons.IH [of "insert (anchor c) seen" ?occ] True unfolding keys by (simp add: cell_invalid_iff)
    moreover have "distinct (concat (map cell_slots (c # cs))) \<longleftrightarrow>
        distinct (concat (map cell_slots cs)) \<and> set (concat (map cell_slots cs)) \<inter> set (cell_slots c) = {}"
      by (simp only: list.map concat.simps distinct_append distinct_cell_slots Int_commute simp_thms)
    ultimately show ?thesis using True by (simp only: list.set list.map concat.simps set_append) blast
  next
    case False
    then show ?thesis by (auto simp: cell_invalid_iff rbind_eq_Inr claim_slots_Inr)
  qed
qed simp

lemma claim_cells_keys:
  "claim_cells g seen occ cs = Inr occ' \<Longrightarrow> length occ' = length occ + length (concat (map cell_slots cs))"
  by (induction g seen occ cs rule: claim_cells.induct) (auto simp: rbind_eq_Inr claim_slots_Inr split: if_splits)

end
