(* ===== verification/Source_Contract.thy ===== *)
theory Source_Contract
  imports Table_Grid
begin

text \<open>
  The source contract of the document parser (\<^verbatim>\<open>docparser/src/types.rs\<close>, \<^verbatim>\<open>docparser/src/source_contract.rs\<close>): the
  structured units a reader returns beside the rendered markdown, the sidecar that ties each unit to
  byte ranges of the markdown and to physical pages, its validation, and the adjustment of the byte ranges when the
  host replaces a literal in the markdown.

  Parameters: \<open>sha256\<close> stands for \<^verbatim>\<open>hex::encode(Sha256::digest(bytes))\<close>, \<open>from_json\<close> for the deserialisation of the
  sidecar by \<^verbatim>\<open>serde_json\<close>.
\<close>

type_synonym bytes = "nat list"
type_synonym convert_error = string

subsection \<open>Units and locators (types.rs)\<close>

datatype structured_source_unit_kind =
  Section | TableRow | TableRegion | FormRegion | AttachmentRegion | ImageRegion

record spreadsheet_cell =
  sc_address :: rstr
  sc_row :: u32
  sc_column :: u32
  sc_text :: rstr
  sc_raw_value :: rstr
  sc_value_type :: rstr
  sc_number_format :: rstr
  sc_display_text :: "rstr option"
  sc_display_complete :: bool
  sc_display_incomplete_reason :: "rstr option"
  sc_formula :: "rstr option"
  sc_formula_references :: "rstr list"
  sc_cached_value :: "rstr option"
  sc_cached_value_type :: "rstr option"

record spreadsheet_range =
  sr_a1_range :: rstr
  sr_start_row :: u32
  sr_start_column :: u32
  sr_end_row :: u32
  sr_end_column :: u32

record spreadsheet_table_identity =
  st_name :: rstr
  st_display_name :: rstr
  st_a1_range :: rstr

datatype compound_image_parent =
  Paragraph u32 u32
| TableCell u32 u32 u32 u32
| Form u32 u32

datatype structured_source_locator =
  Document u32 "u32 option" "u32 option" "u32 option" rstr
| Page u32 "f64_bits option" "f64_bits option" "f64_bits option" "f64_bits option"
| PageTable u32 u32 f64_bits f64_bits f64_bits f64_bits
| Spreadsheet u32 rstr spreadsheet_range "spreadsheet_cell list" "spreadsheet_range list" "spreadsheet_table_identity list"
| Image rstr u32 u32 rstr "u32 option" "compound_image_parent option"
    "f64_bits option" "f64_bits option" "f64_bits option" "f64_bits option"
| Attachment rstr rstr

text \<open>The derived \<^verbatim>\<open>PartialEq\<close> compares coordinates as floating-point numbers: NaN differs from itself.\<close>

fun f64_opt_eq :: "f64_bits option \<Rightarrow> f64_bits option \<Rightarrow> bool" where
  "f64_opt_eq None None = True"
| "f64_opt_eq (Some x) (Some y) = f64_eq x y"
| "f64_opt_eq _ _ = False"

fun locator_eq :: "structured_source_locator \<Rightarrow> structured_source_locator \<Rightarrow> bool" where
  "locator_eq (Page p l t r b) (Page p' l' t' r' b') =
     (p = p' \<and> f64_opt_eq l l' \<and> f64_opt_eq t t' \<and> f64_opt_eq r r' \<and> f64_opt_eq b b')"
| "locator_eq (PageTable p n l t r b) (PageTable p' n' l' t' r' b') =
     (p = p' \<and> n = n' \<and> f64_eq l l' \<and> f64_eq t t' \<and> f64_eq r r' \<and> f64_eq b b')"
| "locator_eq (Image f w h m p c l t r b) (Image f' w' h' m' p' c' l' t' r' b') =
     (f = f' \<and> w = w' \<and> h = h' \<and> m = m' \<and> p = p' \<and> c = c'
      \<and> f64_opt_eq l l' \<and> f64_opt_eq t t' \<and> f64_opt_eq r r' \<and> f64_opt_eq b b')"
| "locator_eq (Page _ _ _ _ _) _ = False"
| "locator_eq (PageTable _ _ _ _ _ _) _ = False"
| "locator_eq (Image _ _ _ _ _ _ _ _ _ _) _ = False"
| "locator_eq x y = (x = y)"

definition is_document_locator :: "structured_source_locator \<Rightarrow> bool" where
  "is_document_locator l = (case l of Document _ _ _ _ _ \<Rightarrow> True | _ \<Rightarrow> False)"

record structured_source_unit =
  unit_key :: rstr
  unit_ordinal :: u32
  unit_kind :: structured_source_unit_kind
  unit_text :: rstr
  unit_locator :: structured_source_locator
  unit_grid :: "table_grid option"

text \<open>The fields of \<^verbatim>\<open>ReadResult\<close> that the contract is checked against.\<close>

record read_result =
  markdown :: rstr
  structured_source_units :: "structured_source_unit list"
  metadata :: "rstr \<Rightarrow> rstr option"

subsection \<open>The sidecar (source\_contract.rs)\<close>

record rendered_span =
  start_byte :: nat
  end_byte :: nat

datatype source_completeness = Complete | Partial | Failed

record table_header_cell =
  header_row :: u32
  header_column :: u32
  header_role :: rstr

record source_unit_identity =
  unit_id :: rstr
  ordinal :: u32
  kind :: structured_source_unit_kind
  text_sha256 :: rstr
  grid_sha256 :: "rstr option"
  section_id :: "rstr option"
  parent_section_id :: "rstr option"
  heading_level :: "u32 option"
  heading_path :: rstr
  physical_locator :: "structured_source_locator option"
  physical_path :: "rstr option"
  physical_locator_unavailable_reason :: "rstr option"
  rendered_spans :: "rendered_span list"
  completeness :: source_completeness
  reasons :: "rstr list"
  table_id :: "rstr option"
  header_cells :: "table_header_cell list"

record source_page =
  page_ordinal :: u32
  classification :: rstr
  unit_ids :: "rstr list"
  image_unit_ids :: "rstr list"

record glyph_normalization =
  glyph_page :: u32
  char_index :: u32
  raw_symbol :: rstr
  normalized_symbol :: rstr
  font_name :: rstr
  font_sha256 :: rstr
  glyph_name :: rstr
  glyph_left :: f64_bits
  glyph_bottom :: f64_bits
  glyph_right :: f64_bits
  glyph_top :: f64_bits
  page_width :: f64_bits
  page_height :: f64_bits

record source_contract =
  schema_version :: u32
  document_revision :: rstr
  parser_version :: rstr
  markdown_sha256 :: rstr
  units :: "source_unit_identity list"
  page_manifest :: "source_page list"
  glyph_normalizations :: "glyph_normalization list"

definition invalid :: "string \<Rightarrow> convert_error" where
  "invalid message = ''DocReader source contract: '' @ message"

subsection \<open>Digests\<close>

definition utf8_char :: "nat \<Rightarrow> bytes" where
  "utf8_char c =
     (if c < 128 then [c]
      else if c < 2048 then [192 + c div 64, 128 + c mod 64]
      else if c < 65536 then [224 + c div 4096, 128 + c div 64 mod 64, 128 + c mod 64]
      else [240 + c div 262144, 128 + c div 4096 mod 64, 128 + c div 64 mod 64, 128 + c mod 64])"

definition as_bytes :: "rstr \<Rightarrow> bytes" where
  "as_bytes s = concat (map utf8_char s)"

text \<open>\<^verbatim>\<open>to_be_bytes\<close> of an unsigned integer of \<open>k\<close> bytes.\<close>

fun be_bytes :: "nat \<Rightarrow> nat \<Rightarrow> bytes" where
  "be_bytes 0 n = []"
| "be_bytes (Suc k) n = be_bytes k (n div 256) @ [n mod 256]"

definition cell_frame :: "pdf_table_cell \<Rightarrow> bytes" where
  "cell_frame c = concat (map (be_bytes 4 \<circ> unat) [cell_row c, cell_column c, row_span c, col_span c])
     @ be_bytes 8 (byte_len (cell_text c)) @ as_bytes (cell_text c)"

definition grid_widths :: "table_grid \<Rightarrow> f64_bits list" where
  "grid_widths g = (case widths_mm g of None \<Rightarrow> [] | Some ws \<Rightarrow> ws)"

definition grid_frame :: "table_grid \<Rightarrow> bytes" where
  "grid_frame g = as_bytes (lit ''docreader-grid-v2'') @ [0]
     @ be_bytes 4 (unat (row_count g)) @ be_bytes 4 (unat (column_count g)) @ be_bytes 4 (length (cells g) mod 2 ^ 32)
     @ concat (map cell_frame (sort_key anchor (cells g)))
     @ be_bytes 4 (length (grid_widths g) mod 2 ^ 32) @ concat (map (be_bytes 8 \<circ> unat) (grid_widths g))"

definition table_grid_digest :: "(bytes \<Rightarrow> rstr) \<Rightarrow> table_grid \<Rightarrow> rstr" where
  "table_grid_digest sha256 g = sha256 (grid_frame g)"

subsection \<open>Normalised glyphs\<close>

definition is_ascii_hexdigit :: "nat \<Rightarrow> bool" where
  "is_ascii_hexdigit c \<longleftrightarrow> (48 \<le> c \<and> c \<le> 57) \<or> (65 \<le> c \<and> c \<le> 70) \<or> (97 \<le> c \<and> c \<le> 102)"

definition is_ascii_uppercase :: "nat \<Rightarrow> bool" where
  "is_ascii_uppercase c \<longleftrightarrow> 65 \<le> c \<and> c \<le> 90"

definition to_ascii_lowercase :: "rstr \<Rightarrow> rstr" where
  "to_ascii_lowercase = map (\<lambda>c. if is_ascii_uppercase c then c + 32 else c)"

definition split_once :: "nat \<Rightarrow> rstr \<Rightarrow> (rstr \<times> rstr) option" where
  "split_once sep s = (if sep \<in> set s then Some (takeWhile (\<lambda>c. c \<noteq> sep) s, tl (dropWhile (\<lambda>c. c \<noteq> sep) s)) else None)"

definition font_family :: "rstr \<Rightarrow> rstr" where
  "font_family font =
     (let name = (case split_once 43 font of None \<Rightarrow> font
                  | Some (pre, rest) \<Rightarrow> if byte_len pre = 6 \<and> list_all is_ascii_uppercase pre then rest else font)
      in to_ascii_lowercase (filter (\<lambda>c. c \<noteq> 32) (hd (split_char 44 name))))"

definition glyph_supported :: "glyph_normalization \<Rightarrow> bool" where
  "glyph_supported g \<longleftrightarrow>
     (raw_symbol g = [61522] \<and> normalized_symbol g = [9745] \<and> glyph_name g = lit ''boxcheck'')
     \<or> (raw_symbol g = [61603] \<and> normalized_symbol g = [9633] \<and> glyph_name g = lit ''box1'')"

definition hex64 :: "rstr \<Rightarrow> bool" where
  "hex64 s \<longleftrightarrow> byte_len s = 64 \<and> list_all is_ascii_hexdigit s"

definition glyph_invalid :: "source_contract \<Rightarrow> (u32 \<times> u32) set \<Rightarrow> glyph_normalization \<Rightarrow> bool" where
  "glyph_invalid contract seen g \<longleftrightarrow>
     font_family (font_name g) \<noteq> lit ''wingdings2'' \<or> \<not> glyph_supported g \<or> \<not> hex64 (font_sha256 g)
     \<or> unat (glyph_page g) \<ge> length (page_manifest contract) \<or> (glyph_page g, char_index g) \<in> seen
     \<or> (\<exists>v \<in> set [glyph_left g, glyph_bottom g, glyph_right g, glyph_top g, page_width g, page_height g]. \<not> f64_is_finite v)
     \<or> f64_leq (page_width g) 0 \<or> f64_leq (page_height g) 0
     \<or> f64_lt (glyph_left g) 0 \<or> f64_lt (glyph_bottom g) 0
     \<or> f64_lt (glyph_right g) (glyph_left g) \<or> f64_lt (glyph_top g) (glyph_bottom g)
     \<or> f64_lt (page_width g) (glyph_right g) \<or> f64_lt (page_height g) (glyph_top g)"

fun validate_glyphs :: "source_contract \<Rightarrow> (u32 \<times> u32) set \<Rightarrow> glyph_normalization list \<Rightarrow> convert_error + unit" where
  "validate_glyphs contract seen [] = Inr ()"
| "validate_glyphs contract seen (g # gs) =
     (if glyph_invalid contract seen g
      then Inl (invalid ''unverified font symbol normalization or physical location'')
      else validate_glyphs contract (insert (glyph_page g, char_index g) seen) gs)"

definition validate_glyph_normalizations :: "source_contract \<Rightarrow> convert_error + unit" where
  "validate_glyph_normalizations contract = validate_glyphs contract {} (glyph_normalizations contract)"

fun physical_page :: "structured_source_locator \<Rightarrow> u32 option" where
  "physical_page (Page p _ _ _ _) = Some p"
| "physical_page (PageTable p _ _ _ _ _) = Some p"
| "physical_page (Image _ _ _ _ p _ _ _ _ _) = p"
| "physical_page _ = None"

subsection \<open>Validation of the contract\<close>

definition find_unit :: "source_contract \<Rightarrow> rstr \<Rightarrow> source_unit_identity option" where
  "find_unit contract key = find (\<lambda>u. unit_id u = key) (units contract)"

definition blank :: "rstr \<Rightarrow> bool" where
  "blank s \<longleftrightarrow> trim s = []"

definition identity_invalid ::
  "(bytes \<Rightarrow> rstr) \<Rightarrow> rstr set \<Rightarrow> nat \<Rightarrow> source_unit_identity \<Rightarrow> structured_source_unit \<Rightarrow> bool" where
  "identity_invalid sha256 identities n i u \<longleftrightarrow>
     unit_id i \<noteq> unit_key u \<or> unit_key u = [] \<or> unat (ordinal i) \<noteq> n \<or> unat (unit_ordinal u) \<noteq> n
     \<or> kind i \<noteq> unit_kind u \<or> text_sha256 i \<noteq> sha256 (as_bytes (unit_text u))
     \<or> grid_sha256 i \<noteq> map_option (table_grid_digest sha256) (unit_grid u)
     \<or> unit_key u \<in> identities
     \<or> (completeness i = Complete) \<noteq> (reasons i = [])
     \<or> (\<exists>r \<in> set (reasons i). blank r)
     \<or> heading_level i = Some 0
     \<or> (parent_section_id i \<noteq> None \<and> parent_section_id i = section_id i)"

definition location_unexplained :: "source_unit_identity \<Rightarrow> bool" where
  "location_unexplained i \<longleftrightarrow> physical_locator i = None
     \<and> \<not> (case physical_locator_unavailable_reason i of None \<Rightarrow> False | Some r \<Rightarrow> \<not> blank r)"

definition locator_differs :: "source_unit_identity \<Rightarrow> structured_source_unit \<Rightarrow> bool" where
  "locator_differs i u \<longleftrightarrow> \<not> is_document_locator (unit_locator u)
     \<and> (case physical_locator i of None \<Rightarrow> True | Some l \<Rightarrow> \<not> locator_eq l (unit_locator u))"

fun validate_spans :: "rstr \<Rightarrow> nat \<Rightarrow> rendered_span list \<Rightarrow> convert_error + unit" where
  "validate_spans md prior_end [] = Inr ()"
| "validate_spans md prior_end (s # ss) =
     (if start_byte s \<ge> end_byte s \<or> start_byte s < prior_end \<or> end_byte s > byte_len md
         \<or> \<not> is_boundary md (start_byte s) \<or> \<not> is_boundary md (end_byte s)
      then Inl (invalid ''invalid UTF-8 rendered span'')
      else validate_spans md (end_byte s) ss)"

definition table_identity_differs :: "source_unit_identity \<Rightarrow> structured_source_unit \<Rightarrow> bool" where
  "table_identity_differs i u \<longleftrightarrow> (unit_grid u \<noteq> None) \<noteq> (table_id i \<noteq> None)
     \<or> (table_id i \<noteq> None \<and> table_id i \<noteq> Some (unit_key u))"

definition validate_grid_of :: "structured_source_unit \<Rightarrow> convert_error + unit" where
  "validate_grid_of u = (case unit_grid u of None \<Rightarrow> Inr ()
     | Some grid \<Rightarrow> (case validate_table_grid grid of Inl e \<Rightarrow> Inl (invalid e) | Inr _ \<Rightarrow> Inr ()))"

definition header_invalid :: "structured_source_unit \<Rightarrow> table_header_cell \<Rightarrow> bool" where
  "header_invalid u h \<longleftrightarrow>
     \<not> (header_role h = lit ''column_header'' \<or> header_role h = lit ''row_header'')
     \<or> \<not> (case unit_grid u of None \<Rightarrow> False
           | Some grid \<Rightarrow> \<exists>c \<in> set (cells grid). cell_row c = header_row h \<and> cell_column c = header_column h)"

definition validate_unit ::
  "(bytes \<Rightarrow> rstr) \<Rightarrow> rstr \<Rightarrow> rstr set \<Rightarrow> nat \<Rightarrow> source_unit_identity \<Rightarrow> structured_source_unit \<Rightarrow> convert_error + unit" where
  "validate_unit sha256 md identities n i u =
     (if identity_invalid sha256 identities n i u then Inl (invalid ''invalid unit identity, ordinal or completeness'')
      else if location_unexplained i then Inl (invalid ''missing physical location without explanation'')
      else if locator_differs i u then Inl (invalid ''physical locator differs from native carrier'')
      else rbind (validate_spans md 0 (rendered_spans i)) (\<lambda>_.
        if table_identity_differs i u then Inl (invalid ''table identity differs from native grid'')
        else rbind (validate_grid_of u) (\<lambda>_.
          if list_ex (header_invalid u) (header_cells i) then Inl (invalid ''header must reference a real grid anchor'')
          else Inr ())))"

fun validate_units ::
  "(bytes \<Rightarrow> rstr) \<Rightarrow> rstr \<Rightarrow> rstr set \<Rightarrow> nat \<Rightarrow> (source_unit_identity \<times> structured_source_unit) list \<Rightarrow> convert_error + unit" where
  "validate_units sha256 md identities n [] = Inr ()"
| "validate_units sha256 md identities n ((i, u) # ps) =
     rbind (validate_unit sha256 md identities n i u)
       (\<lambda>_. validate_units sha256 md (insert (unit_key u) identities) (Suc n) ps)"

text \<open>\<^verbatim>\<open>collect\<close> into a map keeps the last entry of a key.\<close>

definition unit_index :: "source_contract \<Rightarrow> rstr \<Rightarrow> source_unit_identity option" where
  "unit_index contract key = find (\<lambda>u. unit_id u = key) (rev (units contract))"

fun validate_page_units ::
  "source_contract \<Rightarrow> u32 \<Rightarrow> rstr set \<Rightarrow> rstr set \<Rightarrow> rstr list \<Rightarrow> convert_error + rstr set" where
  "validate_page_units contract p page_ids covered [] = Inr covered"
| "validate_page_units contract p page_ids covered (key # keys) =
     (case unit_index contract key of None \<Rightarrow> Inl (invalid ''unknown page unit'')
      | Some u \<Rightarrow>
          if key \<in> page_ids \<or> key \<in> covered \<or> Option.bind (physical_locator u) physical_page \<noteq> Some p
          then Inl (invalid ''page/unit physical location mismatch'')
          else validate_page_units contract p (insert key page_ids) (insert key covered) keys)"

definition page_images :: "source_contract \<Rightarrow> source_page \<Rightarrow> rstr list" where
  "page_images contract page =
     filter (\<lambda>key. case unit_index contract key of None \<Rightarrow> False | Some u \<Rightarrow> kind u = ImageRegion) (unit_ids page)"

definition validate_page ::
  "source_contract \<Rightarrow> nat \<Rightarrow> rstr set \<Rightarrow> source_page \<Rightarrow> convert_error + rstr set" where
  "validate_page contract n covered page =
     (if unat (page_ordinal page) \<noteq> n \<or> classification page \<notin> set [lit ''text'', lit ''scanned'', lit ''blank'']
      then Inl (invalid ''invalid physical page manifest order or class'')
      else rbind (validate_page_units contract (page_ordinal page) {} covered (unit_ids page)) (\<lambda>covered'.
        if set (page_images contract page) \<noteq> set (image_unit_ids page) \<or> \<not> distinct (image_unit_ids page)
        then Inl (invalid ''page image ownership mismatch'')
        else Inr covered'))"

fun validate_pages ::
  "source_contract \<Rightarrow> nat \<Rightarrow> rstr set \<Rightarrow> source_page list \<Rightarrow> convert_error + rstr set" where
  "validate_pages contract n covered [] = Inr covered"
| "validate_pages contract n covered (page # pages) =
     rbind (validate_page contract n covered page) (\<lambda>covered'. validate_pages contract (Suc n) covered' pages)"

text \<open>\<^verbatim>\<open>str::parse::<usize>\<close>: an optional plus sign and at least one digit, below \<open>2 ^ 64\<close>.\<close>

definition parse_usize :: "rstr \<Rightarrow> nat option" where
  "parse_usize s =
     (let digits = (if s \<noteq> [] \<and> hd s = 43 then tl s else s);
          n = foldl (\<lambda>acc c. acc * 10 + (c - 48)) 0 digits
      in if digits \<noteq> [] \<and> list_all (\<lambda>c. 48 \<le> c \<and> c \<le> 57) digits \<and> n < 2 ^ 64 then Some n else None)"

definition validate_page_count :: "source_contract \<Rightarrow> read_result \<Rightarrow> convert_error + unit" where
  "validate_page_count contract parsed =
     (case metadata parsed (lit ''page_count'') of None \<Rightarrow> Inr ()
      | Some text \<Rightarrow> (case parse_usize text of None \<Rightarrow> Inl (invalid ''invalid page count'')
          | Some count \<Rightarrow> if count \<noteq> length (page_manifest contract)
                          then Inl (invalid ''physical page coverage incomplete'') else Inr ()))"

definition contract_header_invalid :: "(bytes \<Rightarrow> rstr) \<Rightarrow> source_contract \<Rightarrow> read_result \<Rightarrow> bool" where
  "contract_header_invalid sha256 contract parsed \<longleftrightarrow>
     schema_version contract \<noteq> 2 \<or> \<not> hex64 (document_revision contract) \<or> blank (parser_version contract)
     \<or> markdown_sha256 contract \<noteq> sha256 (as_bytes (markdown parsed))
     \<or> length (units contract) \<noteq> length (structured_source_units parsed)"

definition validate_contract :: "(bytes \<Rightarrow> rstr) \<Rightarrow> source_contract \<Rightarrow> read_result \<Rightarrow> convert_error + unit" where
  "validate_contract sha256 contract parsed =
     rbind (validate_glyph_normalizations contract) (\<lambda>_.
       if contract_header_invalid sha256 contract parsed
       then Inl (invalid ''version, source identity, rendering digest or unit count mismatch'')
       else rbind (validate_units sha256 (markdown parsed) {} 0 (zip (units contract) (structured_source_units parsed))) (\<lambda>_.
         rbind (validate_pages contract 0 {} (page_manifest contract)) (\<lambda>covered.
           if page_manifest contract \<noteq> [] \<and> card covered \<noteq> length (units contract)
           then Inl (invalid ''page manifest omits source units'')
           else validate_page_count contract parsed)))"

definition parse_source_contract ::
  "(bytes \<Rightarrow> rstr) \<Rightarrow> (rstr \<Rightarrow> source_contract option) \<Rightarrow> read_result \<Rightarrow> convert_error + source_contract option" where
  "parse_source_contract sha256 from_json parsed =
     (case metadata parsed (lit ''source_contract'') of None \<Rightarrow> Inr None
      | Some raw \<Rightarrow> (case from_json raw of None \<Rightarrow> Inl (invalid ''malformed V2 sidecar'')
          | Some contract \<Rightarrow> rbind (validate_contract sha256 contract parsed) (\<lambda>_. Inr (Some contract))))"

subsection \<open>Replacing a literal of the markdown\<close>

text \<open>\<^verbatim>\<open>str::replace\<close>; the pattern is not empty where the program calls it.\<close>

function replace_lit :: "rstr \<Rightarrow> rstr \<Rightarrow> rstr \<Rightarrow> rstr" where
  "replace_lit from to rest =
     (if rest = [] then []
      else if from \<noteq> [] \<and> prefix from rest then to @ replace_lit from to (drop (length from) rest)
      else hd rest # replace_lit from to (tl rest))"
  by auto
termination
  by (relation "measure (\<lambda>(from, to, rest). length rest)") (auto simp: length_greater_0_conv [symmetric] simp del: length_greater_0_conv)

declare replace_lit.simps [simp del]

fun shift_adjustment :: "(nat \<times> nat) list \<Rightarrow> int \<Rightarrow> nat \<Rightarrow> int \<Rightarrow> convert_error + int" where
  "shift_adjustment [] delta offset adjustment = Inr adjustment"
| "shift_adjustment ((a, b) # rs) delta offset adjustment =
     (if a < offset \<and> offset < b then Inl (invalid ''image replacement cuts a rendered span boundary'')
      else shift_adjustment rs delta offset (if b \<le> offset then adjustment + delta else adjustment))"

definition shift_offset :: "(nat \<times> nat) list \<Rightarrow> int \<Rightarrow> nat \<Rightarrow> convert_error + nat" where
  "shift_offset ranges delta offset =
     rbind (shift_adjustment ranges delta offset 0) (\<lambda>adjustment.
       let n = int offset + adjustment
       in if 0 \<le> n \<and> n < 2 ^ 64 then Inr (nat n) else Inl (invalid ''rendered span overflow''))"

fun shift_spans :: "(nat \<times> nat) list \<Rightarrow> int \<Rightarrow> rendered_span list \<Rightarrow> convert_error + rendered_span list" where
  "shift_spans ranges delta [] = Inr []"
| "shift_spans ranges delta (s # ss) =
     rbind (shift_offset ranges delta (start_byte s)) (\<lambda>a.
       rbind (shift_offset ranges delta (end_byte s)) (\<lambda>b.
         rbind (shift_spans ranges delta ss) (\<lambda>ss'. Inr (s\<lparr>start_byte := a, end_byte := b\<rparr> # ss'))))"

fun shift_units :: "(nat \<times> nat) list \<Rightarrow> int \<Rightarrow> source_unit_identity list \<Rightarrow> convert_error + source_unit_identity list" where
  "shift_units ranges delta [] = Inr []"
| "shift_units ranges delta (u # us) =
     rbind (shift_spans ranges delta (rendered_spans u)) (\<lambda>ss.
       rbind (shift_units ranges delta us) (\<lambda>us'. Inr (u\<lparr>rendered_spans := ss\<rparr> # us')))"

definition replace_rendered ::
  "(bytes \<Rightarrow> rstr) \<Rightarrow> rstr \<Rightarrow> rstr \<Rightarrow> source_contract \<times> rstr \<Rightarrow> convert_error + source_contract \<times> rstr" where
  "replace_rendered sha256 from to s =
     (case s of (contract, md) \<Rightarrow>
        if from = [] \<or> from = to then Inr (contract, md)
        else let ranges = literal_matches from 0 md
          in if ranges = [] then Inr (contract, md)
             else rbind (shift_units ranges (int (byte_len to) - int (byte_len from)) (units contract)) (\<lambda>updated.
               let md' = replace_lit from to md
               in Inr (contract\<lparr>units := updated, markdown_sha256 := sha256 (as_bytes md')\<rparr>, md')))"

text \<open>\<^verbatim>\<open>replace_mapped\<close> of \<^verbatim>\<open>images.rs\<close>: without a contract the text is replaced alone.\<close>

definition replace_mapped ::
  "(bytes \<Rightarrow> rstr) \<Rightarrow> rstr \<Rightarrow> rstr \<Rightarrow> source_contract option \<times> rstr \<Rightarrow> convert_error + source_contract option \<times> rstr" where
  "replace_mapped sha256 from to s =
     (case s of (None, md) \<Rightarrow> Inr (None, replace_lit from to md)
      | (Some contract, md) \<Rightarrow> rbind (replace_rendered sha256 from to (contract, md)) (\<lambda>(contract', md'). Inr (Some contract', md')))"

end
