(* ===== verification/Replace_Props.thy ===== *)
theory Replace_Props
  imports Source_Contract
begin

text \<open>
  Literal replacement and byte offsets.  An offset is \<open>uncut\<close> when it lies strictly inside no occurrence of the
  pattern.  Replacement is then a homomorphism at that offset, and the shifted offset is
  the length of the replaced prefix; so a span with uncut ends selects, after the replacement, the replaced text
  it selected before.
\<close>

definition uncut :: "(nat \<times> nat) list \<Rightarrow> nat \<Rightarrow> bool" where
  "uncut ranges n \<longleftrightarrow> (\<forall>(a, b) \<in> set ranges. \<not> (a < n \<and> n < b))"

definition ends_before :: "(nat \<times> nat) list \<Rightarrow> nat \<Rightarrow> nat" where
  "ends_before ranges n = length (filter (\<lambda>(a, b). b \<le> n) ranges)"

lemma ends_before_simps [simp]:
  "ends_before [] n = 0"
  "ends_before ((a, b) # rs) n = (if b \<le> n then Suc (ends_before rs n) else ends_before rs n)"
  by (simp_all add: ends_before_def)

lemma uncut_simps [simp]:
  "uncut [] n"
  "uncut ((a, b) # rs) n \<longleftrightarrow> \<not> (a < n \<and> n < b) \<and> uncut rs n"
  by (auto simp: uncut_def)

lemma byte_len_pos: "s \<noteq> [] \<Longrightarrow> 0 < byte_len s"
  by (cases s) simp_all

subsection \<open>Searching from left to right\<close>

lemma search_simps [simp]:
  "literal_matches sep pos [] = []"
  "replace_lit sep to [] = []"
  "sep \<noteq> [] \<Longrightarrow> literal_matches sep pos (sep @ r) = (pos, pos + byte_len sep) # literal_matches sep (pos + byte_len sep) r"
  "sep \<noteq> [] \<Longrightarrow> replace_lit sep to (sep @ r) = to @ replace_lit sep to r"
  "\<not> prefix sep (c # cs) \<Longrightarrow> literal_matches sep pos (c # cs) = literal_matches sep (pos + len_utf8 c) cs"
  "\<not> prefix sep (c # cs) \<Longrightarrow> replace_lit sep to (c # cs) = c # replace_lit sep to cs"
  by (simp_all add: literal_matches.simps replace_lit.simps [of sep to "[]"] replace_lit.simps [of sep to "_ @ _"] replace_lit.simps [of sep to "_ # _"])

lemma search_induct:
  assumes "sep \<noteq> []" and "P []" and hit: "\<And>r. P r \<Longrightarrow> P (sep @ r)"
    and miss: "\<And>c cs. \<not> prefix sep (c # cs) \<Longrightarrow> P cs \<Longrightarrow> P (c # cs)"
  shows "P s"
proof (induction s rule: length_induct)
  case (1 s)
  show ?case
  proof (cases s)
    case (Cons c cs)
    show ?thesis
    proof (cases "prefix sep s")
      case True
      then obtain r where "s = sep @ r" by (auto elim: prefixE)
      then show ?thesis using 1 \<open>sep \<noteq> []\<close> by (simp add: hit)
    qed (use 1 Cons miss in simp)
  qed (simp add: assms)
qed

lemma literal_matches_bounds:
  assumes sep: "sep \<noteq> []" and "(a, b) \<in> set (literal_matches sep pos s)"
  shows "pos \<le> a \<and> a < b"
  using assms(2)
proof (induction s arbitrary: pos rule: search_induct [OF sep])
  case (2 r)
  then show ?case using byte_len_pos [OF sep] sep by fastforce
qed fastforce+

lemma ends_before_start:
  "sep \<noteq> [] \<Longrightarrow> n \<le> pos \<Longrightarrow> ends_before (literal_matches sep pos s) n = 0"
  using literal_matches_bounds [of sep _ _ pos s] by (fastforce simp: ends_before_def filter_empty_conv)

text \<open>The three facts about an uncut character position, by one induction along the search.\<close>

lemma replace_at_uncut:
  assumes sep: "sep \<noteq> []" and "i \<le> length s" and "uncut (literal_matches sep pos s) (pos + byte_len (take i s))"
  shows "replace_lit sep to s = replace_lit sep to (take i s) @ replace_lit sep to (drop i s)
    \<and> int (byte_len (replace_lit sep to (take i s))) = int (byte_len (take i s))
        + int (ends_before (literal_matches sep pos s) (pos + byte_len (take i s))) * (int (byte_len to) - int (byte_len sep))
    \<and> set (literal_matches sep pos (take i s)) \<subseteq> set (literal_matches sep pos s)"
  using assms(2,3)
proof (induction s arbitrary: i pos rule: search_induct [OF sep])
  case (2 r)
  consider "i = 0" | "0 < i" "i < length sep" | k where "i = length sep + k"
    by (metis le_iff_add linorder_not_le not_gr_zero)
  then show ?case
  proof cases
    case 1
    then show ?thesis using sep byte_len_pos [OF sep] by (simp add: ends_before_start)
  next
    case i2: 2
    then have "byte_len (take i sep) < byte_len sep" "0 < byte_len (take i sep)"
      using byte_len_take_less [of i "length sep" sep] sep by (simp_all add: byte_len_pos)
    then show ?thesis using i2 2 sep by simp
  next
    case k: 3
    have "uncut (literal_matches sep (pos + byte_len sep) r) (pos + byte_len sep + byte_len (take k r))"
      using 2 k sep by (simp add: add.assoc)
    then have "replace_lit sep to r = replace_lit sep to (take k r) @ replace_lit sep to (drop k r)"
      "int (byte_len (replace_lit sep to (take k r))) = int (byte_len (take k r))
         + int (ends_before (literal_matches sep (pos + byte_len sep) r) (pos + byte_len sep + byte_len (take k r)))
           * (int (byte_len to) - int (byte_len sep))"
      "set (literal_matches sep (pos + byte_len sep) (take k r)) \<subseteq> set (literal_matches sep (pos + byte_len sep) r)"
      using 2(1) [of k "pos + byte_len sep"] 2(2) k by simp_all
    then show ?thesis using k sep by (simp add: add.assoc algebra_simps subset_insertI2)
  qed
next
  case (3 c cs)
  show ?case
  proof (cases i)
    case 0
    then show ?thesis using sep by (simp add: ends_before_start)
  next
    case (Suc j)
    have "\<not> prefix sep (c # take j cs)"
      using 3(1) by (metis prefix_order.trans take_is_prefix take_Suc_Cons)
    then show ?thesis using 3(2) [of j "pos + len_utf8 c"] 3(1,3,4) Suc by (simp add: add.assoc)
  qed
qed simp

subsection \<open>Shifted spans\<close>

lemma shift_adjustment_Inr:
  "shift_adjustment ranges delta n acc = Inr k \<longleftrightarrow> uncut ranges n \<and> k = acc + int (ends_before ranges n) * delta"
  by (induction ranges delta n acc rule: shift_adjustment.induct) (auto simp: algebra_simps)

lemma shift_offset_Inr:
  "shift_offset ranges delta n = Inr m \<longleftrightarrow>
     uncut ranges n \<and> int m = int n + int (ends_before ranges n) * delta \<and> m < 2 ^ 64"
  by (auto simp: shift_offset_def rbind_eq_Inr shift_adjustment_Inr Let_def)

lemma shift_spans_Inr:
  "shift_spans ranges delta ss = Inr ss' \<longleftrightarrow>
     list_all2 (\<lambda>s s'. shift_offset ranges delta (start_byte s) = Inr (start_byte s')
       \<and> shift_offset ranges delta (end_byte s) = Inr (end_byte s')) ss ss'"
proof (induction ss arbitrary: ss')
  case (Cons s ss)
  have "s\<lparr>start_byte := start_byte t, end_byte := end_byte t\<rparr> = t" for t by (cases s, cases t) simp
  then show ?case using Cons by (auto simp: rbind_eq_Inr list_all2_Cons1)
qed (auto simp: list_all2_Nil)

text \<open>The shift of a literal search: where a successful shift leads.\<close>

lemma shift_is_replaced_prefix:
  assumes "sep \<noteq> []" and "is_boundary md n"
    and "shift_offset (literal_matches sep 0 md) (int (byte_len to) - int (byte_len sep)) n = Inr m"
  shows "m = byte_len (replace_lit sep to (take (rune_index md n) md))"
    and "uncut (literal_matches sep 0 md) n"
proof -
  show u: "uncut (literal_matches sep 0 md) n" using assms(3) by (simp add: shift_offset_Inr)
  have n: "byte_len (take (rune_index md n) md) = n" using assms(2) by (simp add: is_boundary_def)
  show "m = byte_len (replace_lit sep to (take (rune_index md n) md))"
    using replace_at_uncut [OF assms(1) rune_index_le [of md n], of 0 to] u assms(3) by (simp add: n shift_offset_Inr)
qed

lemma replace_two_uncut:
  assumes sep: "sep \<noteq> []" and a: "is_boundary md a" "uncut (literal_matches sep 0 md) a"
    and b: "is_boundary md b" "uncut (literal_matches sep 0 md) b" and le: "a \<le> b"
  shows "replace_lit sep to md = replace_lit sep to (take (rune_index md a) md)
           @ replace_lit sep to (byte_slice md a b) @ replace_lit sep to (drop (rune_index md b) md)"
    and "replace_lit sep to (take (rune_index md b) md)
           = replace_lit sep to (take (rune_index md a) md) @ replace_lit sep to (byte_slice md a b)"
proof -
  let ?i = "rune_index md a" and ?j = "rune_index md b"
  have ij: "?i \<le> ?j" using rune_index_mono [OF a(1) b(1)] le by simp
  have na: "byte_len (take ?i md) = a" and nb: "byte_len (take ?j md) = b" using a(1) b(1) by (simp_all add: is_boundary_def)
  have at_b: "replace_lit sep to md = replace_lit sep to (take ?j md) @ replace_lit sep to (drop ?j md)"
    and sub: "set (literal_matches sep 0 (take ?j md)) \<subseteq> set (literal_matches sep 0 md)"
    using replace_at_uncut [OF sep rune_index_le [of md b], of 0 to] b(2) by (simp_all add: nb)
  have "uncut (literal_matches sep 0 (take ?j md)) (0 + byte_len (take ?i (take ?j md)))"
    using a(2) sub ij by (auto simp: uncut_def na min_def)
  then show eq: "replace_lit sep to (take ?j md) = replace_lit sep to (take ?i md) @ replace_lit sep to (byte_slice md a b)"
    using replace_at_uncut [OF sep, of ?i "take ?j md" 0 to] ij rune_index_le [of md b]
    by (simp add: byte_slice_def Rust_Text.slice_def drop_take min_def)
  show "replace_lit sep to md = replace_lit sep to (take ?i md) @ replace_lit sep to (byte_slice md a b) @ replace_lit sep to (drop ?j md)"
    using at_b eq by simp
qed

lemma rune_index_append [simp]: "rune_index (s @ t) (byte_len s) = length s"
  using rune_index_take [of "length s" "s @ t"] by simp

lemma byte_slice_middle: "byte_slice (s @ t @ u) (byte_len s) (byte_len (s @ t)) = t"
proof -
  have "rune_index (s @ t @ u) (byte_len (s @ t)) = length (s @ t)" using rune_index_append [of "s @ t" u] by simp
  then show ?thesis by (simp add: byte_slice_def Rust_Text.slice_def)
qed

lemma boundary_append [simp]: "is_boundary (s @ t) (byte_len s)"
  by (simp add: is_boundary_def)

lemma replace_lit_ne: "sep \<noteq> [] \<Longrightarrow> to \<noteq> [] \<Longrightarrow> s \<noteq> [] \<Longrightarrow> replace_lit sep to s \<noteq> []"
  by (subst replace_lit.simps) auto

text \<open>A span selects, after the replacement, the replaced text it selected before.\<close>

lemma shifted_span:
  assumes sep: "sep \<noteq> []" and bd: "is_boundary md a" "is_boundary md b" and le: "a \<le> b"
    and sh: "shift_offset (literal_matches sep 0 md) (int (byte_len to) - int (byte_len sep)) a = Inr a'"
      "shift_offset (literal_matches sep 0 md) (int (byte_len to) - int (byte_len sep)) b = Inr b'"
  shows "byte_slice (replace_lit sep to md) a' b' = replace_lit sep to (byte_slice md a b)"
    and "is_boundary (replace_lit sep to md) a'" and "is_boundary (replace_lit sep to md) b'"
    and "a' \<le> b'" and "to \<noteq> [] \<Longrightarrow> a < b \<Longrightarrow> a' < b'"
proof -
  let ?r = "replace_lit sep to"
  note pa = shift_is_replaced_prefix [OF sep bd(1) sh(1)] and pb = shift_is_replaced_prefix [OF sep bd(2) sh(2)]
  note two = replace_two_uncut [OF sep bd(1) pa(2) bd(2) pb(2) le, of to]
  have b': "b' = byte_len (?r (take (rune_index md a) md) @ ?r (byte_slice md a b))" using pb(1) two(2) by simp
  show "byte_slice (?r md) a' b' = ?r (byte_slice md a b)"
    unfolding two(1) b' pa(1) by (rule byte_slice_middle)
  show "is_boundary (?r md) a'" unfolding two(1) pa(1) by (rule boundary_append)
  show "is_boundary (?r md) b'" unfolding two(1) b' append_assoc [symmetric] by (rule boundary_append)
  show "a' \<le> b'" by (simp add: b' pa(1))
  assume "to \<noteq> []" "a < b"
  have "\<not> rune_index md b \<le> rune_index md a" using rune_index_mono [OF bd(2,1)] \<open>a < b\<close> by simp
  then have "byte_slice md a b \<noteq> []"
    using rune_index_le [of md b] by (simp add: byte_slice_def Rust_Text.slice_def)
  then show "a' < b'" using replace_lit_ne [OF sep \<open>to \<noteq> []\<close>] byte_len_pos by (simp add: b' pa(1))
qed

end
