(* ===== verification/Table_Grid_Props.thy ===== *)
theory Table_Grid_Props
  imports Table_Grid "HOL-Library.Multiset"
begin

text \<open>
  The validation of table grids decides the declarative specification \<open>tiles\<close>, the reader of the wire format returns
  a sorted valid grid, and on a valid grid the anchors are exactly the positions of the cells.
\<close>

lemma concat_unique_index:
  assumes "\<And>x. x \<in> set xs \<Longrightarrow> distinct (f x)"
  shows "distinct (concat (map f xs)) \<and> p \<in> set (concat (map f xs)) \<Longrightarrow> \<exists>!i. i < length xs \<and> p \<in> set (f (xs ! i))"
  using assms
proof (induction xs)
  case (Cons x xs)
  have d: "set (f x) \<inter> set (concat (map f xs)) = {}" using Cons.prems(1) by simp
  show ?case
  proof (cases "p \<in> set (f x)")
    case True
    then have "p \<notin> set (f (xs ! i))" if "i < length xs" for i
      using d that by (auto simp: set_concat disjoint_iff)
    then show ?thesis using True by (intro ex1I [of _ 0]) (auto simp: nth_Cons split: nat.splits)
  next
    case False
    then have "\<exists>!i. i < length xs \<and> p \<in> set (f (xs ! i))" using Cons by auto
    then obtain i where i: "i < length xs" "p \<in> set (f (xs ! i))"
      and u: "\<And>j. j < length xs \<Longrightarrow> p \<in> set (f (xs ! j)) \<Longrightarrow> j = i" by blast
    have "j = Suc i" if "j < length (x # xs)" "p \<in> set (f ((x # xs) ! j))" for j
      using that u False by (cases j) simp_all
    then show ?thesis using i by (intro ex1I [of _ "Suc i"]) simp_all
  qed
qed simp

lemma unique_index_distinct:
  assumes "\<And>x. x \<in> set xs \<Longrightarrow> distinct (f x)"
    and "\<And>p i j. p \<in> set (f (xs ! i)) \<Longrightarrow> p \<in> set (f (xs ! j)) \<Longrightarrow> i < length xs \<Longrightarrow> j < length xs \<Longrightarrow> i = j"
  shows "distinct (concat (map f xs))"
  using assms
proof (induction xs)
  case (Cons x xs)
  have "distinct (concat (map f xs))"
  proof (rule Cons.IH)
    fix p i j assume "p \<in> set (f (xs ! i))" "p \<in> set (f (xs ! j))" "i < length xs" "j < length xs"
    then show "i = j" using Cons.prems(2) [of p "Suc i" "Suc j"] by simp
  qed (use Cons.prems(1) in simp)
  moreover have False if "p \<in> set (f x)" "y \<in> set xs" "p \<in> set (f y)" for p y
  proof -
    obtain j where "j < length xs" "xs ! j = y" using \<open>y \<in> set xs\<close> by (auto simp: in_set_conv_nth)
    then show False using Cons.prems(2) [of p 0 "Suc j"] that by simp
  qed
  ultimately show ?case using Cons.prems(1) by fastforce
qed simp

definition grid_slots :: "table_grid \<Rightarrow> slot set" where
  "grid_slots g = {w. w < row_count g} \<times> {w. w < column_count g}"

lemma card_u32_below: "finite {w :: u32. w < n}" "card {w :: u32. w < n} = unat n"
proof -
  have s: "{w :: u32. w < n} = set (u32_range 0 n)" by (simp add: set_u32_range)
  show "finite {w :: u32. w < n}" by simp
  show "card {w :: u32. w < n} = unat n"
    unfolding s using distinct_card [OF distinct_u32_range [of 0 n]] by (simp add: u32_range_def)
qed

lemma card_grid_slots: "finite (grid_slots g)" "card (grid_slots g) = unat (row_count g) * unat (column_count g)"
  by (simp_all add: grid_slots_def card_u32_below card_cartesian_product)

lemma grid_size_u64: "unat (row_count g) * unat (column_count g) < 2 ^ 64"
proof -
  have "unat (row_count g) * unat (column_count g) < 2 ^ 32 * 2 ^ 32"
    by (rule mult_strict_mono') (rule unat_u32_less zero_le)+
  then show ?thesis by simp
qed

lemma cell_slots_subset: "inside_grid g c \<Longrightarrow> set (cell_slots c) \<subseteq> grid_slots g"
  by (auto simp: slot_iff spans_def inside_grid_def grid_slots_def word_less_nat_alt)

lemma covering_iff:
  assumes "\<forall>c \<in> set (cells g). inside_grid g c" and d: "distinct (concat (map cell_slots (cells g)))"
  shows "length (concat (map cell_slots (cells g))) = unat (row_count g) * unat (column_count g) \<longleftrightarrow>
     set (concat (map cell_slots (cells g))) = grid_slots g"
proof -
  have "set (concat (map cell_slots (cells g))) \<subseteq> grid_slots g" using assms(1) cell_slots_subset by (simp add: UN_subset_iff)
  then show ?thesis
    using distinct_card [OF d] card_grid_slots [of g] card_subset_eq by (metis (no_types, lifting))
qed

lemma slots_of_index:
  assumes "\<forall>c \<in> set (cells g). inside_grid g c" and "i < length (cells g)"
  shows "(a, b) \<in> set (cell_slots (cells g ! i)) \<longleftrightarrow> spans (cells g ! i) (unat a) (unat b)"
  using assms nth_mem slot_iff by blast

lemma spans_below:
  assumes "inside_grid g c" and "spans c r k"
  shows "r < unat (row_count g)" and "k < unat (column_count g)"
  using assms by (auto simp: spans_def inside_grid_def)

lemma u32_of_below: "r < unat (n :: u32) \<Longrightarrow> unat (of_nat r :: u32) = r"
  using unat_u32_less [of n] by (simp add: unat_of_nat)

lemma tiling_iff:
  assumes ok: "\<forall>c \<in> set (cells g). inside_grid g c"
  shows "distinct (concat (map cell_slots (cells g))) \<and> set (concat (map cell_slots (cells g))) = grid_slots g \<longleftrightarrow>
     (\<forall>r < unat (row_count g). \<forall>k < unat (column_count g). \<exists>!i. i < length (cells g) \<and> spans (cells g ! i) r k)"
    (is "?D \<and> ?C \<longleftrightarrow> ?T")
proof
  assume dc: "?D \<and> ?C"
  show ?T
  proof (intro allI impI)
    fix r k assume rk: "r < unat (row_count g)" "k < unat (column_count g)"
    then have u: "unat (of_nat r :: u32) = r" "unat (of_nat k :: u32) = k" by (simp_all add: u32_of_below)
    then have "(of_nat r, of_nat k) \<in> grid_slots g" using rk by (simp add: grid_slots_def word_less_nat_alt)
    then have "\<exists>!i. i < length (cells g) \<and> (of_nat r, of_nat k) \<in> set (cell_slots (cells g ! i))"
      using dc by (intro concat_unique_index) simp_all
    then show "\<exists>!i. i < length (cells g) \<and> spans (cells g ! i) r k"
      using slots_of_index [OF ok] u by (metis (no_types, lifting))
  qed
next
  assume t: ?T
  have one: "i = j" if "(a, b) \<in> set (cell_slots (cells g ! i))" "(a, b) \<in> set (cell_slots (cells g ! j))"
    "i < length (cells g)" "j < length (cells g)" for a b i j
  proof -
    have s: "spans (cells g ! i) (unat a) (unat b)" "spans (cells g ! j) (unat a) (unat b)"
      using that slots_of_index [OF ok] by blast+
    then have "unat a < unat (row_count g)" "unat b < unat (column_count g)"
      using ok that(3) spans_below nth_mem by blast+
    then show ?thesis using t s that(3,4) by blast
  qed
  have ?D by (rule unique_index_distinct) (use one in auto)
  moreover have "grid_slots g \<subseteq> set (concat (map cell_slots (cells g)))"
  proof
    fix p assume "p \<in> grid_slots g"
    then obtain a b where p: "p = (a, b)" "unat a < unat (row_count g)" "unat b < unat (column_count g)"
      by (auto simp: grid_slots_def word_less_nat_alt)
    then obtain i where "i < length (cells g)" "spans (cells g ! i) (unat a) (unat b)" using t by blast
    then show "p \<in> set (concat (map cell_slots (cells g)))"
      using slots_of_index [OF ok] p(1) by (auto intro!: bexI [OF _ nth_mem])
  qed
  moreover have "set (concat (map cell_slots (cells g))) \<subseteq> grid_slots g"
    using ok cell_slots_subset by (simp add: UN_subset_iff)
  ultimately show "?D \<and> ?C" by blast
qed

lemma validate_iff_tiles:
  "validate_table_grid g = Inr () \<longleftrightarrow> tiles g \<and> \<not> widths_invalid g"
proof -
  have z: "x = 0 \<longleftrightarrow> \<not> 0 < x" for x :: u32 by (simp add: word_greater_zero_iff)
  have cl: "(\<exists>occ. claim_cells g {} [] (cells g) = Inr occ \<and> length occ = n) \<longleftrightarrow>
      (\<forall>c \<in> set (cells g). inside_grid g c) \<and> distinct (concat (map cell_slots (cells g)))
      \<and> length (concat (map cell_slots (cells g))) = n" for n
    using claim_cells_Inr [of "{}" "[]" g "cells g"] claim_cells_keys [of g "{}" "[]" "cells g"] by fastforce
  have "validate_table_grid g = Inr () \<longleftrightarrow> 0 < row_count g \<and> 0 < column_count g \<and>
      (\<exists>occ. claim_cells g {} [] (cells g) = Inr occ \<and> length occ = unat (row_count g) * unat (column_count g))
      \<and> \<not> widths_invalid g"
    using grid_size_u64 [of g] by (auto simp: validate_table_grid_def z rbind_eq_Inr)
  also have "\<dots> \<longleftrightarrow> tiles g \<and> \<not> widths_invalid g"
    unfolding cl tiles_def using covering_iff [of g] tiling_iff [of g] by blast
  finally show ?thesis .
qed

text \<open>
  C12: the validation of a table grid decides exactly the tilings: it accepts a grid if and only if the grid is not
  empty, every cell has positive spans and lies inside the grid, every slot belongs to exactly one cell, and the
  widths, when given, are one positive finite number per column.  No sum or product of the code overflows on the way.
\<close>

theorem validate_table_grid_refines_tiling:
  "validate_table_grid g = Inr () \<longleftrightarrow> tiles g \<and> \<not> widths_invalid g"
  by (rule validate_iff_tiles)

lemma tilesD:
  assumes "tiles g"
  shows "c \<in> set (cells g) \<Longrightarrow> inside_grid g c"
    and "i < length (cells g) \<Longrightarrow> j < length (cells g) \<Longrightarrow> spans (cells g ! i) r k \<Longrightarrow> spans (cells g ! j) r k \<Longrightarrow> i = j"
proof -
  show ok: "c \<in> set (cells g) \<Longrightarrow> inside_grid g c" for c using assms by (simp add: tiles_def)
  assume ij: "i < length (cells g)" "j < length (cells g)" "spans (cells g ! i) r k" "spans (cells g ! j) r k"
  then have "r < unat (row_count g)" "k < unat (column_count g)" using ok spans_below nth_mem by blast+
  then have "\<exists>!i. i < length (cells g) \<and> spans (cells g ! i) r k" using assms by (simp add: tiles_def)
  then show "i = j" using ij by blast
qed

lemma anchor_spans: "inside_grid g c \<Longrightarrow> spans c (unat (cell_row c)) (unat (cell_column c))"
  by (simp add: spans_def inside_grid_def word_less_nat_alt)

lemma word_spans:
  assumes "inside_grid g c"
  shows "cell_row c \<le> r \<and> cell_column c \<le> k \<and> r < cell_row c + row_span c \<and> k < cell_column c + col_span c
     \<longleftrightarrow> spans c (unat r) (unat k)"
  using slot_iff [OF assms, of r k] by (auto simp: cell_slots_def set_u32_range)

lemma anchors_distinct: "tiles g \<Longrightarrow> distinct (map anchor (cells g))"
  unfolding distinct_conv_nth
proof (intro allI impI)
  fix i j assume t: "tiles g" and ij: "i < length (map anchor (cells g))" "j < length (map anchor (cells g))" "i \<noteq> j"
  then have "spans (cells g ! i) (unat (fst (anchor (cells g ! i)))) (unat (snd (anchor (cells g ! i))))"
    "spans (cells g ! j) (unat (fst (anchor (cells g ! j)))) (unat (snd (anchor (cells g ! j))))"
    using anchor_spans [OF tilesD(1) [OF t nth_mem]] by (simp_all add: anchor_def)
  then show "map anchor (cells g) ! i \<noteq> map anchor (cells g) ! j"
    using tilesD(2) [OF t] ij by (metis length_map nth_map)
qed

lemma anchor_test_on_tiles:
  assumes t: "tiles g"
  shows "grid_cell_is_anchor g r k \<longleftrightarrow> (r, k) \<in> anchor ` set (cells g)"
proof
  assume "(r, k) \<in> anchor ` set (cells g)"
  then obtain i where i: "i < length (cells g)" "r = cell_row (cells g ! i)" "k = cell_column (cells g ! i)"
    by (auto simp: anchor_def in_set_conv_nth)
  have "(cell_row d, cell_column d) = (r, k)" if d: "d \<in> set (cells g)" and sp: "spans d (unat r) (unat k)" for d
  proof -
    obtain j where "j < length (cells g)" "d = cells g ! j" using d unfolding in_set_conv_nth by blast
    moreover have "spans (cells g ! i) (unat r) (unat k)" using i anchor_spans tilesD(1) [OF t nth_mem] by blast
    ultimately show ?thesis using tilesD(2) [OF t i(1)] sp i by blast
  qed
  then show "grid_cell_is_anchor g r k"
    unfolding grid_cell_is_anchor_def using i tilesD(1) [OF t] word_spans nth_mem by metis
qed (auto simp: grid_cell_is_anchor_def anchor_def)

text \<open>
  What the reader of the wire format returns is a valid grid with the cells of the message in the order of their
  anchors, no two cells share an anchor, and the anchor test answers yes exactly at the cells, although it
  adds positions and spans without an overflow check.
\<close>

lemma from_proto_grid_normalises:
  assumes "from_proto_grid m = Inr g"
  shows "tiles g \<and> mset (cells g) = mset (proto_cells m) \<and> sorted (map anchor (cells g))
     \<and> distinct (map anchor (cells g))
     \<and> (grid_cell_is_anchor g r k \<longleftrightarrow> (r, k) \<in> anchor ` set (cells g))"
proof (intro conjI)
  have v: "validate_table_grid g = Inr ()" and c: "cells g = sort_key anchor (proto_cells m)"
    using assms by (auto simp: from_proto_grid_def Let_def rbind_eq_Inr)
  show t: "tiles g" using v validate_iff_tiles by blast
  show "mset (cells g) = mset (proto_cells m)" "sorted (map anchor (cells g))" by (simp_all add: c)
  show "distinct (map anchor (cells g))" by (rule anchors_distinct [OF t])
  show "grid_cell_is_anchor g r k \<longleftrightarrow> (r, k) \<in> anchor ` set (cells g)" by (rule anchor_test_on_tiles [OF t])
qed

definition sample_message :: proto_grid where
  "sample_message = \<lparr>proto_row_count = 2, proto_column_count = 2,
     proto_cells = [\<lparr>cell_row = 1, cell_column = 1, row_span = 1, col_span = 1, cell_text = lit ''b''\<rparr>,
                    \<lparr>cell_row = 1, cell_column = 0, row_span = 1, col_span = 1, cell_text = lit ''a''\<rparr>,
                    \<lparr>cell_row = 0, cell_column = 0, row_span = 1, col_span = 2, cell_text = lit ''head''\<rparr>],
     proto_widths = []\<rparr>"

end
