(* ===== verification/Source_Contract_Props.thy ===== *)
theory Source_Contract_Props
  imports Replace_Props Table_Grid_Props
begin

text \<open>
  What a validated source contract guarantees, and that a literal replacement keeps it.
\<close>

subsection \<open>Replacement only moves spans\<close>

definition respanned :: "source_unit_identity \<Rightarrow> source_unit_identity \<Rightarrow> bool" where
  "respanned u u' \<longleftrightarrow> u' = u\<lparr>rendered_spans := rendered_spans u'\<rparr>"

lemma respanned_fields:
  assumes "respanned u u'"
  shows "unit_id u' = unit_id u" and "kind u' = kind u" and "physical_locator u' = physical_locator u"
proof -
  obtain ss where "u' = u\<lparr>rendered_spans := ss\<rparr>" using assms unfolding respanned_def by blast
  then show "unit_id u' = unit_id u" and "kind u' = kind u" and "physical_locator u' = physical_locator u" by simp_all
qed

lemma shift_units_Inr:
  "shift_units ranges delta us = Inr us' \<longleftrightarrow>
     list_all2 (\<lambda>u u'. respanned u u' \<and> shift_spans ranges delta (rendered_spans u) = Inr (rendered_spans u')) us us'"
proof (induction us arbitrary: us')
  case (Cons u us)
  have "(\<exists>ss. shift_spans ranges delta (rendered_spans u) = Inr ss \<and> v = u\<lparr>rendered_spans := ss\<rparr>) \<longleftrightarrow>
      respanned u v \<and> shift_spans ranges delta (rendered_spans u) = Inr (rendered_spans v)" for v
    by (auto simp: respanned_def)
  then show ?case using Cons by (auto simp: rbind_eq_Inr list_all2_Cons1) (metis respanned_def)
qed auto

lemma find_rel:
  assumes "list_all2 R xs ys" and "\<And>x y. R x y \<Longrightarrow> P x = P y"
  shows "rel_option R (find P xs) (find P ys)"
  using assms by (induction rule: list_all2_induct) auto

lemma unit_index_respanned:
  assumes "list_all2 respanned (units c) (units c')"
  shows "rel_option respanned (unit_index c key) (unit_index c' key)"
  unfolding unit_index_def
  by (rule find_rel) (use assms in \<open>simp_all add: respanned_fields\<close>)

lemma validate_page_units_respanned:
  assumes "list_all2 respanned (units c) (units c')"
  shows "validate_page_units c' p ids cov keys = validate_page_units c p ids cov keys"
proof (induction keys arbitrary: ids cov)
  case (Cons key keys)
  show ?case using unit_index_respanned [OF assms, of key] Cons
    by (cases rule: option.rel_cases) (simp_all add: respanned_fields)
qed simp

lemma page_images_respanned:
  assumes "list_all2 respanned (units c) (units c')"
  shows "page_images c' page = page_images c page"
  unfolding page_images_def
proof (rule filter_cong [OF refl])
  fix key
  show "(case unit_index c' key of None \<Rightarrow> False | Some u \<Rightarrow> kind u = ImageRegion)
      = (case unit_index c key of None \<Rightarrow> False | Some u \<Rightarrow> kind u = ImageRegion)"
    using unit_index_respanned [OF assms, of key] by (cases rule: option.rel_cases) (simp_all add: respanned_fields)
qed

lemma validate_pages_respanned:
  assumes "list_all2 respanned (units c) (units c')"
  shows "validate_pages c' n cov pages = validate_pages c n cov pages"
  by (induction pages arbitrary: n cov)
    (simp_all add: validate_page_def validate_page_units_respanned [OF assms] page_images_respanned [OF assms])

lemma validate_glyphs_same_pages:
  "page_manifest c' = page_manifest c \<Longrightarrow> validate_glyphs c' seen gs = validate_glyphs c seen gs"
  by (induction gs arbitrary: seen) (simp_all add: glyph_invalid_def)

lemma validate_unit_respanned:
  assumes "validate_unit sha256 md ids n i u = Inr ()" and "respanned i i'" and "validate_spans md' 0 (rendered_spans i') = Inr ()"
  shows "validate_unit sha256 md' ids n i' u = Inr ()"
proof -
  obtain ss where i': "i' = i\<lparr>rendered_spans := ss\<rparr>" and ss: "validate_spans md' 0 ss = Inr ()"
    using assms(2,3) unfolding respanned_def by metis
  have "identity_invalid sha256 ids n i' u = identity_invalid sha256 ids n i u"
    "location_unexplained i' = location_unexplained i" "locator_differs i' u = locator_differs i u"
    "table_identity_differs i' u = table_identity_differs i u" "header_cells i' = header_cells i" "rendered_spans i' = ss"
    by (simp_all add: i' identity_invalid_def location_unexplained_def locator_differs_def table_identity_differs_def)
  then show ?thesis using assms(1) ss by (auto simp: validate_unit_def rbind_eq_Inr split: if_splits)
qed

lemma validate_unit_spans: "validate_unit sha256 md ids n i u = Inr () \<Longrightarrow> validate_spans md 0 (rendered_spans i) = Inr ()"
  by (auto simp: validate_unit_def rbind_eq_Inr split: if_splits)

lemma validate_units_respanned:
  assumes "validate_units sha256 md ids n (zip is us) = Inr ()" and "list_all2 respanned is is'" and "length us = length is"
    and "\<And>i i'. i \<in> set is \<Longrightarrow> validate_spans md 0 (rendered_spans i) = Inr () \<Longrightarrow> (i, i') \<in> set (zip is is')
           \<Longrightarrow> validate_spans md' 0 (rendered_spans i') = Inr ()"
  shows "validate_units sha256 md' ids n (zip is' us) = Inr ()"
  using assms(2,1,3,4)
proof (induction "is" is' arbitrary: us ids n rule: list_all2_induct)
  case (Cons i "is" i' is')
  then obtain u us' where us: "us = u # us'" by (cases us) auto
  then have v: "validate_unit sha256 md ids n i u = Inr ()"
    "validate_units sha256 md (insert (unit_key u) ids) (Suc n) (zip is us') = Inr ()"
    using Cons.prems by (auto simp: rbind_eq_Inr)
  have "validate_unit sha256 md' ids n i' u = Inr ()"
    using validate_unit_respanned [OF v(1) Cons.hyps(1)] Cons.prems(3) [of i i'] validate_unit_spans [OF v(1)] by simp
  moreover have "validate_units sha256 md' (insert (unit_key u) ids) (Suc n) (zip is' us') = Inr ()"
    using v(2) Cons.prems us by (intro Cons.IH) auto
  ultimately show ?case by (simp add: us)
qed simp

subsection \<open>Shifted spans stay valid\<close>

lemma validate_spans_shifted:
  assumes sep: "sep \<noteq> []" and to: "to \<noteq> []"
    and "validate_spans md p ss = Inr ()"
    and "shift_spans (literal_matches sep 0 md) (int (byte_len to) - int (byte_len sep)) ss = Inr ss'"
    and p: "p' = 0 \<or> (is_boundary md p \<and> shift_offset (literal_matches sep 0 md) (int (byte_len to) - int (byte_len sep)) p = Inr p')"
  shows "validate_spans (replace_lit sep to md) p' ss' = Inr ()"
  using assms(3-5)
proof (induction ss arbitrary: p p' ss')
  case (Cons s ss)
  let ?sh = "shift_offset (literal_matches sep 0 md) (int (byte_len to) - int (byte_len sep))"
  obtain t ts where ss': "ss' = t # ts" and t: "?sh (start_byte s) = Inr (start_byte t)" "?sh (end_byte s) = Inr (end_byte t)"
    and ts: "shift_spans (literal_matches sep 0 md) (int (byte_len to) - int (byte_len sep)) ss = Inr ts"
    using Cons.prems(2) unfolding shift_spans_Inr list_all2_Cons1 by blast
  have v: "start_byte s < end_byte s" "p \<le> start_byte s" "is_boundary md (start_byte s)" "is_boundary md (end_byte s)"
    "validate_spans md (end_byte s) ss = Inr ()"
    using Cons.prems(1) by (auto split: if_splits)
  note sp = shifted_span [OF sep v(3,4) less_imp_le [OF v(1)] t]
  have "p' \<le> start_byte t"
    using Cons.prems(3) shifted_span(4) [OF sep _ v(3) v(2) _ t(1)] by blast
  then show ?case
    using sp(2,3) sp(5) [OF to v(1)] boundary_le [OF sp(3)] Cons.IH [OF v(5) ts] v(4) t(2) by (simp add: ss')
qed simp

lemma replace_rendered_validates:
  assumes v: "validate_contract sha256 c parsed = Inr ()" and to: "to \<noteq> []"
    and r: "replace_rendered sha256 pat to (c, markdown parsed) = Inr (c', md')"
  shows "validate_contract sha256 c' (parsed\<lparr>markdown := md'\<rparr>) = Inr ()"
proof (cases "pat = [] \<or> pat = to \<or> literal_matches pat 0 (markdown parsed) = []")
  case True
  then have "c' = c" "md' = markdown parsed" using r by (auto simp: replace_rendered_def Let_def split: if_splits)
  then show ?thesis using v by simp
next
  case False
  then obtain us' where sep: "pat \<noteq> []" and md': "md' = replace_lit pat to (markdown parsed)"
    and sh: "shift_units (literal_matches pat 0 (markdown parsed)) (int (byte_len to) - int (byte_len pat)) (units c) = Inr us'"
    and c': "c' = c\<lparr>units := us', markdown_sha256 := sha256 (as_bytes md')\<rparr>"
    using r by (auto simp: replace_rendered_def Let_def rbind_eq_Inr)
  note rel = sh [unfolded shift_units_Inr]
  have resp: "list_all2 respanned (units c) us'" by (rule list_all2_mono [OF rel]) simp
  obtain cov where v1: "validate_glyphs c {} (glyph_normalizations c) = Inr ()" and v2: "\<not> contract_header_invalid sha256 c parsed"
    and v3: "validate_units sha256 (markdown parsed) {} 0 (zip (units c) (structured_source_units parsed)) = Inr ()"
    and v4: "validate_pages c 0 {} (page_manifest c) = Inr cov" and v5: "page_manifest c = [] \<or> card cov = length (units c)"
    and v6: "validate_page_count c parsed = Inr ()"
    using v by (auto simp: validate_contract_def validate_glyph_normalizations_def rbind_eq_Inr split: if_splits)
  have "validate_units sha256 md' {} 0 (zip us' (structured_source_units parsed)) = Inr ()"
  proof (rule validate_units_respanned [OF v3 resp])
    show "length (structured_source_units parsed) = length (units c)" using v2 by (simp add: contract_header_invalid_def)
    fix i i' assume "validate_spans (markdown parsed) 0 (rendered_spans i) = Inr ()" "(i, i') \<in> set (zip (units c) us')"
    then show "validate_spans md' 0 (rendered_spans i') = Inr ()"
      using rel validate_spans_shifted [OF sep to] unfolding md' by (auto simp: list_all2_iff)
  qed
  moreover have "validate_glyphs c' {} (glyph_normalizations c') = Inr ()"
    using v1 validate_glyphs_same_pages [of c' c] by (simp add: c')
  moreover have "validate_pages c' 0 {} (page_manifest c') = Inr cov"
    using v4 validate_pages_respanned [of c c'] resp by (simp add: c')
  moreover have "\<not> contract_header_invalid sha256 c' (parsed\<lparr>markdown := md'\<rparr>)"
    using v2 list_all2_lengthD [OF resp] by (simp add: contract_header_invalid_def c')
  moreover have pm: "page_manifest c' = page_manifest c" and "units c' = us'" by (simp_all add: c')
  moreover have "validate_page_count c' (parsed\<lparr>markdown := md'\<rparr>) = Inr ()"
    using v6 unfolding validate_page_count_def pm by simp
  ultimately show ?thesis
    using v5 list_all2_lengthD [OF resp] by (simp add: validate_contract_def validate_glyph_normalizations_def)
qed

subsection \<open>Spans follow their text\<close>

lemma replace_same [simp]: "replace_lit sep sep s = s"
proof (cases "sep = []")
  case True
  then show ?thesis by (induction s) (simp_all add: replace_lit.simps [of "[]" "[]" "_ # _"])
next
  case sep: False
  show ?thesis by (induction s rule: search_induct [OF sep]) (simp_all add: sep)
qed

lemma no_matches_replace:
  assumes sep: "sep \<noteq> []" and "literal_matches sep p s = []"
  shows "replace_lit sep to s = s"
  using assms(2) by (induction s arbitrary: p rule: search_induct [OF sep]) (simp_all add: sep)

lemma no_matches_drop:
  assumes sep: "sep \<noteq> []" and "literal_matches sep p s = []"
  shows "\<exists>q. literal_matches sep q (drop i s) = []"
  using assms(2)
proof (induction s arbitrary: p i rule: search_induct [OF sep])
  case (3 c cs)
  then show ?case by (cases i) auto
qed (auto simp: sep)

lemma no_matches_slice:
  assumes sep: "sep \<noteq> []" and "literal_matches sep 0 s = []"
  shows "replace_lit sep to (byte_slice s a b) = byte_slice s a b"
proof -
  let ?j = "rune_index s b"
  have "literal_matches sep 0 (take ?j s) = []"
    using replace_at_uncut [OF sep rune_index_le [of s b], of 0 to] assms(2) by simp
  then obtain q where "literal_matches sep q (drop (rune_index s a) (take ?j s)) = []" using no_matches_drop [OF sep] by blast
  then show ?thesis using no_matches_replace [OF sep] by (simp add: byte_slice_def Rust_Text.slice_def drop_take)
qed

text \<open>
  C15: after a successful replacement every rendered span selects the text it selected before, with the replacement
  applied to it: the byte range of the new contract, cut out of the new markdown, is the
  replaced text of the old range.  Nothing else of a unit changes.
\<close>

theorem replace_rendered_follows_text:
  assumes r: "replace_rendered sha256 pat to (c, md) = Inr (c', md')" and pat: "pat \<noteq> []"
    and u: "n < length (units c)" and k: "k < length (rendered_spans (units c ! n))"
    and s: "s = rendered_spans (units c ! n) ! k" and s': "s' = rendered_spans (units c' ! n) ! k"
    and bd: "is_boundary md (start_byte s)" "is_boundary md (end_byte s)" "start_byte s \<le> end_byte s"
  shows "byte_slice md' (start_byte s') (end_byte s') = replace_lit pat to (byte_slice md (start_byte s) (end_byte s))
    \<and> length (units c') = length (units c) \<and> respanned (units c ! n) (units c' ! n)"
proof (cases "pat = to \<or> literal_matches pat 0 md = []")
  case True
  then have "c' = c" "md' = md" using r pat by (auto simp: replace_rendered_def Let_def split: if_splits)
  then show ?thesis using True s s' no_matches_slice [OF pat] by (auto simp: respanned_def)
next
  case False
  let ?d = "int (byte_len to) - int (byte_len pat)" and ?m = "literal_matches pat 0 md"
  have md': "md' = replace_lit pat to md" and sh: "shift_units ?m ?d (units c) = Inr (units c')"
    using r False pat by (auto simp: replace_rendered_def Let_def rbind_eq_Inr)
  have "respanned (units c ! n) (units c' ! n)" and len: "length (units c') = length (units c)"
    and ss: "shift_spans ?m ?d (rendered_spans (units c ! n)) = Inr (rendered_spans (units c' ! n))"
    using sh u unfolding shift_units_Inr list_all2_conv_all_nth by auto
  moreover have "shift_offset ?m ?d (start_byte s) = Inr (start_byte s')" "shift_offset ?m ?d (end_byte s) = Inr (end_byte s')"
    using ss k unfolding shift_spans_Inr list_all2_conv_all_nth s s' by auto
  ultimately show ?thesis using shifted_span(1) [OF pat bd] by (simp add: md')
qed

subsection \<open>Pages\<close>

lemma validate_units_distinct:
  assumes "validate_units sha256 md ids n (zip is us) = Inr ()" and "length is = length us"
  shows "distinct (map unit_id is) \<and> set (map unit_id is) \<inter> ids = {}"
  using assms(2,1)
proof (induction "is" us arbitrary: ids n rule: list_induct2)
  case (Cons i "is" u us)
  have "unit_id i = unit_key u" "unit_key u \<notin> ids"
    using Cons.prems by (auto simp: rbind_eq_Inr validate_unit_def identity_invalid_def split: if_splits)
  moreover have "validate_units sha256 md (insert (unit_key u) ids) (Suc n) (zip is us) = Inr ()"
    using Cons.prems by (auto simp: rbind_eq_Inr)
  ultimately show ?case using Cons.IH by fastforce
qed simp

lemma validate_page_units_Inr:
  "validate_page_units c p ids cov keys = Inr cov' \<Longrightarrow>
     cov' = cov \<union> set keys \<and> distinct keys \<and> set keys \<inter> cov = {}
     \<and> (\<forall>key \<in> set keys. \<exists>u. unit_index c key = Some u \<and> Option.bind (physical_locator u) physical_page = Some p)"
proof (induction keys arbitrary: ids cov)
  case (Cons key keys)
  obtain u where u: "unit_index c key = Some u" "Option.bind (physical_locator u) physical_page = Some p" "key \<notin> cov"
    and rest: "validate_page_units c p (insert key ids) (insert key cov) keys = Inr cov'"
    using Cons.prems by (auto split: option.splits if_splits)
  show ?case using Cons.IH [OF rest] u by auto
qed simp

definition page_ok :: "source_contract \<Rightarrow> nat \<Rightarrow> source_page \<Rightarrow> bool" where
  "page_ok c n page \<longleftrightarrow> unat (page_ordinal page) = n \<and> set (image_unit_ids page) = set (page_images c page)
     \<and> (\<forall>key \<in> set (unit_ids page). \<exists>u. unit_index c key = Some u
          \<and> Option.bind (physical_locator u) physical_page = Some (page_ordinal page))"

lemma validate_pages_Inr:
  "validate_pages c n cov pages = Inr cov' \<Longrightarrow>
     cov' = cov \<union> set (concat (map unit_ids pages)) \<and> distinct (concat (map unit_ids pages))
     \<and> set (concat (map unit_ids pages)) \<inter> cov = {} \<and> (\<forall>k < length pages. page_ok c (n + k) (pages ! k))"
proof (induction pages arbitrary: n cov)
  case (Cons page pages)
  obtain cov1 where p: "validate_page c n cov page = Inr cov1" and rest: "validate_pages c (Suc n) cov1 pages = Inr cov'"
    using Cons.prems by (auto simp: rbind_eq_Inr)
  have u: "validate_page_units c (page_ordinal page) {} cov (unit_ids page) = Inr cov1"
    and ok: "unat (page_ordinal page) = n" "set (image_unit_ids page) = set (page_images c page)"
    using p by (auto simp: validate_page_def rbind_eq_Inr split: if_splits)
  note pu = validate_page_units_Inr [OF u] and ih = Cons.IH [OF rest]
  have "page_ok c n page" using pu ok by (simp add: page_ok_def)
  then have "page_ok c (n + k) ((page # pages) ! k)" if "k < length (page # pages)" for k
    using that ih by (cases k) simp_all
  then show ?case using pu ih by auto
qed simp

lemma unit_index_member: "unit_index c key = Some u \<Longrightarrow> u \<in> set (units c) \<and> unit_id u = key"
  by (auto simp: unit_index_def find_Some_iff) (metis length_rev nth_mem set_rev)

lemma unit_index_unique:
  assumes "distinct (map unit_id (units c))" and "u \<in> set (units c)"
  shows "unit_index c (unit_id u) = Some u"
proof -
  have "unit_index c (unit_id u) \<noteq> None"
    using assms(2) by (simp add: unit_index_def find_None_iff) blast
  then obtain v where v: "unit_index c (unit_id u) = Some v" by blast
  then have "v \<in> set (units c)" "unit_id v = unit_id u" using unit_index_member by blast+
  then show ?thesis using assms v inj_onD [of unit_id "set (units c)" v u] by (simp add: distinct_map)
qed

text \<open>
  C16: in a validated contract with a page manifest the pages partition the source units: every unit is listed on exactly
  one page, the number of that page is its position in the manifest, the physical locator of the unit
  names it, and the page lists the unit as an image if and only if it is an image region.
\<close>

theorem pages_partition_units:
  assumes v: "validate_contract sha256 c parsed = Inr ()" and "page_manifest c \<noteq> []" and u: "u \<in> set (units c)"
  shows "\<exists>p < length (page_manifest c).
      (\<forall>q. q < length (page_manifest c) \<and> unit_id u \<in> set (unit_ids (page_manifest c ! q)) \<longleftrightarrow> q = p)
      \<and> unat (page_ordinal (page_manifest c ! p)) = p
      \<and> Option.bind (physical_locator u) physical_page = Some (page_ordinal (page_manifest c ! p))
      \<and> (unit_id u \<in> set (image_unit_ids (page_manifest c ! p)) \<longleftrightarrow> kind u = ImageRegion)"
proof -
  let ?pages = "page_manifest c"
  obtain cov where v1: "\<not> contract_header_invalid sha256 c parsed"
    and v2: "validate_units sha256 (markdown parsed) {} 0 (zip (units c) (structured_source_units parsed)) = Inr ()"
    and v3: "validate_pages c 0 {} ?pages = Inr cov" and v4: "card cov = length (units c)"
    using v assms(2) by (auto simp: validate_contract_def rbind_eq_Inr split: if_splits)
  have dist: "distinct (map unit_id (units c))"
    using validate_units_distinct [OF v2] v1 by (simp add: contract_header_invalid_def)
  note pages = validate_pages_Inr [OF v3]
  have ok: "page_ok c k (?pages ! k)" if "k < length ?pages" for k using pages that by simp
  have "cov \<subseteq> unit_id ` set (units c)"
  proof
    fix key assume "key \<in> cov"
    then obtain page where "page \<in> set ?pages" "key \<in> set (unit_ids page)" using pages by auto
    then obtain k where "k < length ?pages" "key \<in> set (unit_ids (?pages ! k))" by (metis in_set_conv_nth)
    then obtain w where "unit_index c key = Some w" using ok unfolding page_ok_def by blast
    then show "key \<in> unit_id ` set (units c)" using unit_index_member by force
  qed
  moreover have "card cov = card (unit_id ` set (units c))" using v4 distinct_card [OF dist] by simp
  ultimately have "cov = unit_id ` set (units c)" by (simp add: card_subset_eq)
  then have "unit_id u \<in> set (concat (map unit_ids ?pages))" using u pages by simp
  then have "\<exists>!p. p < length ?pages \<and> unit_id u \<in> set (unit_ids (?pages ! p))"
    using pages by (intro concat_unique_index) (auto simp: distinct_concat_iff)
  then obtain p where p: "p < length ?pages" "unit_id u \<in> set (unit_ids (?pages ! p))"
    and uniq: "\<forall>q. q < length ?pages \<and> unit_id u \<in> set (unit_ids (?pages ! q)) \<longleftrightarrow> q = p" by metis
  have "unit_index c (unit_id u) = Some u" by (rule unit_index_unique [OF dist u])
  then show ?thesis using p uniq ok [OF p(1)] by (intro exI [of _ p]) (auto simp: page_ok_def page_images_def)
qed

subsection \<open>A small document\<close>

text \<open>One section on one page, rendered as the whole markdown; the digest of the sample is the identity.\<close>

definition sample_unit :: structured_source_unit where
  "sample_unit = \<lparr>unit_key = lit ''u'', unit_ordinal = 0, unit_kind = Section, unit_text = lit ''x'',
     unit_locator = Page 0 None None None None, unit_grid = None\<rparr>"

definition sample_identity :: source_unit_identity where
  "sample_identity = \<lparr>unit_id = lit ''u'', ordinal = 0, kind = Section, text_sha256 = lit ''x'', grid_sha256 = None,
     section_id = None, parent_section_id = None, heading_level = None, heading_path = [],
     physical_locator = Some (Page 0 None None None None), physical_path = None,
     physical_locator_unavailable_reason = None, rendered_spans = [\<lparr>start_byte = 0, end_byte = 10\<rparr>],
     completeness = Complete, reasons = [], table_id = None, header_cells = []\<rparr>"

definition sample_markdown :: rstr where
  "sample_markdown = lit ''![](a.png) x''"

definition sample_reference :: rstr where
  "sample_reference = lit ''a.png''"

definition sample_contract :: source_contract where
  "sample_contract = \<lparr>schema_version = 2, document_revision = replicate 64 97, parser_version = lit ''p'',
     markdown_sha256 = sample_markdown, units = [sample_identity],
     page_manifest = [\<lparr>page_ordinal = 0, classification = lit ''text'', unit_ids = [lit ''u''], image_unit_ids = []\<rparr>],
     glyph_normalizations = []\<rparr>"

definition sample_result :: read_result where
  "sample_result = \<lparr>markdown = sample_markdown, structured_source_units = [sample_unit],
     metadata = (\<lambda>key. if key = lit ''source_contract'' then Some [] else None)\<rparr>"

lemma sample_contract_valid: "validate_contract id sample_contract sample_result = Inr ()"
  by code_simp

theorem replace_rendered_follows_text_witness:
  "case replace_rendered id sample_reference (lit ''objects/1'') (sample_contract, sample_markdown) of
     Inl _ \<Rightarrow> False
   | Inr (c, md) \<Rightarrow> byte_slice md (start_byte (rendered_spans (units c ! 0) ! 0)) (end_byte (rendered_spans (units c ! 0) ! 0))
       = lit ''![](objects/1)''"
proof -
  let ?r = "replace_rendered id sample_reference (lit ''objects/1'') (sample_contract, sample_markdown)"
  have "case ?r of Inl _ \<Rightarrow> False | Inr _ \<Rightarrow> True" by code_simp
  then obtain c md where r: "?r = Inr (c, md)" by (cases ?r) auto
  have b10: "is_boundary sample_markdown 10" by code_simp
  have "byte_slice md (start_byte (rendered_spans (units c ! 0) ! 0)) (end_byte (rendered_spans (units c ! 0) ! 0))
    = replace_lit sample_reference (lit ''objects/1'') (byte_slice sample_markdown 0 10)"
    using replace_rendered_follows_text [OF r _ _ _ refl refl, of 0 0] b10
    by (simp add: sample_contract_def sample_identity_def sample_reference_def lit_def)
  moreover have "replace_lit sample_reference (lit ''objects/1'') (byte_slice sample_markdown 0 10) = lit ''![](objects/1)''"
    by code_simp
  ultimately show ?thesis by (simp add: r)
qed

theorem pages_partition_units_witness:
  "\<exists>p < length (page_manifest sample_contract). unat (page_ordinal (page_manifest sample_contract ! p)) = p
     \<and> unit_id sample_identity \<in> set (unit_ids (page_manifest sample_contract ! p))"
proof -
  have "page_manifest sample_contract \<noteq> []" "sample_identity \<in> set (units sample_contract)" by (simp_all add: sample_contract_def)
  from pages_partition_units [OF sample_contract_valid this] show ?thesis by blast
qed

end
