(* ===== verification/Source_Locators.thy ===== *)
theory Source_Locators
  imports Chunk_Strategy_Props Source_Contract_Props
begin

text \<open>
  Source locators of chunks (\<^verbatim>\<open>annotate_source_locators\<close> in \<^verbatim>\<open>knowledge/src/chunker/mod.rs\<close>): where the chunker and the
  source contract meet.  Each chunk receives the units whose rendered spans intersect its byte
  range; units without a mapping are kept on the first chunk as unresolved.
\<close>







subsection \<open>Byte ranges of chunks\<close>








subsection \<open>No unit is lost\<close>



end
