(* ===== verification/Images.thy ===== *)
theory Images
  imports Source_Contract
begin

text \<open>
  Images of a parsed document (\<^verbatim>\<open>docparser/src/images.rs\<close>): payloads are stored under the digest of their content
  and the references of the markdown are rewritten to these keys, with the contract's byte ranges
  adjusted at every edit.  The outcome of an HTTP fetch is the parameter \<open>fetch\<close> (\<open>None\<close> for any error).
\<close>

record image_ref =
  filename :: rstr
  original_ref :: rstr
  storage_key :: rstr
  image_data :: bytes

subsection \<open>Ordered maps and texts\<close>

text \<open>\<^verbatim>\<open>BTreeMap<String, _>\<close> as the list of its entries in the order of the keys.\<close>

fun btree_insert :: "rstr \<Rightarrow> 'v \<Rightarrow> (rstr \<times> 'v) list \<Rightarrow> (rstr \<times> 'v) list" where
  "btree_insert k v [] = [(k, v)]"
| "btree_insert k v ((k', v') # m) =
     (if k = k' then (k, v) # m else if str_less k k' then (k, v) # (k', v') # m else (k', v') # btree_insert k v m)"

text \<open>The text before and after the first occurrence of a literal (\<^verbatim>\<open>find\<close> and the slices around it).\<close>

fun cut_lit :: "rstr \<Rightarrow> rstr \<Rightarrow> (rstr \<times> rstr) option" where
  "cut_lit p [] = (if p = [] then Some ([], []) else None)"
| "cut_lit p (c # cs) =
     (if prefix p (c # cs) then Some ([], drop (length p) (c # cs))
      else map_option (\<lambda>(before, after). (c # before, after)) (cut_lit p cs))"

lemma cut_lit_length: "cut_lit p s = Some (before, after) \<Longrightarrow> length before + length p + length after = length s"
proof (induction s arbitrary: before)
  case (Cons c cs)
  then show ?case by (auto split: if_splits dest: prefix_length_le)
qed (auto split: if_splits)

abbreviation objects_prefix :: rstr where "objects_prefix \<equiv> lit ''objects/''"

definition object_key :: "rstr \<Rightarrow> rstr" where
  "object_key hash = objects_prefix @ hash"

subsection \<open>Inline images\<close>

definition replace_ref :: "image_ref \<Rightarrow> rstr \<Rightarrow> rstr \<Rightarrow> rstr" where
  "replace_ref img key md =
     (let md1 = (if original_ref img \<noteq> [] then replace_lit (original_ref img) key md else md);
          md2 = (if storage_key img \<noteq> [] \<and> storage_key img \<noteq> original_ref img then replace_lit (storage_key img) key md1 else md1);
          nested = lit ''images/'' @ filename img
      in if filename img \<noteq> [] \<and> contains_lit nested md2 then replace_lit nested key md2 else md2)"

fun rewrite_inline :: "(bytes \<Rightarrow> rstr) \<Rightarrow> image_ref list \<Rightarrow> rstr \<Rightarrow> rstr \<times> (rstr \<times> bytes) list" where
  "rewrite_inline sha256 [] md = (md, [])"
| "rewrite_inline sha256 (img # imgs) md =
     (if image_data img = [] then rewrite_inline sha256 imgs md
      else let hash = sha256 (image_data img);
               (md', blobs) = rewrite_inline sha256 imgs (replace_ref img (object_key hash) md)
           in (md', (hash, image_data img) # blobs))"

subsection \<open>References of the markdown\<close>

function markdown_image_refs :: "rstr \<Rightarrow> rstr list" where
  "markdown_image_refs remaining =
     (case cut_lit (lit ''!['') remaining of None \<Rightarrow> []
      | Some (_, r1) \<Rightarrow> (case cut_lit (lit ''](''  ) r1 of None \<Rightarrow> []
         | Some (_, r2) \<Rightarrow> (case cut_lit (lit '')'') r2 of None \<Rightarrow> []
            | Some (reference, r3) \<Rightarrow> reference # markdown_image_refs r3)))"
  by auto
termination
  by (relation "measure length") (auto simp: lit_def dest!: cut_lit_length)

declare markdown_image_refs.simps [simp del]

definition is_http :: "rstr \<Rightarrow> bool" where
  "is_http s \<longleftrightarrow> starts_with_lit (lit ''https://'') s \<or> starts_with_lit (lit ''http://'') s"

subsection \<open>Rewriting with the contract\<close>

definition max_remote_images :: nat where "max_remote_images = 8"

type_synonym payloads = "(rstr \<times> bytes) list"
type_synonym alias_table = "(rstr \<times> rstr) list"

definition load_image :: "(rstr \<Rightarrow> bytes option) \<Rightarrow> image_ref \<Rightarrow> convert_error + bytes" where
  "load_image fetch img =
     rbind (if image_data img \<noteq> [] then Inr (image_data img)
            else if is_http (storage_key img)
            then (case fetch (storage_key img) of None \<Rightarrow> Inl ''required image could not be fetched'' | Some d \<Rightarrow> Inr d)
            else Inl ''required image has no payload'')
       (\<lambda>d. if d = [] then Inl ''required image payload is empty'' else Inr d)"

fun add_aliases :: "rstr \<Rightarrow> rstr list \<Rightarrow> alias_table \<Rightarrow> convert_error + alias_table" where
  "add_aliases key [] aliases = Inr aliases"
| "add_aliases key (a # as) aliases =
     (if a = [] \<or> a = lit ''images/'' then add_aliases key as aliases
      else if map_of aliases a \<noteq> None \<and> map_of aliases a \<noteq> Some key then Inl ''conflicting image identities''
      else add_aliases key as (btree_insert a key aliases))"

fun collect_images ::
  "(bytes \<Rightarrow> rstr) \<Rightarrow> (rstr \<Rightarrow> bytes option) \<Rightarrow> image_ref list \<Rightarrow> payloads \<Rightarrow> alias_table \<Rightarrow> convert_error + payloads \<times> alias_table" where
  "collect_images sha256 fetch [] payloads aliases = Inr (payloads, aliases)"
| "collect_images sha256 fetch (img # imgs) payloads aliases =
     rbind (load_image fetch img) (\<lambda>d.
       let hash = sha256 d
       in rbind (add_aliases (object_key hash) [original_ref img, storage_key img, lit ''images/'' @ filename img] aliases)
            (\<lambda>aliases'. collect_images sha256 fetch imgs (btree_insert hash d payloads) aliases'))"

type_synonym rewriting = "source_contract option \<times> rstr"

fun apply_aliases :: "(bytes \<Rightarrow> rstr) \<Rightarrow> alias_table \<Rightarrow> rewriting \<Rightarrow> convert_error + rewriting" where
  "apply_aliases sha256 [] s = Inr s"
| "apply_aliases sha256 ((from_ref, to_key) # as) s = rbind (replace_mapped sha256 from_ref to_key s) (apply_aliases sha256 as)"

text \<open>Longer aliases first; the sort is stable on the alphabetical order of the map.\<close>

definition by_length :: "alias_table \<Rightarrow> alias_table" where
  "by_length aliases = sort_key (\<lambda>(a, _). - int (byte_len a)) aliases"

fun remote_refs :: "payloads \<Rightarrow> rstr list \<Rightarrow> rstr list \<Rightarrow> convert_error + rstr list" where
  "remote_refs payloads [] remote = Inr remote"
| "remote_refs payloads (r # rs) remote =
     (if starts_with_lit objects_prefix r then
        (if map_of payloads (drop (length objects_prefix) r) = None
         then Inl ''rewritten image has no verified original payload'' else remote_refs payloads rs remote)
      else if \<not> is_http r then Inl ''unresolved required image reference''
      else remote_refs payloads rs (if r \<in> set remote then remote else remote @ [r]))"

fun fetch_remote ::
  "(bytes \<Rightarrow> rstr) \<Rightarrow> (rstr \<Rightarrow> bytes option) \<Rightarrow> rstr list \<Rightarrow> payloads \<Rightarrow> rewriting \<Rightarrow> convert_error + payloads \<times> rewriting" where
  "fetch_remote sha256 fetch [] payloads s = Inr (payloads, s)"
| "fetch_remote sha256 fetch (r # rs) payloads s =
     (case fetch r of None \<Rightarrow> Inl ''required remote image could not be fetched''
      | Some d \<Rightarrow>
          if d = [] then Inl ''required remote image payload is empty''
          else rbind (replace_mapped sha256 r (object_key (sha256 d)) s)
                 (\<lambda>s'. fetch_remote sha256 fetch rs (btree_insert (sha256 d) d payloads) s'))"

definition rewrite_images_with_contract ::
  "(bytes \<Rightarrow> rstr) \<Rightarrow> (rstr \<Rightarrow> source_contract option) \<Rightarrow> (rstr \<Rightarrow> bytes option) \<Rightarrow> image_ref list \<Rightarrow> read_result
     \<Rightarrow> convert_error + rstr \<times> payloads \<times> source_contract option" where
  "rewrite_images_with_contract sha256 from_json fetch images result =
     rbind (parse_source_contract sha256 from_json result) (\<lambda>contract.
       rbind (collect_images sha256 fetch images [] []) (\<lambda>(payloads, aliases).
         rbind (apply_aliases sha256 (by_length aliases) (contract, markdown result)) (\<lambda>s.
           rbind (remote_refs payloads (markdown_image_refs (snd s)) []) (\<lambda>remote.
             if length remote > max_remote_images then Inl ''required remote images exceed persistence budget''
             else rbind (fetch_remote sha256 fetch remote payloads s)
                    (\<lambda>(payloads', contract', md'). Inr (md', payloads', contract'))))))"

end
