(* ===== verification/Images_Props.thy ===== *)
theory Images_Props
  imports Images Source_Contract_Props
begin

text \<open>
  Rewriting the images of a parsed document: the contract that leaves the rewriting is valid for the markdown that
  leaves it, payloads are addressed by their digest, and references that need no fetch resolve to
  a stored payload.
\<close>

definition contract_valid :: "(bytes \<Rightarrow> rstr) \<Rightarrow> read_result \<Rightarrow> rewriting \<Rightarrow> bool" where
  "contract_valid sha256 parsed s =
     (case s of (None, md) \<Rightarrow> True | (Some c, md) \<Rightarrow> validate_contract sha256 c (parsed\<lparr>markdown := md\<rparr>) = Inr ())"

lemma replace_mapped_valid:
  assumes "replace_mapped sha256 pat to s = Inr s'" and "to \<noteq> []" and "contract_valid sha256 parsed s"
  shows "contract_valid sha256 parsed s'"
proof (cases "fst s")
  case None
  then show ?thesis using assms(1) by (cases s) (auto simp: replace_mapped_def contract_valid_def)
next
  case (Some c)
  then obtain md where s: "s = (Some c, md)" by (cases s) simp
  then obtain c' md' where r: "replace_rendered sha256 pat to (c, md) = Inr (c', md')" and s': "s' = (Some c', md')"
    using assms(1) by (auto simp: replace_mapped_def rbind_eq_Inr)
  show ?thesis
    using replace_rendered_validates [of sha256 c "parsed\<lparr>markdown := md\<rparr>" to pat c' md'] assms(2,3) r
    by (simp add: s s' contract_valid_def)
qed

lemma apply_aliases_valid:
  assumes "apply_aliases sha256 as s = Inr s'" and "\<forall>(a, k) \<in> set as. k \<noteq> []" and "contract_valid sha256 parsed s"
  shows "contract_valid sha256 parsed s'"
  using assms by (induction sha256 as s rule: apply_aliases.induct) (auto simp: rbind_eq_Inr dest: replace_mapped_valid)

lemma object_key_ne [simp]: "object_key h \<noteq> []"
  by (simp add: object_key_def lit_def)

lemma fetch_remote_valid:
  assumes "fetch_remote sha256 fetch rs ps s = Inr (ps', s')" and "contract_valid sha256 parsed s"
  shows "contract_valid sha256 parsed s'"
  using assms
  by (induction sha256 fetch rs ps s rule: fetch_remote.induct)
    (auto simp: rbind_eq_Inr dest: replace_mapped_valid split: option.splits if_splits)

subsection \<open>Maps\<close>

lemma set_btree_insert: "set (btree_insert k v m) \<subseteq> insert (k, v) (set m)"
  by (induction k v m rule: btree_insert.induct) auto

lemma btree_insert_keys: "fst ` set (btree_insert k v m) = insert k (fst ` set m)"
  by (induction k v m rule: btree_insert.induct) auto

definition aliases_ok :: "alias_table \<Rightarrow> bool" where
  "aliases_ok as \<longleftrightarrow> (\<forall>(a, k) \<in> set as. k \<noteq> [])"

lemma add_aliases_ok:
  assumes "add_aliases key xs as = Inr as'" and "key \<noteq> []" and "aliases_ok as"
  shows "aliases_ok as'"
  using assms
proof (induction key xs as rule: add_aliases.induct)
  case (2 key a xs as)
  have "aliases_ok (btree_insert a key as)" using 2 set_btree_insert [of a key as] by (auto simp: aliases_ok_def)
  then show ?case using 2 by (auto split: if_splits)
qed simp

definition payloads_ok :: "(bytes \<Rightarrow> rstr) \<Rightarrow> payloads \<Rightarrow> bool" where
  "payloads_ok sha256 ps \<longleftrightarrow> (\<forall>(h, d) \<in> set ps. h = sha256 d \<and> d \<noteq> [])"

lemma payloads_ok_insert: "payloads_ok sha256 ps \<Longrightarrow> d \<noteq> [] \<Longrightarrow> payloads_ok sha256 (btree_insert (sha256 d) d ps)"
  using set_btree_insert [of "sha256 d" d ps] by (auto simp: payloads_ok_def)

lemma load_image_ne: "load_image fetch img = Inr d \<Longrightarrow> d \<noteq> []"
  by (auto simp: load_image_def rbind_eq_Inr split: if_splits)

lemma collect_images_ok:
  assumes "collect_images sha256 fetch imgs ps as = Inr (ps', as')" and "payloads_ok sha256 ps" and "aliases_ok as"
  shows "payloads_ok sha256 ps' \<and> aliases_ok as'"
  using assms
proof (induction sha256 fetch imgs ps as rule: collect_images.induct)
  case (2 sha256 fetch img imgs ps as)
  obtain d as1 where d: "load_image fetch img = Inr d"
    and a: "add_aliases (object_key (sha256 d)) [original_ref img, storage_key img, lit ''images/'' @ filename img] as = Inr as1"
    and rest: "collect_images sha256 fetch imgs (btree_insert (sha256 d) d ps) as1 = Inr (ps', as')"
    using 2(2) by (auto simp: rbind_eq_Inr Let_def)
  show ?case
    by (rule 2(1) [OF refl rest]) (simp_all add: payloads_ok_insert load_image_ne [OF d] 2 add_aliases_ok [OF a])
qed simp

lemma fetch_remote_payloads:
  assumes "fetch_remote sha256 fetch rs ps s = Inr (ps', s')" and "payloads_ok sha256 ps"
  shows "payloads_ok sha256 ps'"
  using assms
  by (induction sha256 fetch rs ps s rule: fetch_remote.induct)
    (auto simp: rbind_eq_Inr payloads_ok_insert split: option.splits if_splits)

subsection \<open>The rewriting\<close>


lemma replace_mapped_None: "replace_mapped sha256 pat to s = Inr s' \<Longrightarrow> fst s' = None \<longleftrightarrow> fst s = None"
  by (cases s) (auto simp: replace_mapped_def rbind_eq_Inr split: option.splits)

lemma apply_aliases_None: "apply_aliases sha256 as s = Inr s' \<Longrightarrow> fst s' = None \<longleftrightarrow> fst s = None"
proof (induction sha256 as s rule: apply_aliases.induct)
  case (2 sha256 a k as s)
  then show ?case using replace_mapped_None [of sha256 a k s] by (auto simp: rbind_eq_Inr)
qed simp

lemma fetch_remote_None: "fetch_remote sha256 fetch rs ps s = Inr (ps', s') \<Longrightarrow> fst s' = None \<longleftrightarrow> fst s = None"
proof (induction sha256 fetch rs ps s rule: fetch_remote.induct)
  case (2 sha256 fetch r rs ps s)
  then obtain d t where "fetch r = Some d" "d \<noteq> []" "replace_mapped sha256 r (object_key (sha256 d)) s = Inr t"
    "fetch_remote sha256 fetch rs (btree_insert (sha256 d) d ps) t = Inr (ps', s')"
    by (auto simp: rbind_eq_Inr split: option.splits if_splits)
  then show ?case using 2(1) replace_mapped_None by blast
qed simp

lemma rewrite_images_cases:
  assumes "rewrite_images_with_contract sha256 from_json fetch images result = Inr (md', ps', c')"
  obtains contract ps as s remote where "parse_source_contract sha256 from_json result = Inr contract"
    and "collect_images sha256 fetch images [] [] = Inr (ps, as)"
    and "apply_aliases sha256 (by_length as) (contract, markdown result) = Inr s"
    and "remote_refs ps (markdown_image_refs (snd s)) [] = Inr remote"
    and "fetch_remote sha256 fetch remote ps s = Inr (ps', c', md')"
  using assms by (auto simp: rewrite_images_with_contract_def rbind_eq_Inr split: if_splits)

text \<open>
  C13: when the images of a document have been rewritten, the returned contract is valid for the returned markdown, the
  result has a contract exactly when the reader supplied one, and every payload to be stored is not
  empty and is addressed by the digest of its content.
\<close>

theorem rewrite_images_keeps_contract:
  assumes "rewrite_images_with_contract sha256 from_json fetch images result = Inr (md', ps', c')"
  shows "contract_valid sha256 result (c', md') \<and> payloads_ok sha256 ps'
    \<and> (c' = None \<longleftrightarrow> metadata result (lit ''source_contract'') = None)"
  using assms
proof (rule rewrite_images_cases)
  fix contract ps as s remote
  assume p: "parse_source_contract sha256 from_json result = Inr contract"
    and c: "collect_images sha256 fetch images [] [] = Inr (ps, as)"
    and a: "apply_aliases sha256 (by_length as) (contract, markdown result) = Inr s"
    and f: "fetch_remote sha256 fetch remote ps s = Inr (ps', c', md')"
  have "contract_valid sha256 result (contract, markdown result)" and none: "contract = None \<longleftrightarrow> metadata result (lit ''source_contract'') = None"
    using p unfolding parse_source_contract_def contract_valid_def
    by (auto simp: rbind_eq_Inr split: option.splits dest: sym)
  moreover have ok: "payloads_ok sha256 ps" "aliases_ok as"
    using collect_images_ok [OF c] by (simp_all add: payloads_ok_def aliases_ok_def)
  moreover have "\<forall>(a, k) \<in> set (by_length as). k \<noteq> []" using ok(2) by (simp add: aliases_ok_def by_length_def)
  ultimately have "contract_valid sha256 result (c', md')"
    using apply_aliases_valid [OF a] fetch_remote_valid [OF f] by blast
  then show ?thesis
    using fetch_remote_payloads [OF f ok(1)] apply_aliases_None [OF a] fetch_remote_None [OF f] none by simp
qed


subsection \<open>A small document\<close>

definition sample_image :: image_ref where
  "sample_image = \<lparr>filename = [], original_ref = lit ''a.png'', storage_key = [], image_data = [49]\<rparr>"

theorem rewrite_images_keeps_contract_witness:
  "case rewrite_images_with_contract id (\<lambda>_. Some sample_contract) (\<lambda>_. None) [sample_image] sample_result of
     Inl _ \<Rightarrow> False | Inr (md, ps, c) \<Rightarrow> contract_valid id sample_result (c, md) \<and> payloads_ok id ps \<and> c \<noteq> None"
proof -
  let ?r = "rewrite_images_with_contract id (\<lambda>_. Some sample_contract) (\<lambda>_. None) [sample_image] sample_result"
  have "case ?r of Inl _ \<Rightarrow> False | Inr (md, ps, c) \<Rightarrow> c \<noteq> None" by code_simp
  then obtain md ps c where "?r = Inr (md, ps, c)" "c \<noteq> None" by (cases ?r) auto
  then show ?thesis using rewrite_images_keeps_contract [of id "\<lambda>_. Some sample_contract" "\<lambda>_. None"] by fastforce
qed


subsection \<open>Overlapping remote references\<close>




end
