(* ===== verification/Frame_Props.thy ===== *)
theory Frame_Props
  imports Source_Contract Table_Grid_Props
begin

text \<open>
  The byte frame that a grid digest is computed from determines the grid: fixed-width big-endian numbers, UTF-8 and
  the length prefixes of the texts can be read back.
\<close>

definition scalar :: "nat \<Rightarrow> bool" where
  "scalar c \<longleftrightarrow> c < 1114112"

lemma length_be_bytes [simp]: "length (be_bytes k n) = k"
  by (induction k arbitrary: n) simp_all

lemma be_bytes_inj: "m < 256 ^ k \<Longrightarrow> n < 256 ^ k \<Longrightarrow> be_bytes k m = be_bytes k n \<longleftrightarrow> m = n"
proof (induction k arbitrary: m n)
  case (Suc k)
  have "m div 256 < 256 ^ k" "n div 256 < 256 ^ k" using Suc.prems by (simp_all add: less_mult_imp_div_less mult.commute)
  then have "be_bytes (Suc k) m = be_bytes (Suc k) n \<longleftrightarrow> m div 256 = n div 256 \<and> m mod 256 = n mod 256"
    using Suc.IH by simp
  then show ?case by (metis div_mult_mod_eq)
qed simp

lemma be_bytes_u32: "be_bytes 4 (unat a) = be_bytes 4 (unat (b :: u32)) \<longleftrightarrow> a = b"
  using be_bytes_inj [of "unat a" 4 "unat b"] unat_u32_less [of a] unat_u32_less [of b] by (simp add: word_unat_eq_iff)

lemma be_bytes_f64: "be_bytes 8 (unat a) = be_bytes 8 (unat (b :: f64_bits)) \<longleftrightarrow> a = b"
proof -
  have "unat (w :: f64_bits) < 2 ^ LENGTH(64)" for w by (rule unsigned_less)
  then show ?thesis using be_bytes_inj [of "unat a" 8 "unat b"] by (simp add: word_unat_eq_iff)
qed

subsection \<open>UTF-8\<close>

lemma utf8_first:
  assumes "scalar c"
  shows "c < 128 \<longleftrightarrow> hd (utf8_char c) < 128"
    and "128 \<le> c \<and> c < 2048 \<longleftrightarrow> 192 \<le> hd (utf8_char c) \<and> hd (utf8_char c) < 224"
    and "2048 \<le> c \<and> c < 65536 \<longleftrightarrow> 224 \<le> hd (utf8_char c) \<and> hd (utf8_char c) < 240"
    and "65536 \<le> c \<longleftrightarrow> 240 \<le> hd (utf8_char c)"
  using assms by (auto simp: utf8_char_def scalar_def)

lemma length_utf8_char [simp]: "length (utf8_char c) = len_utf8 c"
  by (simp add: utf8_char_def len_utf8_def)

lemma utf8_char_ne [simp]: "utf8_char c \<noteq> []"
  by (simp add: utf8_char_def)

lemma utf8_char_len:
  assumes "scalar c" and "scalar d" and "hd (utf8_char c) = hd (utf8_char d)"
  shows "len_utf8 c = len_utf8 d"
proof -
  have "len_utf8 e = (if hd (utf8_char e) < 128 then 1 else if hd (utf8_char e) < 224 then 2
      else if hd (utf8_char e) < 240 then 3 else 4)" if "scalar e" for e
    using utf8_first [OF that] by (auto simp: len_utf8_def)
  then show ?thesis using assms by simp
qed

lemma utf8_char_inj:
  assumes "scalar c" and "scalar d" and "utf8_char c = utf8_char d"
  shows "c = d"
proof -
  have "len_utf8 c = len_utf8 d" using assms utf8_char_len by metis
  then consider "c < 128" "d < 128" | "128 \<le> c" "c < 2048" "128 \<le> d" "d < 2048"
    | "2048 \<le> c" "c < 65536" "2048 \<le> d" "d < 65536" | "65536 \<le> c" "65536 \<le> d"
    by (auto simp: len_utf8_def split: if_splits)
  then show ?thesis
  proof cases
    case 1
    then show ?thesis using assms(3) by (simp add: utf8_char_def)
  next
    case 2
    then have "c div 64 = d div 64" "c mod 64 = d mod 64" using assms(3) by (simp_all add: utf8_char_def)
    then show ?thesis by (metis div_mult_mod_eq)
  next
    case 3
    then have "c div 64 div 64 = d div 64 div 64" "c div 64 mod 64 = d div 64 mod 64" "c mod 64 = d mod 64"
      using assms(3) by (simp_all add: utf8_char_def div_mult2_eq [symmetric])
    then show ?thesis by (metis div_mult_mod_eq)
  next
    case 4
    then have "c div 64 div 64 div 64 = d div 64 div 64 div 64" "c div 64 div 64 mod 64 = d div 64 div 64 mod 64"
      "c div 64 mod 64 = d div 64 mod 64" "c mod 64 = d mod 64"
      using assms(3) by (simp_all add: utf8_char_def div_mult2_eq [symmetric])
    then show ?thesis by (metis div_mult_mod_eq)
  qed
qed

lemma length_as_bytes [simp]: "length (as_bytes s) = byte_len s"
  by (induction s) (simp_all add: as_bytes_def)

lemma as_bytes_inj:
  assumes "list_all scalar s" and "list_all scalar t" and "as_bytes s = as_bytes t"
  shows "s = t"
  using assms
proof (induction s arbitrary: t)
  case Nil
  then show ?case by (cases t) (simp_all add: as_bytes_def)
next
  case (Cons c s)
  have "t \<noteq> []" using Cons.prems(3) by (auto simp: as_bytes_def)
  then obtain d t' where t: "t = d # t'" by (cases t) simp_all
  have eq: "utf8_char c @ as_bytes s = utf8_char d @ as_bytes t'" using Cons.prems(3) by (simp add: t as_bytes_def)
  have "hd (utf8_char c) = hd (utf8_char d)"
    using arg_cong [OF eq, of hd] by (simp only: hd_append2 utf8_char_ne not_False_eq_True)
  then have "len_utf8 c = len_utf8 d" using Cons.prems utf8_char_len by (simp add: t)
  then have "utf8_char c = utf8_char d" "as_bytes s = as_bytes t'" using eq by simp_all
  then show ?case using Cons utf8_char_inj by (simp add: t)
qed

subsection \<open>Frames\<close>

definition framable :: "table_grid \<Rightarrow> bool" where
  "framable g \<longleftrightarrow> length (cells g) < 2 ^ 32 \<and> length (grid_widths g) < 2 ^ 32
     \<and> list_all (\<lambda>c. list_all scalar (cell_text c) \<and> byte_len (cell_text c) < 2 ^ 64) (cells g)"

lemma cell_frame_inj:
  assumes "cell_frame c @ xs = cell_frame d @ ys"
    and "byte_len (cell_text c) < 2 ^ 64" "byte_len (cell_text d) < 2 ^ 64"
    and "list_all scalar (cell_text c)" "list_all scalar (cell_text d)"
  shows "c = d \<and> xs = ys"
proof -
  have head: "cell_row c = cell_row d" "cell_column c = cell_column d" "row_span c = row_span d" "col_span c = col_span d"
    and rest: "be_bytes 8 (byte_len (cell_text c)) @ as_bytes (cell_text c) @ xs
      = be_bytes 8 (byte_len (cell_text d)) @ as_bytes (cell_text d) @ ys"
    using assms(1) by (simp_all add: cell_frame_def be_bytes_u32 del: be_bytes.simps)
  have len: "byte_len (cell_text c) = byte_len (cell_text d)"
    using rest assms(2,3) be_bytes_inj [of "byte_len (cell_text c)" 8 "byte_len (cell_text d)"] by (simp del: be_bytes.simps)
  then have "as_bytes (cell_text c) = as_bytes (cell_text d)" "xs = ys" using rest by (simp_all del: be_bytes.simps)
  then show ?thesis using head as_bytes_inj [OF assms(4,5)] by simp
qed

lemma cell_frames_inj:
  assumes "length cs = length ds" and "concat (map cell_frame cs) @ xs = concat (map cell_frame ds) @ ys"
    and "list_all (\<lambda>c. list_all scalar (cell_text c) \<and> byte_len (cell_text c) < 2 ^ 64) (cs @ ds)"
  shows "cs = ds \<and> xs = ys"
  using assms
proof (induction cs ds rule: list_induct2)
  case (Cons c cs d ds)
  then have "cell_frame c @ concat (map cell_frame cs) @ xs = cell_frame d @ concat (map cell_frame ds) @ ys" by simp
  then have "c = d" "concat (map cell_frame cs) @ xs = concat (map cell_frame ds) @ ys"
    using cell_frame_inj Cons.prems(2) by auto
  then show ?case using Cons by simp
qed simp

lemma width_frames_inj:
  "length ws = length vs \<Longrightarrow> concat (map (be_bytes 8 \<circ> unat) ws) = concat (map (be_bytes 8 \<circ> unat) vs) \<Longrightarrow> ws = (vs :: f64_bits list)"
  by (induction ws vs rule: list_induct2) (simp_all add: be_bytes_f64 del: be_bytes.simps)

text \<open>
  C33: the frame behind a grid digest is injective: two grids whose frames are the same bytes have the same numbers of
  rows and columns, the same cells up to their order in the list, and the same widths.  Two different
  tables therefore share a digest only when SHA-256 itself collides.
\<close>

theorem grid_frame_injective:
  assumes "grid_frame g = grid_frame h" and "framable g" and "framable h"
  shows "row_count g = row_count h \<and> column_count g = column_count h
    \<and> sort_key anchor (cells g) = sort_key anchor (cells h) \<and> grid_widths g = grid_widths h"
proof -
  let ?cs = "sort_key anchor (cells g)" and ?ds = "sort_key anchor (cells h)"
  have dim: "row_count g = row_count h" "column_count g = column_count h"
    and n: "be_bytes 4 (length (cells g) mod 2 ^ 32) = be_bytes 4 (length (cells h) mod 2 ^ 32)"
    and rest: "concat (map cell_frame ?cs) @ be_bytes 4 (length (grid_widths g) mod 2 ^ 32) @ concat (map (be_bytes 8 \<circ> unat) (grid_widths g))
      = concat (map cell_frame ?ds) @ be_bytes 4 (length (grid_widths h) mod 2 ^ 32) @ concat (map (be_bytes 8 \<circ> unat) (grid_widths h))"
    using assms(1) by (simp_all add: grid_frame_def be_bytes_u32 del: be_bytes.simps)
  have "length (cells g) = length (cells h)"
    using n assms(2,3) be_bytes_inj [of "length (cells g)" 4 "length (cells h)"] by (simp add: framable_def del: be_bytes.simps)
  moreover have "list_all (\<lambda>c. list_all scalar (cell_text c) \<and> byte_len (cell_text c) < 2 ^ 64) (?cs @ ?ds)"
    using assms(2,3) by (auto simp: framable_def list_all_iff)
  ultimately have cells: "?cs = ?ds"
    and w: "be_bytes 4 (length (grid_widths g) mod 2 ^ 32) @ concat (map (be_bytes 8 \<circ> unat) (grid_widths g))
      = be_bytes 4 (length (grid_widths h) mod 2 ^ 32) @ concat (map (be_bytes 8 \<circ> unat) (grid_widths h))"
    using cell_frames_inj [OF _ rest] by simp_all
  then have "length (grid_widths g) = length (grid_widths h)"
    using assms(2,3) be_bytes_inj [of "length (grid_widths g)" 4 "length (grid_widths h)"]
    by (simp add: framable_def del: be_bytes.simps)
  then have "grid_widths g = grid_widths h" using w width_frames_inj by (simp del: be_bytes.simps)
  then show ?thesis using dim cells by simp
qed

definition sample_cell :: "u32 \<Rightarrow> pdf_table_cell" where
  "sample_cell k = \<lparr>cell_row = 0, cell_column = k, row_span = 1, col_span = 1, cell_text = lit ''x''\<rparr>"

definition sample_grid :: "u32 \<Rightarrow> u32 \<Rightarrow> table_grid" where
  "sample_grid j k = \<lparr>row_count = 1, column_count = 2, cells = [sample_cell j, sample_cell k], widths_mm = None\<rparr>"

theorem grid_frame_injective_witness:
  "sort_key anchor (cells (sample_grid 0 1)) = sort_key anchor (cells (sample_grid 1 0))"
proof -
  have "grid_frame (sample_grid 0 1) = grid_frame (sample_grid 1 0)"
    by (simp add: grid_frame_def sample_grid_def sample_cell_def anchor_def grid_widths_def less_eq_prod_def)
  moreover have "framable (sample_grid j k)" for j k
    by (simp add: framable_def sample_grid_def sample_cell_def grid_widths_def scalar_def lit_def len_utf8_def)
  ultimately show ?thesis using grid_frame_injective by blast
qed

end
