(* ===== verification/Evidence_Ranking.thy ===== *)
theory Evidence_Ranking
  imports Rust_Text Complex_Main "HOL-Library.Multiset" "HOL-Library.Product_Lexorder"
begin

text \<open>
  Ranking of retrieved evidence (\<^verbatim>\<open>knowledge/src/knowledge_retrieval_pg/semantic_v2.rs\<close>): reciprocal rank fusion in exact
  fractions of 128-bit integers.  A \<^verbatim>\<open>u128\<close> is a natural number below \<open>2 ^ 128\<close> with the overflow checks of the
  code written out; fractions are compared by continued fractions, without products.
\<close>

datatype retrieval_error =
  InvalidRequest string | Unavailable string | PolicyRevoked string | DigestMismatch string
| QuotaExceeded string | InvalidHit string

definition integrity :: "string \<Rightarrow> retrieval_error" where
  "integrity message = Unavailable message"

datatype ordering = Less | Equal | Greater

fun reverse_ordering :: "ordering \<Rightarrow> ordering" where
  "reverse_ordering Less = Greater"
| "reverse_ordering Equal = Equal"
| "reverse_ordering Greater = Less"

fun ordering_then :: "ordering \<Rightarrow> ordering \<Rightarrow> ordering" where
  "ordering_then Equal y = y"
| "ordering_then x _ = x"

definition cmp :: "'a::linorder \<Rightarrow> 'a \<Rightarrow> ordering" where
  "cmp x y = (if x < y then Less else if x = y then Equal else Greater)"

text \<open>\<^verbatim>\<open>sort_by\<close>: a stable sort by a comparison function.\<close>

fun insert_by :: "('a \<Rightarrow> 'a \<Rightarrow> ordering) \<Rightarrow> 'a \<Rightarrow> 'a list \<Rightarrow> 'a list" where
  "insert_by f x [] = [x]"
| "insert_by f x (y # ys) = (if f x y = Greater then y # insert_by f x ys else x # y # ys)"

definition sort_by :: "('a \<Rightarrow> 'a \<Rightarrow> ordering) \<Rightarrow> 'a list \<Rightarrow> 'a list" where
  "sort_by f xs = foldr (insert_by f) xs []"

subsection \<open>Exact fractions\<close>

definition million :: nat where "million = 1000000"

definition checked_u128 :: "nat \<Rightarrow> string \<Rightarrow> retrieval_error + nat" where
  "checked_u128 n message = (if n < 2 ^ 128 then Inr n else Inl (integrity message))"

fun gcd_loop :: "nat \<Rightarrow> nat \<Rightarrow> nat" where
  "gcd_loop left right = (if right = 0 then max left 1 else gcd_loop right (left mod right))"

declare gcd_loop.simps [simp del]

record exact_rational =
  numerator :: nat
  denominator :: nat

definition rational_new :: "nat \<Rightarrow> nat \<Rightarrow> retrieval_error + exact_rational" where
  "rational_new num den =
     (if den = 0 then Inl (integrity ''zero RRF denominator'')
      else let divisor = gcd_loop num den in Inr \<lparr>numerator = num div divisor, denominator = den div divisor\<rparr>)"

definition rational_channel :: "nat \<Rightarrow> nat \<Rightarrow> nat \<Rightarrow> retrieval_error + exact_rational" where
  "rational_channel weight k rank =
     rbind (checked_u128 (k + rank) ''RRF rank denominator overflow'') (\<lambda>rank_denominator.
       rbind (checked_u128 (million * rank_denominator) ''RRF weight denominator overflow'') (\<lambda>den.
         rational_new weight den))"

definition rational_add :: "exact_rational \<Rightarrow> exact_rational \<Rightarrow> retrieval_error + exact_rational" where
  "rational_add x y =
     rbind (checked_u128 (numerator x * denominator y) ''RRF numerator overflow'') (\<lambda>left.
       rbind (checked_u128 (numerator y * denominator x) ''RRF numerator overflow'') (\<lambda>right.
         rbind (checked_u128 (left + right) ''RRF numerator overflow'') (\<lambda>num.
           rbind (checked_u128 (denominator x * denominator y) ''RRF denominator overflow'') (\<lambda>den.
             rational_new num den))))"

text \<open>
  The comparison loop.  The denominators are positive wherever it is called; a division by zero would panic in the
  code, and the guard only makes the function total.
\<close>

function compare_fractions :: "nat \<Rightarrow> nat \<Rightarrow> nat \<Rightarrow> nat \<Rightarrow> bool \<Rightarrow> ordering option" where
  "compare_fractions lnum lden rnum rden inverted =
     (if lden = 0 \<or> rden = 0 then None
      else if lnum div lden \<noteq> rnum div rden
      then Some ((if inverted then reverse_ordering else id) (cmp (lnum div lden) (rnum div rden)))
      else if lnum mod lden = 0 \<or> rnum mod rden = 0
      then Some ((if inverted then reverse_ordering else id) (cmp (lnum mod lden) (rnum mod rden)))
      else compare_fractions lden (lnum mod lden) rden (rnum mod rden) (\<not> inverted))"
  by auto
termination
  by (relation "measure (\<lambda>(lnum, lden, rnum, rden, inverted). lden)") auto

declare compare_fractions.simps [simp del]

definition compare_fractions_without_products :: "nat \<Rightarrow> nat \<Rightarrow> nat \<Rightarrow> nat \<Rightarrow> ordering option" where
  "compare_fractions_without_products lnum lden rnum rden = compare_fractions lnum lden rnum rden False"

text \<open>A score has a positive denominator, so the comparison returns.\<close>

definition cmp_exact :: "exact_rational \<Rightarrow> exact_rational \<Rightarrow> ordering" where
  "cmp_exact x y =
     (case compare_fractions_without_products (numerator x) (denominator x) (numerator y) (denominator y) of
        Some r \<Rightarrow> r | None \<Rightarrow> Equal)"

subsection \<open>Fused scores\<close>

record rrf_policy =
  rrf_k :: nat
  vector_weight_millionths :: nat
  keyword_weight_millionths :: nat

definition rrf_score :: "rrf_policy \<Rightarrow> nat option \<Rightarrow> nat option \<Rightarrow> retrieval_error + exact_rational" where
  "rrf_score policy vector_rank keyword_rank =
     rbind (case vector_rank of None \<Rightarrow> Inr None
            | Some rank \<Rightarrow> rbind (rational_channel (vector_weight_millionths policy) (rrf_k policy) rank) (\<lambda>s. Inr (Some s)))
       (\<lambda>score.
         rbind (case keyword_rank of None \<Rightarrow> Inr score
                | Some rank \<Rightarrow> rbind (rational_channel (keyword_weight_millionths policy) (rrf_k policy) rank) (\<lambda>part.
                    case score of Some old \<Rightarrow> rbind (rational_add old part) (\<lambda>s. Inr (Some s)) | None \<Rightarrow> Inr (Some part)))
           (\<lambda>score'. case score' of None \<Rightarrow> Inl (integrity ''folded source has no channel rank'') | Some s \<Rightarrow> Inr s))"

datatype knowledge_source_type = TextSource | ParentTextSource | ImageOcrSource

record semantic_candidate =
  sem_document_id :: uuid
  sem_source_chunk_id :: uuid
  sem_product_id :: uuid
  sem_product_version_id :: uuid
  sem_display_name :: rstr
  sem_chunk_utf8 :: rstr
  sem_chunk_sha256 :: rstr
  sem_chunk_byte_length :: nat
  sem_source_type :: knowledge_source_type
  vector_rank :: "nat option"
  keyword_rank :: "nat option"
  exact_rrf_score :: exact_rational
  pre_rerank_rrf_rank :: nat

fun option_rank :: "nat option \<Rightarrow> nat option \<Rightarrow> ordering" where
  "option_rank (Some l) (Some r) = cmp l r"
| "option_rank (Some _) None = Less"
| "option_rank None (Some _) = Greater"
| "option_rank None None = Equal"

definition compare_candidates :: "semantic_candidate \<Rightarrow> semantic_candidate \<Rightarrow> ordering" where
  "compare_candidates left right =
     ordering_then (cmp_exact (exact_rrf_score right) (exact_rrf_score left))
    (ordering_then (option_rank (vector_rank left) (vector_rank right))
    (ordering_then (option_rank (keyword_rank left) (keyword_rank right))
    (ordering_then (cmp (sem_product_id left) (sem_product_id right))
    (ordering_then (cmp (sem_product_version_id left) (sem_product_version_id right))
    (ordering_then (cmp (sem_document_id left) (sem_document_id right))
                   (cmp (sem_source_chunk_id left) (sem_source_chunk_id right)))))))"

text \<open>The end of \<^verbatim>\<open>recall_in_snapshot\<close>: order, truncate to the rerank budget, number from 1.\<close>

definition rank_candidates :: "nat \<Rightarrow> semantic_candidate list \<Rightarrow> semantic_candidate list" where
  "rank_candidates top_k candidates =
     map (\<lambda>(n, c). c\<lparr>pre_rerank_rrf_rank := n\<rparr>) (enumerate 1 (take top_k (sort_by compare_candidates candidates)))"

subsection \<open>Sorting\<close>

lemma mset_insert_by [simp]: "mset (insert_by f x ys) = add_mset x (mset ys)"
  by (induction ys) simp_all

lemma mset_sort_by [simp]: "mset (sort_by f xs) = mset xs"
  by (induction xs) (simp_all add: sort_by_def)

lemma set_sort_by [simp]: "set (sort_by f xs) = set xs"
  by (rule mset_eq_setD) simp

lemma length_sort_by [simp]: "length (sort_by f xs) = length xs"
  by (rule mset_eq_length) simp

text \<open>A comparison that is a total preorder on the elements sorts them.\<close>

lemma sort_by_sorted:
  assumes anti: "\<And>x y. x \<in> A \<Longrightarrow> y \<in> A \<Longrightarrow> f x y = Greater \<Longrightarrow> f y x \<noteq> Greater"
    and trans: "\<And>x y z. x \<in> A \<Longrightarrow> y \<in> A \<Longrightarrow> z \<in> A \<Longrightarrow> f x y \<noteq> Greater \<Longrightarrow> f y z \<noteq> Greater \<Longrightarrow> f x z \<noteq> Greater"
    and "set xs \<subseteq> A"
  shows "sorted_wrt (\<lambda>x y. f x y \<noteq> Greater) (sort_by f xs)"
proof -
  have ins: "sorted_wrt (\<lambda>x y. f x y \<noteq> Greater) (insert_by f x ys)"
    if x: "x \<in> A" and sub: "set ys \<subseteq> A" and s: "sorted_wrt (\<lambda>x y. f x y \<noteq> Greater) ys" for x ys
    using sub s
  proof (induction ys)
    case (Cons y ys)
    have set_ins: "set (insert_by f x ys) = insert x (set ys)" using mset_insert_by [of f x ys] by (metis set_mset_add_mset_insert set_mset_mset)
    show ?case
    proof (cases "f x y = Greater")
      case True
      then show ?thesis using Cons anti [OF x, of y] set_ins by auto
    next
      case False
      then show ?thesis using Cons trans [OF x, of y] by auto
    qed
  qed simp
  show ?thesis using assms(3)
  proof (induction xs)
    case (Cons x xs)
    have "set (sort_by f xs) \<subseteq> A" using Cons.prems by simp
    then have "sorted_wrt (\<lambda>x y. f x y \<noteq> Greater) (insert_by f x (sort_by f xs))" using Cons by (intro ins) simp_all
    then show ?case by (simp add: sort_by_def)
  qed (simp add: sort_by_def)
qed

text \<open>A chain of comparisons is the comparison of tuples in lexicographic order.\<close>

lemma cmp_pair: "ordering_then (cmp a b) (cmp c d) = cmp (a, c) (b, d)"
  by (auto simp: cmp_def)

lemma cmp_Greater: "cmp a b = Greater \<longleftrightarrow> b < a"
  by (auto simp: cmp_def)

lemma sort_by_key_sorted:
  assumes "\<And>x y. f x y = cmp (k x) (k y)"
  shows "sorted_wrt (\<lambda>x y. k x \<le> k y) (sort_by f xs)"
proof -
  have "sorted_wrt (\<lambda>x y. f x y \<noteq> Greater) (sort_by f xs)"
    by (rule sort_by_sorted [of UNIV]) (auto simp: assms cmp_Greater)
  then show ?thesis by (simp add: assms cmp_Greater not_less)
qed

subsection \<open>Comparison without products\<close>

lemma gcd_loop_gcd: "gcd_loop a b = max (gcd a b) 1"
proof (induction a b rule: gcd_loop.induct)
  case (1 a b)
  then show ?case by (subst gcd_loop.simps) (simp add: gcd_red_nat [of a b] gcd.commute)
qed

lemma cmp_simps [simp]: "cmp x x = Equal" "reverse_ordering (cmp x y) = cmp y x"
  by (auto simp: cmp_def)

lemma cmp_mult: "0 < (n::nat) \<Longrightarrow> cmp (n * x) (n * y) = cmp x y"
  by (simp add: cmp_def)

lemma cmp_add: "cmp (n + x) (n + y) = cmp x (y :: nat)"
  by (simp add: cmp_def)

lemma quotient_less:
  assumes "0 < lden" and "0 < rden" and "lnum div lden < rnum div (rden :: nat)"
  shows "lnum * rden < rnum * lden"
proof -
  have "lnum < Suc (lnum div lden) * lden" using assms(1) dividend_less_div_times [of lden lnum] by (simp add: mult.commute)
  also have "\<dots> \<le> rnum div rden * lden" using assms(3) by (intro mult_le_mono1) simp
  finally have "lnum * rden < rnum div rden * lden * rden" using assms(2) by simp
  also have "\<dots> = rnum div rden * rden * lden" by simp
  also have "\<dots> \<le> rnum * lden" by (intro mult_le_mono1) simp
  finally show ?thesis .
qed

lemma compare_fractions_spec:
  assumes "0 < lden" and "0 < rden"
  shows "compare_fractions lnum lden rnum rden inverted = Some ((if inverted then reverse_ordering else id) (cmp (lnum * rden) (rnum * lden)))"
  using assms
proof (induction lnum lden rnum rden inverted rule: compare_fractions.induct)
  case (1 lnum lden rnum rden inverted)
  let ?q = "lnum div lden" and ?p = "rnum div rden" and ?r = "lnum mod lden" and ?s = "rnum mod rden"
  have lnum: "lnum = ?q * lden + ?r" and rnum: "rnum = ?p * rden + ?s" by simp_all
  show ?case
  proof (cases "?q = ?p")
    case False
    have "cmp (lnum * rden) (rnum * lden) = cmp ?q ?p"
      using False quotient_less [OF 1(2,3), of lnum rnum] quotient_less [OF 1(3,2), of rnum lnum]
      by (cases ?q ?p rule: linorder_cases) (simp_all add: cmp_def)
    then show ?thesis using False 1(2,3) by (subst compare_fractions.simps) simp
  next
    case q: True
    have "lnum * rden = ?q * lden * rden + ?r * rden" "rnum * lden = ?q * lden * rden + ?s * lden"
      using lnum rnum q by (metis add_mult_distrib, metis add_mult_distrib mult.assoc mult.commute)
    then have rem: "cmp (lnum * rden) (rnum * lden) = cmp (?r * rden) (?s * lden)" by (simp add: cmp_add)
    show ?thesis
    proof (cases "?r = 0 \<or> ?s = 0")
      case True
      have "cmp (?r * rden) (?s * lden) = cmp ?r ?s" using True 1(2,3) by (auto simp: cmp_def)
      then show ?thesis using True q 1(2,3) rem by (subst compare_fractions.simps) simp
    next
      case False
      have "compare_fractions lnum lden rnum rden inverted = compare_fractions lden ?r rden ?s (\<not> inverted)"
        using False q 1(2,3) by (subst compare_fractions.simps) simp
      also have "\<dots> = Some ((if \<not> inverted then reverse_ordering else id) (cmp (lden * ?s) (rden * ?r)))"
        using 1(1) False q 1(2,3) by simp
      also have "cmp (lden * ?s) (rden * ?r) = reverse_ordering (cmp (lnum * rden) (rnum * lden))"
        unfolding rem by (simp add: mult.commute)
      finally show ?thesis by (cases "cmp (lnum * rden) (rnum * lden)") auto
    qed
  qed
qed


subsection \<open>Scores\<close>

definition score_of :: "exact_rational \<Rightarrow> real" where
  "score_of x = real (numerator x) / real (denominator x)"

definition proper :: "exact_rational \<Rightarrow> bool" where
  "proper x \<longleftrightarrow> 0 < denominator x \<and> coprime (numerator x) (denominator x)"

lemma cmp_exact_spec:
  assumes "0 < denominator x" and "0 < denominator y"
  shows "cmp_exact x y = cmp (score_of x) (score_of y)"
proof -
  have "score_of x < score_of y \<longleftrightarrow> numerator x * denominator y < numerator y * denominator x"
    and "score_of x = score_of y \<longleftrightarrow> numerator x * denominator y = numerator y * denominator x"
    using assms by (simp_all add: score_of_def frac_eq_eq divide_less_eq less_divide_eq mult.commute flip: of_nat_mult)
  then show ?thesis
    by (simp add: cmp_exact_def compare_fractions_without_products_def compare_fractions_spec [OF assms] cmp_def)
qed

lemma rational_new_spec:
  assumes "0 < den"
  shows "\<exists>x. rational_new num den = Inr x \<and> proper x \<and> score_of x = real num / real den
     \<and> denominator x \<le> den \<and> numerator x \<le> num"
proof -
  let ?g = "gcd num den"
  have g: "0 < ?g" using assms by simp
  then have d: "gcd_loop num den = ?g" unfolding gcd_loop_gcd by (intro max_absorb1) linarith
  have "real (num div ?g) = real num / real ?g" "real (den div ?g) = real den / real ?g"
    by (simp_all add: real_of_nat_div)
  moreover have "0 < den div ?g" using assms by (simp add: div_greater_zero_iff gcd_le2_nat)
  ultimately show ?thesis
    using assms g by (simp add: rational_new_def Let_def d proper_def score_of_def div_gcd_coprime)
qed


definition channel_score :: "nat \<Rightarrow> nat \<Rightarrow> nat \<Rightarrow> real" where
  "channel_score weight k rank = real weight / (1000000 * (real k + real rank))"

lemma rational_channel_spec:
  assumes "w < 2 ^ 32" and "k < 2 ^ 32" and "r < 2 ^ 32" and "0 < k + r"
  shows "\<exists>x. rational_channel w k r = Inr x \<and> proper x \<and> score_of x = channel_score w k r
     \<and> denominator x < 2 ^ 53 \<and> numerator x < 2 ^ 32"
proof -
  have den: "million * (k + r) < 2 ^ 53" using assms by (simp add: million_def)
  have "0 < million * (k + r)" using assms(4) by (simp add: million_def)
  from rational_new_spec [OF this, of w] obtain x where x: "rational_new w (million * (k + r)) = Inr x" "proper x"
    "score_of x = real w / real (million * (k + r))" "denominator x \<le> million * (k + r)" "numerator x \<le> w" by blast
  have "rational_channel w k r = Inr x"
    using den assms x(1) by (simp add: rational_channel_def checked_u128_def)
  then show ?thesis using x den assms(1) by (auto simp: channel_score_def million_def)
qed

lemma rational_add_spec:
  assumes x: "proper x" "denominator x < 2 ^ 53" "numerator x < 2 ^ 32" and y: "proper y" "denominator y < 2 ^ 53" "numerator y < 2 ^ 32"
  shows "\<exists>z. rational_add x y = Inr z \<and> proper z \<and> score_of z = score_of x + score_of y"
proof -
  have pos: "0 < denominator x" "0 < denominator y" using x y by (simp_all add: proper_def)
  have small: "numerator u * denominator v < 2 ^ 85" if "numerator u < 2 ^ 32" "denominator v < 2 ^ 53" for u v
  proof -
    have "numerator u * denominator v < 2 ^ 32 * 2 ^ 53" using that by (intro mult_strict_mono') simp_all
    then show ?thesis by simp
  qed
  have nums: "numerator x * denominator y < 2 ^ 85" "numerator y * denominator x < 2 ^ 85" using x y small by blast+
  have "denominator x * denominator y < 2 ^ 53 * 2 ^ 53" using x y by (intro mult_strict_mono') simp_all
  then have den: "denominator x * denominator y < 2 ^ 106" by simp
  let ?n = "numerator x * denominator y + numerator y * denominator x"
  obtain z where z: "rational_new ?n (denominator x * denominator y) = Inr z" "proper z"
    "score_of z = real ?n / real (denominator x * denominator y)"
    using rational_new_spec [of "denominator x * denominator y" ?n] pos by auto
  have "rational_add x y = Inr z" using nums den z(1) by (simp add: rational_add_def checked_u128_def)
  moreover have "score_of z = score_of x + score_of y"
    unfolding z(3) using pos by (simp add: score_of_def add_frac_eq)
  ultimately show ?thesis using z(2) by blast
qed

definition channel_part :: "nat \<Rightarrow> nat \<Rightarrow> nat option \<Rightarrow> real" where
  "channel_part weight k rank = (case rank of None \<Rightarrow> 0 | Some r \<Rightarrow> channel_score weight k r)"

definition rank_ok :: "nat option \<Rightarrow> bool" where
  "rank_ok rank = (case rank of None \<Rightarrow> True | Some r \<Rightarrow> 0 < r \<and> r < 2 ^ 32)"

lemma rrf_score_spec:
  assumes bounds: "rrf_k p < 2 ^ 32" "vector_weight_millionths p < 2 ^ 32" "keyword_weight_millionths p < 2 ^ 32"
    and ranks: "rank_ok v" "rank_ok w" and some: "v \<noteq> None \<or> w \<noteq> None"
  shows "\<exists>x. rrf_score p v w = Inr x \<and> proper x
     \<and> score_of x = channel_part (vector_weight_millionths p) (rrf_k p) v + channel_part (keyword_weight_millionths p) (rrf_k p) w"
proof -
  have ch: "\<exists>x. rational_channel wt (rrf_k p) r = Inr x \<and> proper x \<and> score_of x = channel_score wt (rrf_k p) r
      \<and> denominator x < 2 ^ 53 \<and> numerator x < 2 ^ 32" if "wt < 2 ^ 32" "v = Some r \<or> w = Some r" for wt r
    using rational_channel_spec [OF that(1) bounds(1), of r] that(2) ranks by (auto simp: rank_ok_def)
  show ?thesis
  proof (cases v)
    case None
    then obtain r where w: "w = Some r" using some by blast
    show ?thesis using ch [OF bounds(3), of r] by (auto simp: rrf_score_def None w channel_part_def)
  next
    case (Some q)
    from ch [OF bounds(2), of q] obtain x where x: "rational_channel (vector_weight_millionths p) (rrf_k p) q = Inr x" "proper x"
      "score_of x = channel_score (vector_weight_millionths p) (rrf_k p) q" "denominator x < 2 ^ 53" "numerator x < 2 ^ 32"
      using Some by blast
    show ?thesis
    proof (cases w)
      case None
      then show ?thesis using x Some by (simp add: rrf_score_def channel_part_def)
    next
      case w: (Some r)
      from ch [OF bounds(3), of r] obtain y where y: "rational_channel (keyword_weight_millionths p) (rrf_k p) r = Inr y" "proper y"
        "score_of y = channel_score (keyword_weight_millionths p) (rrf_k p) r" "denominator y < 2 ^ 53" "numerator y < 2 ^ 32"
        using w by blast
      from rational_add_spec [OF x(2,4,5) y(2,4,5)] show ?thesis
        using x y Some w by (auto simp: rrf_score_def channel_part_def)
    qed
  qed
qed

text \<open>
  C20: the fused score of a candidate is computed exactly and the comparison of two scores always returns: for every policy of
  32-bit numbers and every pair of channel ranks (counted from 1, at least one present) no check for
  overflow fires, the score is the weighted sum of the reciprocal ranks as a fraction in lowest
  terms, and the continued-fraction loop orders two scores as the real numbers they stand for.
\<close>

theorem rrf_scores_exact:
  assumes "rrf_k p < 2 ^ 32" "vector_weight_millionths p < 2 ^ 32" "keyword_weight_millionths p < 2 ^ 32"
    and "rank_ok v" "rank_ok w" "v \<noteq> None \<or> w \<noteq> None"
    and "rank_ok v'" "rank_ok w'" "v' \<noteq> None \<or> w' \<noteq> None"
    and s: "s = channel_part (vector_weight_millionths p) (rrf_k p) v + channel_part (keyword_weight_millionths p) (rrf_k p) w"
    and s': "s' = channel_part (vector_weight_millionths p) (rrf_k p) v' + channel_part (keyword_weight_millionths p) (rrf_k p) w'"
  shows "\<exists>x y. rrf_score p v w = Inr x \<and> rrf_score p v' w' = Inr y \<and> proper x \<and> proper y
    \<and> score_of x = s \<and> score_of y = s'
    \<and> compare_fractions_without_products (numerator x) (denominator x) (numerator y) (denominator y) = Some (cmp s s')"
proof -
  obtain x y where xy: "rrf_score p v w = Inr x" "proper x" "score_of x = s" "rrf_score p v' w' = Inr y" "proper y" "score_of y = s'"
    using rrf_score_spec [OF assms(1-6)] rrf_score_spec [OF assms(1-3,7-9)] s s' by auto
  have "cmp_exact x y = cmp s s'" using cmp_exact_spec [of x y] xy by (simp add: proper_def)
  then have "compare_fractions_without_products (numerator x) (denominator x) (numerator y) (denominator y) = Some (cmp s s')"
    using xy by (simp add: cmp_exact_def compare_fractions_without_products_def compare_fractions_spec proper_def)
  then show ?thesis using xy by blast
qed

theorem rrf_scores_exact_witness:
  "\<exists>x y. rrf_score \<lparr>rrf_k = 60, vector_weight_millionths = 1, keyword_weight_millionths = 2\<rparr> (Some 1) None = Inr x
     \<and> rrf_score \<lparr>rrf_k = 60, vector_weight_millionths = 1, keyword_weight_millionths = 2\<rparr> (Some 1) (Some 2) = Inr y
     \<and> compare_fractions_without_products (numerator x) (denominator x) (numerator y) (denominator y) = Some Less"
  using rrf_scores_exact [of "\<lparr>rrf_k = 60, vector_weight_millionths = 1, keyword_weight_millionths = 2\<rparr>"
      "Some 1" None "Some 1" "Some 2", OF _ _ _ _ _ _ _ _ _ refl refl]
  by (auto simp: rank_ok_def channel_part_def channel_score_def cmp_def split: if_splits)

end
