(* ===== verification/Evidence_Batch.thy ===== *)
theory Evidence_Batch
  imports Evidence_Ranking Source_Contract "HOL-Library.Product_Lexorder"
begin

text \<open>
  Evidence batches (\<^verbatim>\<open>knowledge/src/knowledge_retrieval.rs\<close>, \<^verbatim>\<open>knowledge_retrieval_pg/mod.rs\<close>, \<^verbatim>\<open>rerank_v2.rs\<close>): the rows of a
  snapshot become exact candidates, a fair prefix of them is selected within the quotas of the
  policy, the reranked semantic candidates are appended, and the assembled batch is validated before it is returned.

  Parameters: \<open>sha256\<close> (hex digest of bytes), \<open>to_lowercase\<close> (\<^verbatim>\<open>char::to_lowercase\<close>), \<open>uuid_text\<close>
  (\<^verbatim>\<open>Uuid::to_string\<close>) and the media rows of the snapshot.  A decimal number of a provider response is its
  mantissa and scale, as \<^verbatim>\<open>rust_decimal\<close> parses it.  Error messages leave out interpolated identifiers.
\<close>

subsection \<open>Contract types\<close>

definition schema_v3 :: nat where "schema_v3 = 3"
definition contract_v2 :: rstr where "contract_v2 = lit ''knowledge-evidence-v2''"
definition utf8_byte_unit :: rstr where "utf8_byte_unit = lit ''utf8_byte''"

record policy_identity =
  contract_version :: rstr
  policy_sha256 :: rstr
  max_hits :: nat
  max_chunk_bytes :: nat
  max_total_bytes :: nat

record eligible_version =
  ev_product_id :: uuid
  ev_product_version_id :: uuid
  ev_workspace_kind :: rstr
  ev_display_name :: rstr

text \<open>Of a bounding region only whether the JSON value is an object is looked at.\<close>

record evidence_media =
  image_artifact_revision_id :: uuid
  media_object_ref :: rstr
  media_sha256 :: rstr
  media_type :: rstr
  media_width :: nat
  media_height :: nat
  media_page_ordinal :: "nat option"
  bounding_region_is_object :: "bool option"
  media_display_name :: rstr

record evidence_hit =
  schema_version_hit :: nat
  document_id :: uuid
  source_chunk_id :: uuid
  product_id :: uuid
  product_version_id :: uuid
  workspace_kind :: rstr
  display_name :: rstr
  chunk_utf8 :: rstr
  chunk_sha256 :: rstr
  chunk_byte_length :: nat
  quote_start_offset :: nat
  quote_end_offset :: nat
  offset_unit :: rstr
  retrieval_rank :: nat
  retrieval_raw_score :: rstr
  rrf_rank :: "nat option"
  retrieval_contract_version :: rstr
  source_type :: knowledge_source_type
  media :: "evidence_media option"

record evidence_batch =
  batch_schema_version :: nat
  eligible_versions :: "eligible_version list"
  hits :: "evidence_hit list"
  exact_prefix_hit_count :: nat
  exact_versions_truncated :: nat
  exact_hits_truncated :: nat
  semantic_hits_truncated :: nat

subsection \<open>Exact candidates\<close>

record exact_candidate =
  ex_document_id :: uuid
  ex_source_chunk_id :: uuid
  ex_product_id :: uuid
  ex_product_version_id :: uuid
  ex_display_name :: rstr
  ex_chunk_utf8 :: rstr
  ex_source_type :: knowledge_source_type

definition ex_byte_length :: "exact_candidate \<Rightarrow> nat" where
  "ex_byte_length c = byte_len (ex_chunk_utf8 c)"

definition version_key :: "exact_candidate \<Rightarrow> uuid \<times> uuid" where
  "version_key c = (ex_product_id c, ex_product_version_id c)"

definition normalize_exact :: "(nat \<Rightarrow> rstr) \<Rightarrow> rstr \<Rightarrow> rstr" where
  "normalize_exact to_lowercase s = concat (map to_lowercase (filter (\<lambda>c. \<not> is_whitespace c) s))"

definition compare_primary :: "exact_candidate \<Rightarrow> exact_candidate \<Rightarrow> ordering" where
  "compare_primary x y =
     ordering_then (cmp (ex_byte_length x) (ex_byte_length y))
    (ordering_then (cmp (ex_document_id x) (ex_document_id y)) (cmp (ex_source_chunk_id x) (ex_source_chunk_id y)))"

definition compare_b :: "exact_candidate \<Rightarrow> exact_candidate \<Rightarrow> ordering" where
  "compare_b x y =
     ordering_then (cmp (ex_product_id x) (ex_product_id y))
    (ordering_then (cmp (ex_product_version_id x) (ex_product_version_id y)) (compare_primary x y))"

text \<open>The map by version, in the order of its keys, each entry sorted.\<close>

definition by_version :: "exact_candidate list \<Rightarrow> exact_candidate list list" where
  "by_version candidates =
     map (\<lambda>k. sort_by compare_primary (filter (\<lambda>c. version_key c = k) candidates))
       (sort (remdups (map version_key candidates)))"

record selection_state =
  sel_hits :: "exact_candidate list"
  sel_bytes :: nat

text \<open>No version is without a candidate; the code would panic there.\<close>

fun choose_primaries ::
  "policy_identity \<Rightarrow> exact_candidate list list \<Rightarrow> selection_state \<Rightarrow> retrieval_error + selection_state" where
  "choose_primaries policy [] s = Inr s"
| "choose_primaries policy ([] # groups) s = choose_primaries policy groups s"
| "choose_primaries policy ((p # _) # groups) s =
     (if ex_byte_length p > max_chunk_bytes policy then Inl (QuotaExceeded ''exact primary chunk exceeds max_chunk_bytes'')
      else if sel_bytes s + ex_byte_length p \<ge> 2 ^ 64 then Inl (QuotaExceeded ''exact primary prefix byte length overflow'')
      else if sel_bytes s + ex_byte_length p > max_total_bytes policy
      then Inl (QuotaExceeded ''exact primary prefix exceeds max_total_bytes'')
      else choose_primaries policy groups
             \<lparr>sel_hits = sel_hits s @ [p], sel_bytes = sel_bytes s + ex_byte_length p\<rparr>)"

definition take_if_fits :: "policy_identity \<Rightarrow> exact_candidate \<Rightarrow> selection_state \<Rightarrow> selection_state" where
  "take_if_fits policy c s =
     (if length (sel_hits s) \<ge> max_hits policy \<or> ex_byte_length c > max_chunk_bytes policy
         \<or> sel_bytes s + ex_byte_length c \<ge> 2 ^ 64 \<or> sel_bytes s + ex_byte_length c > max_total_bytes policy then s
      else \<lparr>sel_hits = sel_hits s @ [c], sel_bytes = sel_bytes s + ex_byte_length c\<rparr>)"

record exact_selection =
  es_hits :: "exact_candidate list"
  es_versions_truncated :: nat
  es_hits_truncated :: nat

definition select_exact_prefix :: "exact_candidate list \<Rightarrow> policy_identity \<Rightarrow> retrieval_error + exact_selection" where
  "select_exact_prefix candidates policy =
     (let groups = by_version candidates
      in rbind (choose_primaries policy (take (max_hits policy) groups) \<lparr>sel_hits = [], sel_bytes = 0\<rparr>) (\<lambda>s.
           let primary_ids = map ex_source_chunk_id (sel_hits s);
               remaining = sort_by compare_b (filter (\<lambda>c. ex_source_chunk_id c \<notin> set primary_ids) (concat groups));
               s' = fold (take_if_fits policy) remaining s
           in Inr \<lparr>es_hits = sel_hits s', es_versions_truncated = length groups - max_hits policy,
                   es_hits_truncated = length candidates - length (sel_hits s')\<rparr>))"

definition exact_candidate_hit :: "(bytes \<Rightarrow> rstr) \<Rightarrow> rstr \<Rightarrow> nat \<Rightarrow> exact_candidate \<Rightarrow> evidence_hit" where
  "exact_candidate_hit sha256 wk index c =
     \<lparr>schema_version_hit = schema_v3, document_id = ex_document_id c, source_chunk_id = ex_source_chunk_id c,
      product_id = ex_product_id c, product_version_id = ex_product_version_id c, workspace_kind = wk,
      display_name = ex_display_name c, chunk_utf8 = ex_chunk_utf8 c, chunk_sha256 = sha256 (as_bytes (ex_chunk_utf8 c)),
      chunk_byte_length = ex_byte_length c, quote_start_offset = 0, quote_end_offset = ex_byte_length c,
      offset_unit = utf8_byte_unit, retrieval_rank = index + 1, retrieval_raw_score = lit ''1.000000'', rrf_rank = None,
      retrieval_contract_version = contract_v2, source_type = ex_source_type c, media = None\<rparr>"

subsection \<open>Reranked candidates\<close>

record reranked_candidate =
  candidate :: semantic_candidate
  score_millionths :: nat

text \<open>\<^verbatim>\<open>{:06}\<close> of a number below a million: six digits.\<close>

fun padded_digits :: "nat \<Rightarrow> nat \<Rightarrow> rstr" where
  "padded_digits 0 n = []"
| "padded_digits (Suc k) n = padded_digits k (n div 10) @ [48 + n mod 10]"

definition fixed_score :: "nat \<Rightarrow> rstr" where
  "fixed_score n = lit (nat_to_dec (n div 1000000)) @ [46] @ padded_digits 6 (n mod 1000000)"

datatype json_score = NotANumber | NotADecimal | Decimal int nat

definition quantize_score :: "json_score \<Rightarrow> retrieval_error + nat" where
  "quantize_score v =
     (case v of NotANumber \<Rightarrow> Inl (Unavailable ''rerank score is not a JSON number'')
      | NotADecimal \<Rightarrow> Inl (Unavailable ''rerank score is not finite decimal'')
      | Decimal m e \<Rightarrow>
          if m < 0 \<or> m > 10 ^ e then Inl (Unavailable ''rerank score is outside unit interval'')
          else Inr (nat m * 1000000 div 10 ^ e))"

record rerank_response =
  model_revision_sha256 :: rstr
  config_revision_sha256 :: rstr
  results :: "(nat \<times> json_score) list"

record rerank_identity =
  policy_revision_sha256 :: rstr
  policy_model_revision_sha256 :: rstr
  policy_config_revision_sha256 :: rstr
  revision_sha256 :: "rstr option"
  revision_model_sha256 :: rstr
  revision_config_sha256 :: rstr

definition compare_reranked :: "reranked_candidate \<Rightarrow> reranked_candidate \<Rightarrow> ordering" where
  "compare_reranked x y =
     ordering_then (cmp (score_millionths y) (score_millionths x))
    (ordering_then (cmp (pre_rerank_rrf_rank (candidate x)) (pre_rerank_rrf_rank (candidate y)))
    (ordering_then (cmp (sem_product_id (candidate x)) (sem_product_id (candidate y)))
    (ordering_then (cmp (sem_product_version_id (candidate x)) (sem_product_version_id (candidate y)))
    (ordering_then (cmp (sem_document_id (candidate x)) (sem_document_id (candidate y)))
                   (cmp (sem_source_chunk_id (candidate x)) (sem_source_chunk_id (candidate y)))))))"

fun fill_scores :: "(nat \<times> json_score) list \<Rightarrow> nat option list \<Rightarrow> retrieval_error + nat option list" where
  "fill_scores [] scores = Inr scores"
| "fill_scores ((i, v) # rs) scores =
     (if i \<ge> length scores \<or> scores ! i \<noteq> None
      then Inl (Unavailable ''rerank response index is duplicate or out of range'')
      else rbind (quantize_score v) (\<lambda>n. fill_scores rs (scores[i := Some n])))"

definition apply_response ::
  "rerank_response \<Rightarrow> rerank_identity \<Rightarrow> semantic_candidate list \<Rightarrow> retrieval_error + reranked_candidate list" where
  "apply_response response ident candidates =
     (if revision_sha256 ident \<noteq> Some (policy_revision_sha256 ident)
         \<or> model_revision_sha256 response \<noteq> policy_model_revision_sha256 ident
         \<or> model_revision_sha256 response \<noteq> revision_model_sha256 ident
         \<or> config_revision_sha256 response \<noteq> policy_config_revision_sha256 ident
         \<or> config_revision_sha256 response \<noteq> revision_config_sha256 ident
      then Inl (InvalidRequest ''rerank provider identity mismatch'')
      else if length (results response) \<noteq> length candidates
      then Inl (Unavailable ''rerank response does not cover every input index'')
      else rbind (fill_scores (results response) (replicate (length candidates) None)) (\<lambda>scores.
        if None \<in> set scores then Inl (Unavailable ''rerank response is missing an input index'')
        else Inr (sort_by compare_reranked
               (map (\<lambda>(c, s). \<lparr>candidate = c, score_millionths = the s\<rparr>) (zip candidates scores)))))"

definition semantic_candidate_hit :: "rstr \<Rightarrow> nat \<Rightarrow> reranked_candidate \<Rightarrow> evidence_hit" where
  "semantic_candidate_hit wk index r =
     (let c = candidate r
      in \<lparr>schema_version_hit = schema_v3, document_id = sem_document_id c, source_chunk_id = sem_source_chunk_id c,
          product_id = sem_product_id c, product_version_id = sem_product_version_id c, workspace_kind = wk,
          display_name = sem_display_name c, chunk_utf8 = sem_chunk_utf8 c, chunk_sha256 = sem_chunk_sha256 c,
          chunk_byte_length = sem_chunk_byte_length c, quote_start_offset = 0, quote_end_offset = sem_chunk_byte_length c,
          offset_unit = utf8_byte_unit, retrieval_rank = index + 1, retrieval_raw_score = fixed_score (score_millionths r),
          rrf_rank = Some (pre_rerank_rrf_rank c), retrieval_contract_version = contract_v2,
          source_type = sem_source_type c, media = None\<rparr>)"

fun append_tail ::
  "rstr \<Rightarrow> policy_identity \<Rightarrow> reranked_candidate list \<Rightarrow> evidence_hit list \<Rightarrow> nat \<Rightarrow> nat \<Rightarrow> evidence_hit list \<times> nat" where
  "append_tail wk policy [] hs used truncated = (hs, truncated)"
| "append_tail wk policy (r # rs) hs used truncated =
     (if length hs < max_hits policy \<and> sem_chunk_byte_length (candidate r) \<le> max_chunk_bytes policy
         \<and> used + sem_chunk_byte_length (candidate r) < 2 ^ 64
         \<and> used + sem_chunk_byte_length (candidate r) \<le> max_total_bytes policy
      then append_tail wk policy rs (hs @ [semantic_candidate_hit wk (length hs) r])
             (used + sem_chunk_byte_length (candidate r)) truncated
      else append_tail wk policy rs hs used (min (2 ^ 64 - 1) (truncated + 1)))"

definition append_semantic_tail ::
  "rstr \<Rightarrow> policy_identity \<Rightarrow> evidence_hit list \<Rightarrow> reranked_candidate list \<Rightarrow> evidence_hit list \<times> nat" where
  "append_semantic_tail wk policy hs reranked = append_tail wk policy reranked hs (sum_list (map chunk_byte_length hs)) 0"

subsection \<open>Validation of a batch\<close>

definition lower_hex64 :: "rstr \<Rightarrow> bool" where
  "lower_hex64 s \<longleftrightarrow> byte_len s = 64 \<and> list_all (\<lambda>b. is_ascii_hexdigit b \<and> \<not> is_ascii_uppercase b) s"

definition is_ascii_digit :: "nat \<Rightarrow> bool" where
  "is_ascii_digit c \<longleftrightarrow> 48 \<le> c \<and> c \<le> 57"

definition is_unit_interval_millionths :: "rstr \<Rightarrow> bool" where
  "is_unit_interval_millionths s \<longleftrightarrow> s = lit ''1.000000''
     \<or> (byte_len s = 8 \<and> starts_with_lit (lit ''0.'') s \<and> list_all is_ascii_digit (drop 2 s))"

definition media_valid :: "evidence_hit \<Rightarrow> bool" where
  "media_valid h =
     (case (source_type h, media h) of
        (ImageOcrSource, Some m) \<Rightarrow>
          image_artifact_revision_id m \<noteq> 0 \<and> media_object_ref m = lit ''objects/'' @ media_sha256 m \<and> lower_hex64 (media_sha256 m)
          \<and> media_type m \<in> set [lit ''image/png'', lit ''image/jpeg'', lit ''image/webp'']
          \<and> media_width m > 0 \<and> media_height m > 0 \<and> media_display_name m = display_name h
          \<and> bounding_region_is_object m \<noteq> Some False
      | (ImageOcrSource, None) \<Rightarrow> False
      | (_, None) \<Rightarrow> True
      | (_, Some _) \<Rightarrow> False)"

fun validate_versions :: "rstr \<Rightarrow> (uuid \<times> uuid) set \<Rightarrow> eligible_version list \<Rightarrow> retrieval_error + (uuid \<times> uuid) set" where
  "validate_versions wk eligible [] = Inr eligible"
| "validate_versions wk eligible (v # vs) =
     (if ev_product_id v = 0 \<or> ev_product_version_id v = 0 \<or> ev_workspace_kind v \<noteq> wk \<or> ev_display_name v = []
         \<or> (ev_product_id v, ev_product_version_id v) \<in> eligible
      then Inl (InvalidHit ''invalid or duplicate eligible v2 evidence version'')
      else validate_versions wk (insert (ev_product_id v, ev_product_version_id v) eligible) vs)"

definition hit_invalid ::
  "(bytes \<Rightarrow> rstr) \<Rightarrow> rstr \<Rightarrow> policy_identity \<Rightarrow> nat \<Rightarrow> (uuid \<times> uuid) set \<Rightarrow> (uuid \<times> uuid) set \<Rightarrow> nat \<Rightarrow> evidence_hit \<Rightarrow> bool" where
  "hit_invalid sha256 wk policy prefix_count eligible identities index h \<longleftrightarrow>
     schema_version_hit h \<noteq> schema_v3 \<or> \<not> media_valid h \<or> workspace_kind h \<noteq> wk
     \<or> document_id h = 0 \<or> source_chunk_id h = 0 \<or> product_id h = 0 \<or> product_version_id h = 0
     \<or> display_name h = [] \<or> retrieval_contract_version h \<noteq> contract_v2 \<or> offset_unit h \<noteq> utf8_byte_unit
     \<or> chunk_byte_length h \<noteq> byte_len (chunk_utf8 h) \<or> chunk_byte_length h > max_chunk_bytes policy
     \<or> chunk_sha256 h \<noteq> sha256 (as_bytes (chunk_utf8 h)) \<or> quote_start_offset h \<noteq> 0
     \<or> quote_end_offset h \<noteq> byte_len (chunk_utf8 h) \<or> \<not> is_boundary (chunk_utf8 h) (byte_len (chunk_utf8 h))
     \<or> retrieval_rank h \<noteq> index + 1
     \<or> (index < prefix_count \<and> (retrieval_raw_score h \<noteq> lit ''1.000000'' \<or> rrf_rank h \<noteq> None))
     \<or> (index \<ge> prefix_count \<and> (\<not> is_unit_interval_millionths (retrieval_raw_score h) \<or> rrf_rank h = None \<or> rrf_rank h = Some 0))
     \<or> (product_id h, product_version_id h) \<notin> eligible
     \<or> (document_id h, source_chunk_id h) \<in> identities"

record validation_state =
  vs_identities :: "(uuid \<times> uuid) set"
  vs_versions :: "(uuid \<times> uuid) set"
  vs_bytes :: nat

fun validate_hits ::
  "(bytes \<Rightarrow> rstr) \<Rightarrow> rstr \<Rightarrow> policy_identity \<Rightarrow> nat \<Rightarrow> (uuid \<times> uuid) set \<Rightarrow> nat \<Rightarrow> evidence_hit list \<Rightarrow> validation_state
     \<Rightarrow> retrieval_error + validation_state" where
  "validate_hits sha256 wk policy prefix_count eligible index [] s = Inr s"
| "validate_hits sha256 wk policy prefix_count eligible index (h # hs) s =
     (if vs_bytes s + byte_len (chunk_utf8 h) \<ge> 2 ^ 64 then Inl (InvalidHit ''v2 hit byte quota overflow'')
      else if hit_invalid sha256 wk policy prefix_count eligible (vs_identities s) index h
      then Inl (InvalidHit ''v2 evidence scope, source, bytes, digest, offset, rank, score, or identity is invalid'')
      else validate_hits sha256 wk policy prefix_count eligible (Suc index) hs
             \<lparr>vs_identities = insert (document_id h, source_chunk_id h) (vs_identities s),
              vs_versions = (if index < prefix_count then insert (product_id h, product_version_id h) (vs_versions s) else vs_versions s),
              vs_bytes = vs_bytes s + byte_len (chunk_utf8 h)\<rparr>)"

fun validate_semantic :: "nat set \<Rightarrow> evidence_hit option \<Rightarrow> evidence_hit list \<Rightarrow> retrieval_error + unit" where
  "validate_semantic ranks previous [] = Inr ()"
| "validate_semantic ranks previous (h # hs) =
     (if the (rrf_rank h) \<in> ranks then Inl (InvalidHit ''duplicate v2 semantic pre-rerank rank'')
      else if (case previous of None \<Rightarrow> False
               | Some p \<Rightarrow> str_less (retrieval_raw_score p) (retrieval_raw_score h)
                   \<or> (retrieval_raw_score p = retrieval_raw_score h \<and> the (rrf_rank p) > the (rrf_rank h)))
      then Inl (InvalidHit ''v2 semantic suffix violates the rerank total order'')
      else validate_semantic (insert (the (rrf_rank h)) ranks) (Some h) hs)"

definition validate_evidence_batch ::
  "(bytes \<Rightarrow> rstr) \<Rightarrow> rstr \<Rightarrow> evidence_batch \<Rightarrow> policy_identity \<Rightarrow> retrieval_error + unit" where
  "validate_evidence_batch sha256 wk batch policy =
     (if batch_schema_version batch \<noteq> schema_v3 \<or> contract_version policy \<noteq> contract_v2
         \<or> wk \<notin> set [lit ''product_line'', lit ''company'']
         \<or> max_hits policy = 0 \<or> max_chunk_bytes policy = 0 \<or> max_total_bytes policy = 0
         \<or> length (hits batch) > max_hits policy \<or> exact_prefix_hit_count batch > length (hits batch)
      then Inl (InvalidHit ''invalid v2 evidence schema, contract, scope, quota, or metric'')
      else rbind (validate_versions wk {} (eligible_versions batch)) (\<lambda>eligible.
        if exact_versions_truncated batch > card eligible - max_hits policy
           \<or> exact_hits_truncated batch < exact_versions_truncated batch
           \<or> (exact_prefix_hit_count batch = 0 \<and> (exact_versions_truncated batch \<noteq> 0 \<or> exact_hits_truncated batch \<noteq> 0))
           \<or> (exact_versions_truncated batch > 0 \<and> exact_prefix_hit_count batch \<noteq> max_hits policy)
        then Inl (InvalidHit ''inconsistent v2 exact truncation metrics'')
        else rbind (validate_hits sha256 wk policy (exact_prefix_hit_count batch) eligible 0 (hits batch)
               \<lparr>vs_identities = {}, vs_versions = {}, vs_bytes = 0\<rparr>) (\<lambda>s.
          rbind (validate_semantic {} None (drop (exact_prefix_hit_count batch) (hits batch))) (\<lambda>_.
            if vs_bytes s > max_total_bytes policy then Inl (InvalidHit ''returned v2 hit byte quota exceeded'')
            else if exact_versions_truncated batch > 0 \<and> card (vs_versions s) \<noteq> max_hits policy
            then Inl (InvalidHit ''v2 truncated exact versions require a complete distinct primary prefix'')
            else Inr ()))))"

subsection \<open>Retrieval\<close>

text \<open>A row of the snapshot query; the columns of the outer joins may be absent.\<close>

record evidence_row =
  row_product_id :: uuid
  row_product_version_id :: uuid
  row_content :: "rstr option"
  row_document_id :: "uuid option"
  row_source_chunk_id :: "uuid option"
  row_file_name :: "rstr option"
  row_chunk_type :: "rstr option"

definition trusted_type :: "rstr \<Rightarrow> knowledge_source_type option" where
  "trusted_type t = (if t = lit ''text'' then Some TextSource else if t = lit ''parent_text'' then Some ParentTextSource
     else if t = lit ''image_ocr'' then Some ImageOcrSource else None)"

fun insert_version :: "eligible_version \<Rightarrow> eligible_version list \<Rightarrow> eligible_version list" where
  "insert_version v [] = [v]"
| "insert_version v (w # ws) =
     (if (ev_product_id v, ev_product_version_id v) = (ev_product_id w, ev_product_version_id w) then w # ws
      else if (ev_product_id v, ev_product_version_id v) < (ev_product_id w, ev_product_version_id w) then v # w # ws
      else w # insert_version v ws)"

fun scan_rows ::
  "(nat \<Rightarrow> rstr) \<Rightarrow> (uuid \<Rightarrow> rstr) \<Rightarrow> rstr \<Rightarrow> rstr \<Rightarrow> evidence_row list \<Rightarrow> eligible_version list \<Rightarrow> exact_candidate list
     \<Rightarrow> retrieval_error + eligible_version list \<times> exact_candidate list" where
  "scan_rows to_lowercase uuid_text wk requirement [] versions candidates = Inr (versions, candidates)"
| "scan_rows to_lowercase uuid_text wk requirement (row # rows) versions candidates =
     (let versions' = insert_version
            \<lparr>ev_product_id = row_product_id row, ev_product_version_id = row_product_version_id row, ev_workspace_kind = wk,
             ev_display_name = uuid_text (row_product_version_id row)\<rparr> versions
      in case row_content row of
           None \<Rightarrow> scan_rows to_lowercase uuid_text wk requirement rows versions' candidates
         | Some chunk \<Rightarrow>
             (case (row_document_id row, row_source_chunk_id row, row_file_name row, row_chunk_type row) of
                (Some d, Some c, Some f, Some t) \<Rightarrow>
                  if \<not> contains_lit requirement (normalize_exact to_lowercase chunk)
                  then scan_rows to_lowercase uuid_text wk requirement rows versions' candidates
                  else (case trusted_type t of
                      None \<Rightarrow> Inl (Unavailable ''v2 retrieval query returned an untrusted source type'')
                    | Some st \<Rightarrow> scan_rows to_lowercase uuid_text wk requirement rows versions'
                        (candidates @ [\<lparr>ex_document_id = d, ex_source_chunk_id = c, ex_product_id = row_product_id row,
                           ex_product_version_id = row_product_version_id row, ex_display_name = f, ex_chunk_utf8 = chunk,
                           ex_source_type = st\<rparr>]))
              | _ \<Rightarrow> Inl (Unavailable ''v2 retrieval query returned a partial hit projection'')))"

fun hydrate_media :: "(uuid \<Rightarrow> evidence_media option) \<Rightarrow> evidence_hit list \<Rightarrow> retrieval_error + evidence_hit list" where
  "hydrate_media rows [] = Inr []"
| "hydrate_media rows (h # hs) =
     rbind (if source_type h = ImageOcrSource
            then (case rows (source_chunk_id h) of
                    None \<Rightarrow> Inl (Unavailable ''image OCR hit lacks immutable media mapping'')
                  | Some m \<Rightarrow> Inr (h\<lparr>media := Some (m\<lparr>media_display_name := display_name h\<rparr>)\<rparr>))
            else Inr (h\<lparr>media := None\<rparr>))
       (\<lambda>h'. rbind (hydrate_media rows hs) (\<lambda>hs'. Inr (h' # hs')))"

text \<open>
  The part of \<^verbatim>\<open>retrieve_v2\<close> after the snapshot has been read.  \<open>runtime\<close> is the outcome of embedding, recall and rerank
  when a semantic runtime is configured.
\<close>

definition assemble_batch ::
  "(bytes \<Rightarrow> rstr) \<Rightarrow> rstr \<Rightarrow> policy_identity \<Rightarrow> bool \<Rightarrow> (retrieval_error + reranked_candidate list) option
     \<Rightarrow> (uuid \<Rightarrow> evidence_media option) \<Rightarrow> eligible_version list \<Rightarrow> exact_candidate list \<Rightarrow> retrieval_error + evidence_batch" where
  "assemble_batch sha256 wk policy exact_only runtime media_rows versions candidates =
     rbind (select_exact_prefix candidates policy) (\<lambda>sel.
       let exact = map (\<lambda>(i, c). exact_candidate_hit sha256 wk i c) (enumerate 0 (es_hits sel))
       in if length exact \<ge> 2 ^ 32 then Inl (InvalidHit ''v2 exact prefix length cannot be represented'')
          else if versions \<noteq> [] \<and> length exact < max_hits policy \<and> runtime = None \<and> \<not> exact_only
          then Inl (InvalidRequest ''complete knowledge-evidence-v2 semantic runtime is not configured'')
          else rbind (if versions \<noteq> [] \<and> length exact < max_hits policy
                      then (case runtime of None \<Rightarrow> Inr (exact, 0)
                            | Some outcome \<Rightarrow> rbind outcome (\<lambda>reranked. Inr (append_semantic_tail wk policy exact reranked)))
                      else Inr (exact, 0)) (\<lambda>(all_hits, truncated).
            rbind (hydrate_media media_rows all_hits) (\<lambda>hydrated.
              let batch = \<lparr>batch_schema_version = schema_v3, eligible_versions = versions, hits = hydrated,
                           exact_prefix_hit_count = length exact, exact_versions_truncated = es_versions_truncated sel,
                           exact_hits_truncated = es_hits_truncated sel, semantic_hits_truncated = truncated\<rparr>
              in rbind (validate_evidence_batch sha256 wk batch policy) (\<lambda>_. Inr batch))))"

end
