(* ===== verification/Retrieval_Policy.thy ===== *)
theory Retrieval_Policy
  imports Evidence_Batch
begin

text \<open>
  The immutable artifacts of a retrieval policy (\<^verbatim>\<open>knowledge/src/knowledge_retrieval.rs\<close>): embedding revision, rerank revision and policy, their
  validation and their canonical identity.  The JSON text of an artifact is a parameter; \<open>sha256\<close> is the hex digest of bytes.
  The message of an error leaves out the name of the field.
\<close>

type_synonym artifact_error = string

text \<open>A sequence of statements, each followed by \<^verbatim>\<open>?\<close>.\<close>

fun check_all :: "('e + unit) list \<Rightarrow> 'e + unit" where
  "check_all [] = Inr ()"
| "check_all (c # cs) = rbind c (\<lambda>_. check_all cs)"

subsection \<open>Characters\<close>

definition is_ascii_lowercase :: "nat \<Rightarrow> bool" where
  "is_ascii_lowercase c \<longleftrightarrow> 97 \<le> c \<and> c \<le> 122"

definition is_ascii_alphanumeric :: "nat \<Rightarrow> bool" where
  "is_ascii_alphanumeric c \<longleftrightarrow> is_ascii_digit c \<or> is_ascii_lowercase c \<or> is_ascii_uppercase c"

definition strip_prefix :: "rstr \<Rightarrow> rstr \<Rightarrow> rstr option" where
  "strip_prefix p s = (if prefix p s then Some (drop (length p) s) else None)"

definition rsplit_once :: "nat \<Rightarrow> rstr \<Rightarrow> (rstr \<times> rstr) option" where
  "rsplit_once sep s = map_option (\<lambda>(a, b). (rev b, rev a)) (split_once sep (rev s))"

definition digits_value :: "nat list \<Rightarrow> nat" where
  "digits_value ds = foldl (\<lambda>n b. n * 10 + (b - 48)) 0 ds"

subsection \<open>Identifiers of models and endpoints\<close>

definition validate_embedding_sha256 :: "rstr \<Rightarrow> artifact_error + unit" where
  "validate_embedding_sha256 value = require (lower_hex64 value) ''must be a lowercase SHA-256 digest''"

definition leap_year :: "nat \<Rightarrow> bool" where
  "leap_year y \<longleftrightarrow> y mod 4 = 0 \<and> (y mod 100 \<noteq> 0 \<or> y mod 400 = 0)"

definition days_in_month :: "nat \<Rightarrow> nat \<Rightarrow> nat option" where
  "days_in_month y m =
     (if m \<in> {1, 3, 5, 7, 8, 10, 12} then Some 31 else if m \<in> {4, 6, 9, 11} then Some 30
      else if m = 2 \<and> leap_year y then Some 29 else if m = 2 then Some 28 else None)"

definition is_real_iso_date :: "rstr \<Rightarrow> bool" where
  "is_real_iso_date value =
     (let bs = as_bytes value
      in if length bs \<noteq> 10 \<or> bs ! 4 \<noteq> 45 \<or> bs ! 7 \<noteq> 45
            \<or> list_ex (\<lambda>(i, b). i \<noteq> 4 \<and> i \<noteq> 7 \<and> \<not> is_ascii_digit b) (enumerate 0 bs)
         then False
         else let year = digits_value (take 4 bs); month = digits_value (take 2 (drop 5 bs)); day = digits_value (take 2 (drop 8 bs))
              in case days_in_month year month of None \<Rightarrow> False | Some days \<Rightarrow> year \<noteq> 0 \<and> 1 \<le> day \<and> day \<le> days)"

definition model_base_char :: "nat \<Rightarrow> bool" where
  "model_base_char b \<longleftrightarrow> is_ascii_alphanumeric b \<or> b \<in> {46, 95, 47, 45}"

definition validate_provider_model_identifier :: "rstr \<Rightarrow> artifact_error + unit" where
  "validate_provider_model_identifier value =
     (if value = [] \<or> byte_len value > 256 then Inl ''provider_model_identifier must be a bounded pinned identifier''
      else case split_once 64 value of
        None \<Rightarrow> Inl ''provider_model_identifier must use <model-base>@<revision>''
      | Some (model_base, revision) \<Rightarrow>
          if model_base = [] \<or> revision = [] \<or> list_ex (\<lambda>b. \<not> model_base_char b) model_base
          then Inl ''provider_model_identifier has an invalid model base''
          else case strip_prefix (lit ''sha256:'') revision of
            Some digest \<Rightarrow> validate_embedding_sha256 digest
          | None \<Rightarrow>
              if \<not> is_real_iso_date revision
              then Inl ''provider_model_identifier revision must be a real YYYY-MM-DD date or sha256 digest'' else Inr ())"

definition dns_char :: "nat \<Rightarrow> bool" where
  "dns_char b \<longleftrightarrow> is_ascii_lowercase b \<or> is_ascii_digit b"

definition valid_dns_label :: "rstr \<Rightarrow> bool" where
  "valid_dns_label label \<longleftrightarrow> label \<noteq> [] \<and> dns_char (hd label) \<and> dns_char (last label) \<and> list_all (\<lambda>b. dns_char b \<or> b = 45) label"

definition path_char :: "nat \<Rightarrow> bool" where
  "path_char b \<longleftrightarrow> is_ascii_alphanumeric b \<or> b \<in> {46, 95, 126, 45}"

definition bad_segment :: "rstr \<Rightarrow> bool" where
  "bad_segment segment \<longleftrightarrow> segment = [] \<or> segment = lit ''.'' \<or> segment = lit ''..'' \<or> \<not> list_all path_char segment"

definition validate_port :: "rstr \<Rightarrow> artifact_error + unit" where
  "validate_port port =
     (if port = [] \<or> prefix [48] port \<or> \<not> list_all is_ascii_digit port then Inl ''endpoint_identity has an invalid port''
      else if digits_value port \<ge> 65536 then Inl ''endpoint_identity has an invalid port''
      else if digits_value port = 443 then Inl ''endpoint_identity has a noncanonical port'' else Inr ())"

definition validate_endpoint_identity :: "rstr \<Rightarrow> artifact_error + unit" where
  "validate_endpoint_identity value =
     (case strip_prefix (lit ''https://'') value of
        None \<Rightarrow> Inl ''endpoint_identity must use lowercase https''
      | Some remainder \<Rightarrow>
          let (authority, path) = (case split_once 47 remainder of Some x \<Rightarrow> x | None \<Rightarrow> (remainder, []));
              (host, port) = (case rsplit_once 58 authority of Some (h, p) \<Rightarrow> (h, Some p) | None \<Rightarrow> (authority, None))
          in if host = [] \<or> length (filter (\<lambda>b. b = 58) authority) > 1 \<or> \<not> list_all valid_dns_label (split_char 46 host)
             then Inl ''endpoint_identity must use a canonical lowercase DNS host''
             else rbind (case port of None \<Rightarrow> Inr () | Some p \<Rightarrow> validate_port p) (\<lambda>_.
               if path \<noteq> [] \<and> list_ex bad_segment (split_char 47 path) then Inl ''endpoint_identity has a noncanonical path''
               else if ends_with_lit [47] remainder then Inl ''endpoint_identity must not have a trailing slash''
               else Inr ()))"

subsection \<open>Embedding and rerank revisions\<close>

definition embedding_provider_protocol_version :: rstr where
  "embedding_provider_protocol_version = lit ''openai-compatible-embeddings-json-v1''"
definition embedding_request_config_sha256 :: rstr where
  "embedding_request_config_sha256 = lit ''a2ccbf02dc959b101e69f85df1b494ae0852065383e1e88e2a1c5a4bd09f40cb''"
definition embedding_output_normalization_version :: rstr where
  "embedding_output_normalization_version = lit ''finite-vector-no-client-normalization-v1''"
definition rerank_request_config_sha256 :: rstr where
  "rerank_request_config_sha256 = lit ''21c0ee51fa4df1a5e436fab5e5df6ab851c2f6ebfcf115c86d77b40f40bf02f1''"
definition rerank_protocol_version :: rstr where
  "rerank_protocol_version = lit ''indexed-json-v1''"
definition rerank_score_normalization_version :: rstr where
  "rerank_score_normalization_version = lit ''unit-interval-millionths-v1''"

record embedding_revision =
  emb_schema_version :: nat
  emb_protocol_version :: rstr
  emb_model_identifier :: rstr
  emb_model_revision_sha256 :: rstr
  emb_endpoint_config_sha256 :: rstr
  emb_endpoint_identity :: rstr
  emb_dimension :: nat
  emb_request_config_sha256 :: rstr
  emb_output_normalization :: rstr

definition validate_embedding_revision :: "embedding_revision \<Rightarrow> artifact_error + unit" where
  "validate_embedding_revision r = check_all
     [require (emb_schema_version r = 2) ''schema_version must be 2'',
      require (emb_protocol_version r = embedding_provider_protocol_version) ''provider_protocol_version is unsupported'',
      validate_provider_model_identifier (emb_model_identifier r),
      validate_embedding_sha256 (emb_model_revision_sha256 r),
      validate_embedding_sha256 (emb_endpoint_config_sha256 r),
      validate_endpoint_identity (emb_endpoint_identity r),
      require (emb_dimension r = 1024) ''dimension must be 1024'',
      require (emb_request_config_sha256 r = embedding_request_config_sha256) ''request_config_sha256 must identify indexed-array-input-v1'',
      require (emb_output_normalization r = embedding_output_normalization_version) ''output_normalization_version is unsupported'']"

record rerank_revision =
  rer_schema_version :: nat
  rer_protocol_version :: rstr
  rer_model_identifier :: rstr
  rer_model_revision_sha256 :: rstr
  rer_config_revision_sha256 :: rstr
  rer_endpoint_identity :: rstr
  rer_request_config_sha256 :: rstr
  rer_score_normalization :: rstr

definition validate_rerank_revision :: "rerank_revision \<Rightarrow> artifact_error + unit" where
  "validate_rerank_revision r = check_all
     [require (rer_schema_version r = 2) ''schema_version must be 2'',
      require (rer_protocol_version r = rerank_protocol_version) ''provider_protocol_version is unsupported'',
      validate_provider_model_identifier (rer_model_identifier r),
      validate_embedding_sha256 (rer_model_revision_sha256 r),
      validate_embedding_sha256 (rer_config_revision_sha256 r),
      validate_endpoint_identity (rer_endpoint_identity r),
      require (rer_request_config_sha256 r = rerank_request_config_sha256) ''request_config_sha256 must identify indexed-query-documents-v1'',
      require (rer_score_normalization r = rerank_score_normalization_version) ''score_normalization_version is unsupported'']"

subsection \<open>Policies\<close>

record ranking_policy =
  a_primary_comparator :: "rstr list"
  a_version_comparator :: "rstr list"
  b_exact_comparator :: "rstr list"
  c_semantic_comparator :: "rstr list"
  source_folding_version :: rstr
  channel_score_quantization_version :: rstr
  channel_rank_comparator :: "rstr list"
  pre_rerank_rrf_comparator :: "rstr list"
  quota_semantics_version :: rstr

record keyword_policy =
  tokenizer :: rstr
  tokenizer_version :: rstr
  keyword_score_version :: rstr
  keyword_top_k :: nat
  keyword_threshold_millionths :: nat

record embedding_policy =
  embedding_policy_name :: rstr
  embedding_policy_version :: rstr
  similarity_version :: rstr
  embedding_model_revision_sha256 :: rstr
  embedding_top_k :: nat
  embedding_threshold_millionths :: nat

record rrf_policy_v2 = rrf_policy +
  score_representation_version :: rstr

record rerank_policy =
  rerank_protocol :: rstr
  rerank_revision_sha256 :: rstr
  rerank_model_revision_sha256 :: rstr
  rerank_config_revision_sha256 :: rstr
  rerank_top_k :: nat
  rerank_timeout_ms :: nat
  rerank_normalization :: rstr

record request_quotas =
  quota_max_hits :: nat
  quota_max_chunk_bytes :: nat
  quota_max_total_bytes :: nat

record retrieval_policy =
  pol_schema_version :: nat
  pol_contract_version :: rstr
  normalization_version :: rstr
  trusted_source_types :: "rstr list"
  ranking_part :: ranking_policy
  keyword_part :: keyword_policy
  embedding_part :: embedding_policy
  rrf_part :: rrf_policy_v2
  rerank_part :: rerank_policy
  request_quotas_part :: request_quotas

definition validate_supported_identity :: "rstr \<Rightarrow> string \<Rightarrow> artifact_error + unit" where
  "validate_supported_identity value supported = require (value = lit supported) (''must use the supported identity '' @ supported)"

definition validate_supported_values :: "rstr list \<Rightarrow> string list \<Rightarrow> artifact_error + unit" where
  "validate_supported_values values supported =
     require (length values = length supported \<and> values = map lit supported) ''must use the supported canonical values in order''"

definition validate_sha256 :: "rstr \<Rightarrow> artifact_error + unit" where
  "validate_sha256 value =
     require (byte_len value = 64 \<and> list_all (\<lambda>b. is_ascii_digit b \<or> (97 \<le> b \<and> b \<le> 102)) value) ''must be a lowercase 64-hex digest''"

definition validate_top_k :: "nat \<Rightarrow> artifact_error + unit" where
  "validate_top_k value = require (value \<noteq> 0 \<and> value \<le> 1000000) ''is outside the supported range''"

definition validate_threshold :: "nat \<Rightarrow> artifact_error + unit" where
  "validate_threshold value = require (value \<le> 1000000) ''must be between 0 and 1_000_000''"

definition validate_weight :: "nat \<Rightarrow> artifact_error + unit" where
  "validate_weight value = require (value \<noteq> 0 \<and> value \<le> 1000000000) ''is outside the supported range''"

definition validate_ranking :: "ranking_policy \<Rightarrow> (artifact_error + unit) list" where
  "validate_ranking r =
     [validate_supported_values (a_primary_comparator r) [''chunk_byte_length ASC'', ''document_id ASC'', ''source_chunk_id ASC''],
      validate_supported_values (a_version_comparator r) [''product_id ASC'', ''product_version_id ASC''],
      validate_supported_values (b_exact_comparator r)
        [''product_id ASC'', ''product_version_id ASC'', ''chunk_byte_length ASC'', ''document_id ASC'', ''source_chunk_id ASC''],
      validate_supported_values (c_semantic_comparator r)
        [''normalized_rerank_score DESC'', ''pre_rerank_rrf_rank ASC'', ''complete_source_identity ASC''],
      validate_supported_identity (source_folding_version r) ''unique-live-trusted-source-v1'',
      validate_supported_identity (channel_score_quantization_version r) ''floor-unit-interval-millionths-v1'',
      validate_supported_values (channel_rank_comparator r) [''score_millionths DESC'', ''complete_signal_identity ASC''],
      validate_supported_values (pre_rerank_rrf_comparator r)
        [''exact_rrf_score DESC'', ''vector_rank ASC NULLS LAST'', ''keyword_rank ASC NULLS LAST'', ''product_id ASC'', ''product_version_id ASC'',
         ''document_id ASC'', ''source_chunk_id ASC''],
      validate_supported_identity (quota_semantics_version r) ''fair-exact-prefix-fail-closed-v1'']"

definition validate_retrieval_policy :: "retrieval_policy \<Rightarrow> artifact_error + unit" where
  "validate_retrieval_policy p = check_all
     ([require (pol_schema_version p = 2) ''schema_version must be 2'',
       require (pol_contract_version p = contract_v2) ''contract_version must be knowledge-evidence-v2'',
       validate_supported_identity (normalization_version p) ''unicode-whitespace-lowercase-v1'',
       validate_supported_values (trusted_source_types p) [''text'', ''parent_text'', ''image_ocr'']]
      @ validate_ranking (ranking_part p) @
      [validate_supported_identity (tokenizer (keyword_part p)) ''latin-numeric-cjk-bigram'',
       validate_supported_identity (tokenizer_version (keyword_part p)) ''v1'',
       validate_supported_identity (keyword_score_version (keyword_part p)) ''postgres-ts-rank-cd-normalization32-millionths-v1'',
       validate_top_k (keyword_top_k (keyword_part p)),
       validate_threshold (keyword_threshold_millionths (keyword_part p)),
       validate_supported_identity (embedding_policy_name (embedding_part p)) ''declared-version-model'',
       validate_supported_identity (embedding_policy_version (embedding_part p)) ''v1'',
       validate_supported_identity (similarity_version (embedding_part p)) ''pgvector-cosine-clamp-zero-one-millionths-v1'',
       validate_sha256 (embedding_model_revision_sha256 (embedding_part p)),
       validate_top_k (embedding_top_k (embedding_part p)),
       validate_threshold (embedding_threshold_millionths (embedding_part p)),
       require (rrf_k (rrf_part p) \<noteq> 0 \<and> rrf_k (rrf_part p) \<le> 1000000) ''rrf.k is outside the supported range'',
       validate_weight (keyword_weight_millionths (rrf_part p)),
       validate_weight (vector_weight_millionths (rrf_part p)),
       validate_supported_identity (score_representation_version (rrf_part p)) ''reduced-u128-rational-v1'',
       validate_supported_identity (rerank_protocol (rerank_part p)) ''indexed-json-v1'',
       validate_sha256 (rerank_revision_sha256 (rerank_part p)),
       validate_sha256 (rerank_model_revision_sha256 (rerank_part p)),
       validate_sha256 (rerank_config_revision_sha256 (rerank_part p)),
       validate_top_k (rerank_top_k (rerank_part p)),
       require (rerank_timeout_ms (rerank_part p) \<noteq> 0 \<and> rerank_timeout_ms (rerank_part p) \<le> 3600000) ''rerank.timeout_ms is outside the supported range'',
       validate_supported_identity (rerank_normalization (rerank_part p)) ''unit-interval-millionths-v1'',
       (let q = request_quotas_part p
        in require (quota_max_hits q \<noteq> 0 \<and> quota_max_hits q \<le> 1000000 \<and> quota_max_chunk_bytes q \<noteq> 0 \<and> quota_max_chunk_bytes q \<le> 1073741824
             \<and> quota_max_total_bytes q \<noteq> 0 \<and> quota_max_total_bytes q \<le> 1099511627776) ''request quotas are outside the supported range'')])"

subsection \<open>Canonical identity\<close>

text \<open>The JSON codec of an artifact type: \<^verbatim>\<open>serde_json::from_slice\<close> and \<^verbatim>\<open>serde_json::to_vec\<close>.\<close>

record 'a codec =
  from_json_bytes :: "bytes \<Rightarrow> 'a option"
  to_json_bytes :: "'a \<Rightarrow> bytes"

definition canonical_bytes :: "('a \<Rightarrow> artifact_error + unit) \<Rightarrow> 'a codec \<Rightarrow> 'a \<Rightarrow> artifact_error + bytes" where
  "canonical_bytes validate json x = rbind (validate x) (\<lambda>_. Inr (to_json_bytes json x))"

definition artifact_sha256 :: "(bytes \<Rightarrow> rstr) \<Rightarrow> ('a \<Rightarrow> artifact_error + unit) \<Rightarrow> 'a codec \<Rightarrow> 'a \<Rightarrow> artifact_error + rstr" where
  "artifact_sha256 sha256 validate json x = rbind (canonical_bytes validate json x) (\<lambda>bs. Inr (sha256 bs))"

definition request_identity :: "(bytes \<Rightarrow> rstr) \<Rightarrow> retrieval_policy codec \<Rightarrow> retrieval_policy \<Rightarrow> artifact_error + policy_identity" where
  "request_identity sha256 json p =
     rbind (artifact_sha256 sha256 validate_retrieval_policy json p) (\<lambda>digest.
       Inr \<lparr>contract_version = pol_contract_version p, policy_sha256 = digest, max_hits = quota_max_hits (request_quotas_part p),
            max_chunk_bytes = quota_max_chunk_bytes (request_quotas_part p), max_total_bytes = quota_max_total_bytes (request_quotas_part p)\<rparr>)"

end
