(* ===== verification/Evidence_Recall.thy ===== *)
theory Evidence_Recall
  imports Retrieval_Policy Status "HOL-Library.AList"
begin

text \<open>
  Semantic recall (\<^verbatim>\<open>knowledge_retrieval_pg/semantic_v2.rs\<close>, \<^verbatim>\<open>rerank_v2.rs\<close>) and the retrieval of evidence in one repeatable-read
  snapshot (\<^verbatim>\<open>retrieve_v2\<close> of \<^verbatim>\<open>knowledge_retrieval_pg/mod.rs\<close>).  The snapshot is a record of tables, each a list of rows, and
  the queries are list comprehensions over them.

  Parameters: \<open>sha256\<close>, \<open>uuid_text\<close>, \<open>to_lowercase\<close>; \<open>keyword_score\<close> and \<open>vector_score\<close>, the scores in millionths that the full-text and
  the vector operators of the database give a chunk; the iteration orders \<open>order_ids\<close> and \<open>order_folded\<close> of the two hash
  containers; the process environment and the answers of the embedding and the rerank provider.
\<close>

subsection \<open>Snapshot\<close>

text \<open>A product version with its product and the kind of its workspace.\<close>

record snap_version =
  sv_workspace_kind :: rstr
  sv_product_kind :: rstr
  sv_product :: uuid
  sv_version :: uuid

record snap_document =
  sd_id :: uuid
  sd_version :: uuid
  sd_file_name :: rstr
  sd_parse :: parse_status
  sd_pending_subtasks :: int
  sd_summary :: summary_status
  sd_enable :: enable_status
  sd_index_ready :: bool
  sd_active_generation :: int
  sd_deleted_at :: "timestamp option"

text \<open>\<open>sc_image_link\<close>: the chunk has a row in \<^verbatim>\<open>knowledge_image_chunk_links\<close>.\<close>

record snap_chunk =
  sc_id :: uuid
  sc_version :: uuid
  sc_document :: uuid
  sc_generation :: int
  sc_chunk_type :: rstr
  sc_content :: rstr
  sc_context_header :: rstr
  sc_parent :: "uuid option"
  sc_image_link :: bool

record generation_row =
  gen_version :: uuid
  gen_revision :: rstr
  gen_snapshot :: rstr
  gen_count :: int

record intent_row =
  int_version :: uuid
  int_revision :: rstr
  int_snapshot :: rstr
  int_status :: semantic_index_intent_status
  int_marker :: "rstr option"

record keyword_row =
  kw_chunk :: uuid
  kw_tokenizer :: rstr
  kw_tokenizer_version :: rstr
  kw_content :: rstr
  kw_sha256 :: rstr

record vector_row =
  vr_chunk :: uuid
  vr_version :: uuid
  vr_revision :: rstr
  vr_snapshot :: rstr
  vr_sha256 :: rstr

record graph_row =
  gr_version :: uuid
  gr_document :: uuid
  gr_generation :: int
  gr_name :: rstr
  gr_chunk_ids :: "uuid option list"

datatype json_ref = NotAString | NotAUuid | RefId uuid

text \<open>\<open>pg_chunk_refs\<close> is \<open>None\<close> when the JSON value is not an array.\<close>

record page_row =
  pg_version :: uuid
  pg_slug :: rstr
  pg_content :: rstr
  pg_status :: wiki_status
  pg_deleted_at :: "timestamp option"
  pg_chunk_refs :: "json_ref list option"

record snapshot =
  sn_versions :: "snap_version list"
  sn_documents :: "snap_document list"
  sn_chunks :: "snap_chunk list"
  sn_bindings :: "(uuid \<times> rstr) list"
  sn_vector_generations :: "generation_row list"
  sn_keyword_generations :: "generation_row list"
  sn_intents :: "intent_row list"
  sn_keywords :: "keyword_row list"
  sn_vectors :: "vector_row list"
  sn_graph :: "graph_row list"
  sn_pages :: "page_row list"

record semantic_policy =
  sp_tokenizer :: rstr
  sp_tokenizer_version :: rstr
  sp_keyword_top_k :: nat
  sp_keyword_threshold :: nat
  sp_model_revision :: rstr
  sp_embedding_top_k :: nat
  sp_embedding_threshold :: nat
  sp_rrf :: rrf_policy
  sp_rerank_top_k :: nat

definition trusted_types :: "rstr list" where
  "trusted_types = [lit ''text'', lit ''parent_text'', lit ''image_ocr'']"

definition signal_types :: "rstr list" where
  "signal_types = [lit ''text'', lit ''parent_text'', lit ''image_ocr'', lit ''question'', lit ''summary'', lit ''image_caption'',
     lit ''graph_node'', lit ''wiki_page'']"

definition in_scope :: "rstr \<Rightarrow> snap_version \<Rightarrow> bool" where
  "in_scope wk v \<longleftrightarrow> sv_workspace_kind v = wk
     \<and> ((wk = lit ''product_line'' \<and> sv_product_kind v = lit ''product'') \<or> (wk = lit ''company'' \<and> sv_product_kind v = lit ''library''))"

definition live_document :: "snap_document \<Rightarrow> bool" where
  "live_document d \<longleftrightarrow> sd_deleted_at d = None \<and> sd_parse d \<notin> {PsDeleting, PsDeleted, PsCancelled} \<and> sd_enable d = EsEnabled \<and> sd_index_ready d"

definition chunk_of :: "rstr list \<Rightarrow> snap_document \<Rightarrow> snap_chunk \<Rightarrow> bool" where
  "chunk_of types d c \<longleftrightarrow> sc_document c = sd_id d \<and> sc_version c = sd_version d \<and> sc_generation c = sd_active_generation d
     \<and> sc_chunk_type c \<in> set types \<and> (sc_chunk_type c \<noteq> lit ''image_ocr'' \<or> sc_image_link c)"

text \<open>The versions of a request, ordered by product and version.\<close>

definition scope_versions :: "rstr \<Rightarrow> uuid list \<Rightarrow> snapshot \<Rightarrow> snap_version list" where
  "scope_versions wk selected sn =
     sort_key (\<lambda>v. (sv_product v, sv_version v)) (filter (\<lambda>v. in_scope wk v \<and> sv_version v \<in> set selected) (sn_versions sn))"

text \<open>The live chunks of some types, with their documents and versions.\<close>

definition live_chunks :: "rstr list \<Rightarrow> rstr \<Rightarrow> uuid list \<Rightarrow> snapshot \<Rightarrow> (snap_version \<times> snap_document \<times> snap_chunk) list" where
  "live_chunks types wk versions sn =
     [(v, d, c). v \<leftarrow> sn_versions sn, sv_workspace_kind v = wk \<and> sv_version v \<in> set versions,
                 d \<leftarrow> sn_documents sn, sd_version d = sv_version v \<and> live_document d,
                 c \<leftarrow> sn_chunks sn, chunk_of types d c]"

subsection \<open>The exact query\<close>

definition evidence_row_of :: "snap_version \<Rightarrow> snap_document option \<Rightarrow> snap_chunk option \<Rightarrow> evidence_row" where
  "evidence_row_of v d c = \<lparr>row_product_id = sv_product v, row_product_version_id = sv_version v,
     row_content = map_option sc_content c, row_document_id = map_option sd_id d, row_source_chunk_id = map_option sc_id c,
     row_file_name = map_option sd_file_name d, row_chunk_type = map_option sc_chunk_type c\<rparr>"

text \<open>\<^verbatim>\<open>LEFT JOIN\<close>: a version without live documents and a document without trusted chunks still give a row.\<close>

definition left_join :: "'a list \<Rightarrow> 'a option list" where
  "left_join xs = (if xs = [] then [None] else map Some xs)"

definition version_documents :: "snapshot \<Rightarrow> snap_version \<Rightarrow> snap_document list" where
  "version_documents sn v = sort_key sd_id (filter (\<lambda>d. sd_version d = sv_version v \<and> live_document d) (sn_documents sn))"

definition document_chunks :: "snapshot \<Rightarrow> snap_document \<Rightarrow> snap_chunk list" where
  "document_chunks sn d = sort_key sc_id (filter (chunk_of trusted_types d) (sn_chunks sn))"

definition evidence_rows :: "rstr \<Rightarrow> uuid list \<Rightarrow> snapshot \<Rightarrow> evidence_row list" where
  "evidence_rows wk selected sn =
     [evidence_row_of v d c. v \<leftarrow> scope_versions wk selected sn, d \<leftarrow> left_join (version_documents sn v),
        c \<leftarrow> left_join (case d of None \<Rightarrow> [] | Some d \<Rightarrow> document_chunks sn d)]"

subsection \<open>Signals and sources\<close>

record signal =
  sig_id :: uuid
  sig_product :: uuid
  sig_version :: uuid
  sig_document :: uuid
  sig_chunk_type :: rstr
  sig_context_header :: rstr
  sig_parent :: "uuid option"

record source =
  src_product :: uuid
  src_version :: uuid
  src_document :: uuid
  src_id :: uuid
  src_chunk_type :: rstr
  src_content :: rstr
  src_file_name :: rstr
  src_context_header :: rstr
  src_parent :: "uuid option"

text \<open>The rows have distinct chunk identifiers, so the lists stand for the hash maps by identifier.\<close>

definition load_signals :: "rstr \<Rightarrow> uuid list \<Rightarrow> snapshot \<Rightarrow> signal list" where
  "load_signals wk versions sn =
     map (\<lambda>(v, d, c). \<lparr>sig_id = sc_id c, sig_product = sv_product v, sig_version = sc_version c, sig_document = sc_document c,
            sig_chunk_type = sc_chunk_type c, sig_context_header = sc_context_header c, sig_parent = sc_parent c\<rparr>)
       (live_chunks signal_types wk versions sn)"

definition load_sources :: "rstr \<Rightarrow> uuid list \<Rightarrow> snapshot \<Rightarrow> source list" where
  "load_sources wk versions sn =
     map (\<lambda>(v, d, c). \<lparr>src_product = sv_product v, src_version = sc_version c, src_document = sc_document c, src_id = sc_id c,
            src_chunk_type = sc_chunk_type c, src_content = sc_content c, src_file_name = sd_file_name d,
            src_context_header = sc_context_header c, src_parent = sc_parent c\<rparr>)
       (live_chunks trusted_types wk versions sn)"

definition get_signal :: "signal list \<Rightarrow> uuid \<Rightarrow> signal option" where
  "get_signal signals i = find (\<lambda>s. sig_id s = i) signals"

definition get_source :: "source list \<Rightarrow> uuid \<Rightarrow> source option" where
  "get_source sources i = find (\<lambda>s. src_id s = i) sources"

subsection \<open>Channel ranks\<close>

text \<open>\<^verbatim>\<open>row_number() OVER (ORDER BY score DESC, product, version, document, id)\<close> of the rows above the threshold, cut at \<open>top_k\<close>.\<close>

definition channel_ranks ::
  "(uuid \<Rightarrow> nat option) \<Rightarrow> nat \<Rightarrow> nat \<Rightarrow> (snap_version \<times> snap_document \<times> snap_chunk) list \<Rightarrow> (uuid \<times> nat) list" where
  "channel_ranks score threshold top_k rows =
     (let scored = [(n, v, c). (v, d, c) \<leftarrow> rows, n \<leftarrow> (case score (sc_id c) of None \<Rightarrow> [] | Some n \<Rightarrow> [n]), threshold \<le> n];
          chosen = sort_key (\<lambda>(n, v, c). (- int n, sv_product v, sc_version c, sc_document c, sc_id c)) scored
      in map (\<lambda>(rank, n, v, c). (sc_id c, rank)) (enumerate 1 (take top_k chosen)))"

definition keyword_ranks :: "semantic_policy \<Rightarrow> (uuid \<Rightarrow> nat option) \<Rightarrow> rstr \<Rightarrow> uuid list \<Rightarrow> snapshot \<Rightarrow> (uuid \<times> nat) list" where
  "keyword_ranks policy keyword_score wk versions sn =
     channel_ranks keyword_score (sp_keyword_threshold policy) (sp_keyword_top_k policy)
       (filter (\<lambda>(v, d, c). list_ex (\<lambda>k. kw_chunk k = sc_id c \<and> kw_tokenizer k = sp_tokenizer policy
            \<and> kw_tokenizer_version k = sp_tokenizer_version policy) (sn_keywords sn)) (live_chunks signal_types wk versions sn))"

text \<open>A score of the vector channel, or a distance that is not a finite number.\<close>

datatype vector_score = NonFinite | Similarity nat

definition vector_ranks ::
  "semantic_policy \<Rightarrow> (uuid \<Rightarrow> vector_score) \<Rightarrow> rstr \<Rightarrow> uuid list \<Rightarrow> snapshot \<Rightarrow> retrieval_error + (uuid \<times> nat) list" where
  "vector_ranks policy vector_score wk versions sn =
     (let rows = filter (\<lambda>(v, d, c). list_ex (\<lambda>r. vr_chunk r = sc_id c \<and> vr_version r = sc_version c \<and> vr_revision r = sp_model_revision policy)
                   (sn_vectors sn)) (live_chunks signal_types wk versions sn)
      in if list_ex (\<lambda>(v, d, c). vector_score (sc_id c) = NonFinite) rows then Inl (integrity ''non-finite V2 cosine distance'')
         else Inr (channel_ranks (\<lambda>i. case vector_score i of NonFinite \<Rightarrow> None | Similarity n \<Rightarrow> Some n)
                (sp_embedding_threshold policy) (sp_embedding_top_k policy) rows))"

subsection \<open>References of derived signals\<close>

fun parse_graph_ids :: "uuid option list \<Rightarrow> retrieval_error + uuid list" where
  "parse_graph_ids [] = Inr []"
| "parse_graph_ids (None # vs) = Inl (integrity ''graph chunk_ids contains NULL'')"
| "parse_graph_ids (Some i # vs) = rbind (parse_graph_ids vs) (\<lambda>is. Inr (i # is))"

fun parse_refs :: "('a \<Rightarrow> retrieval_error + uuid list) \<Rightarrow> (uuid \<times> 'a) list \<Rightarrow> retrieval_error + (uuid \<times> uuid list) list" where
  "parse_refs parse [] = Inr []"
| "parse_refs parse ((i, x) # rows) = rbind (parse x) (\<lambda>ids. rbind (parse_refs parse rows) (\<lambda>rest. Inr ((i, ids) # rest)))"

definition active_of_type :: "rstr \<Rightarrow> signal list \<Rightarrow> uuid list \<Rightarrow> uuid list" where
  "active_of_type t signals active =
     filter (\<lambda>i. case get_signal signals i of None \<Rightarrow> False | Some s \<Rightarrow> sig_chunk_type s = t) active"

definition load_graph_refs :: "snapshot \<Rightarrow> signal list \<Rightarrow> uuid list \<Rightarrow> retrieval_error + (uuid \<times> uuid list) list" where
  "load_graph_refs sn signals active =
     (let ids = active_of_type (lit ''graph_node'') signals active
      in parse_refs parse_graph_ids
           [(sc_id s, gr_chunk_ids n). s \<leftarrow> sort_key sc_id (sn_chunks sn), sc_id s \<in> set ids,
              n \<leftarrow> sn_graph sn, gr_version n = sc_version s \<and> gr_document n = sc_document s \<and> gr_name n = sc_context_header s
                 \<and> gr_generation n = sc_generation s \<and> sc_content s = gr_name n])"

fun parse_wiki_ids :: "json_ref list \<Rightarrow> retrieval_error + uuid list" where
  "parse_wiki_ids [] = Inr []"
| "parse_wiki_ids (NotAString # vs) = Inl (integrity ''wiki chunk_refs contains a non-string'')"
| "parse_wiki_ids (NotAUuid # vs) = Inl (integrity ''wiki chunk_refs contains an invalid UUID'')"
| "parse_wiki_ids (RefId i # vs) = rbind (parse_wiki_ids vs) (\<lambda>is. Inr (i # is))"

definition load_wiki_refs :: "snapshot \<Rightarrow> signal list \<Rightarrow> uuid list \<Rightarrow> retrieval_error + (uuid \<times> uuid list) list" where
  "load_wiki_refs sn signals active =
     (let ids = active_of_type (lit ''wiki_page'') signals active
      in parse_refs (\<lambda>refs. case refs of None \<Rightarrow> Inl (integrity ''wiki chunk_refs is not an array'') | Some rs \<Rightarrow> parse_wiki_ids rs)
           [(sc_id s, pg_chunk_refs w). s \<leftarrow> sort_key sc_id (sn_chunks sn), sc_id s \<in> set ids,
              w \<leftarrow> sn_pages sn, pg_version w = sc_version s \<and> pg_slug w = sc_context_header s \<and> sc_content s = pg_content w
                 \<and> pg_status w = WsPublished \<and> pg_deleted_at w = None])"

subsection \<open>Folding signals into sources\<close>

definition fold_candidates :: "signal \<Rightarrow> source list \<Rightarrow> (uuid \<times> uuid list) list \<Rightarrow> (uuid \<times> uuid list) list \<Rightarrow> uuid list" where
  "fold_candidates signal sources graph_refs wiki_refs =
     (let t = sig_chunk_type signal
      in if t \<in> set trusted_types then [sig_id signal]
         else if t = lit ''question'' \<or> t = lit ''summary'' then (case sig_parent signal of None \<Rightarrow> [] | Some p \<Rightarrow> [p])
         else if t = lit ''image_caption''
         then (if sig_context_header signal = [] then []
               else map src_id (filter (\<lambda>s. src_chunk_type s = lit ''image_ocr'' \<and> src_version s = sig_version signal
                      \<and> src_document s = sig_document signal \<and> src_context_header s = sig_context_header signal
                      \<and> src_parent s = sig_parent signal) sources))
         else if t = lit ''graph_node'' then (case map_of graph_refs (sig_id signal) of None \<Rightarrow> [] | Some is \<Rightarrow> is)
         else if t = lit ''wiki_page'' then (case map_of wiki_refs (sig_id signal) of None \<Rightarrow> [] | Some is \<Rightarrow> is)
         else [])"

definition fold_signal ::
  "signal \<Rightarrow> signal list \<Rightarrow> source list \<Rightarrow> (uuid \<times> uuid list) list \<Rightarrow> (uuid \<times> uuid list) list \<Rightarrow> retrieval_error + uuid option" where
  "fold_signal signal signals sources graph_refs wiki_refs =
     (case fold_candidates signal sources graph_refs wiki_refs of
        [i] \<Rightarrow>
          (case get_source sources i of
             None \<Rightarrow> Inr None
           | Some s \<Rightarrow>
               if src_version s \<noteq> sig_version signal \<or> src_document s \<noteq> sig_document signal \<or> src_product s \<noteq> sig_product signal
               then Inr None
               else if (sig_chunk_type signal = lit ''question'' \<or> sig_chunk_type signal = lit ''summary'')
                  \<and> get_signal signals (sig_id signal) = None
               then Inl (integrity ''derived signal missing'')
               else Inr (Some i))
      | _ \<Rightarrow> Inr None)"

record folded_ranks =
  folded_vector :: "nat option"
  folded_keyword :: "nat option"

definition merge_rank :: "nat option \<Rightarrow> nat option \<Rightarrow> nat option" where
  "merge_rank rank old = (case rank of None \<Rightarrow> old | Some r \<Rightarrow> Some (case old of None \<Rightarrow> r | Some k \<Rightarrow> min k r))"

definition merge_ranks :: "nat option \<Rightarrow> nat option \<Rightarrow> folded_ranks \<Rightarrow> folded_ranks" where
  "merge_ranks v k ranks =
     \<lparr>folded_vector = merge_rank v (folded_vector ranks), folded_keyword = merge_rank k (folded_keyword ranks)\<rparr>"

definition no_ranks :: folded_ranks where
  "no_ranks = \<lparr>folded_vector = None, folded_keyword = None\<rparr>"

text \<open>What the folding loop reads.\<close>

record recall_context =
  rc_signals :: "signal list"
  rc_sources :: "source list"
  rc_graph_refs :: "(uuid \<times> uuid list) list"
  rc_wiki_refs :: "(uuid \<times> uuid list) list"
  rc_vector_ranks :: "(uuid \<times> nat) list"
  rc_keyword_ranks :: "(uuid \<times> nat) list"
  rc_exact :: "uuid list"

fun fold_signals :: "recall_context \<Rightarrow> uuid list \<Rightarrow> (uuid \<times> folded_ranks) list \<Rightarrow> retrieval_error + (uuid \<times> folded_ranks) list" where
  "fold_signals ctx [] folded = Inr folded"
| "fold_signals ctx (i # is) folded =
     (case get_signal (rc_signals ctx) i of
        None \<Rightarrow> Inl (integrity ''ranked signal left snapshot scope'')
      | Some s \<Rightarrow> rbind (fold_signal s (rc_signals ctx) (rc_sources ctx) (rc_graph_refs ctx) (rc_wiki_refs ctx)) (\<lambda>target.
          case target of
            None \<Rightarrow> fold_signals ctx is folded
          | Some k \<Rightarrow>
              if k \<in> set (rc_exact ctx) then fold_signals ctx is folded
              else (let merge = merge_ranks (map_of (rc_vector_ranks ctx) i) (map_of (rc_keyword_ranks ctx) i)
                    in fold_signals ctx is (AList.map_default k (merge no_ranks) merge folded))))"

definition candidate_of ::
  "(bytes \<Rightarrow> rstr) \<Rightarrow> rrf_policy \<Rightarrow> source list \<Rightarrow> uuid \<times> folded_ranks \<Rightarrow> retrieval_error + semantic_candidate" where
  "candidate_of sha256 rrf sources entry =
     (let (i, ranks) = entry
      in case get_source sources i of
           None \<Rightarrow> Inl (integrity ''folded source left snapshot scope'')
         | Some s \<Rightarrow> rbind (rrf_score rrf (folded_vector ranks) (folded_keyword ranks)) (\<lambda>score.
             case trusted_type (src_chunk_type s) of
               None \<Rightarrow> Inl (integrity ''folded source is not trusted'')
             | Some t \<Rightarrow> Inr \<lparr>sem_document_id = src_document s, sem_source_chunk_id = src_id s, sem_product_id = src_product s,
                 sem_product_version_id = src_version s, sem_display_name = src_file_name s, sem_chunk_utf8 = src_content s,
                 sem_chunk_sha256 = sha256 (as_bytes (src_content s)), sem_chunk_byte_length = byte_len (src_content s),
                 sem_source_type = t, vector_rank = folded_vector ranks, keyword_rank = folded_keyword ranks,
                 exact_rrf_score = score, pre_rerank_rrf_rank = 0\<rparr>))"

fun build_candidates ::
  "(bytes \<Rightarrow> rstr) \<Rightarrow> rrf_policy \<Rightarrow> source list \<Rightarrow> (uuid \<times> folded_ranks) list \<Rightarrow> retrieval_error + semantic_candidate list" where
  "build_candidates sha256 rrf sources [] = Inr []"
| "build_candidates sha256 rrf sources (e # es) =
     rbind (candidate_of sha256 rrf sources e) (\<lambda>c. rbind (build_candidates sha256 rrf sources es) (\<lambda>cs. Inr (c # cs)))"

subsection \<open>Integrity of the indexes\<close>

definition canonical_embedding_input :: "rstr \<Rightarrow> rstr \<Rightarrow> rstr" where
  "canonical_embedding_input context_header content = context_header @ [newline] @ content"

definition source_snapshot_sha256 :: "(bytes \<Rightarrow> rstr) \<Rightarrow> (uuid \<Rightarrow> rstr) \<Rightarrow> rstr \<Rightarrow> (uuid \<times> rstr) list \<Rightarrow> rstr" where
  "source_snapshot_sha256 sha256 uuid_text revision inputs =
     sha256 (as_bytes (revision @ [newline] @ concat (map (\<lambda>(i, digest). uuid_text i @ lit '':'' @ digest @ [newline]) inputs)))"

definition unfinished_document :: "snap_document \<Rightarrow> bool" where
  "unfinished_document d \<longleftrightarrow> sd_deleted_at d = None \<and> sd_parse d \<notin> {PsDeleting, PsDeleted, PsCancelled}
     \<and> (sd_parse d \<in> {PsPending, PsProcessing, PsFinalizing} \<or> sd_pending_subtasks d \<noteq> 0 \<or> sd_summary d \<in> {SsPending, SsProcessing})"

text \<open>The vector generations that the keyword generation and a completed intent confirm, of versions without unfinished documents.\<close>

definition marker_rows :: "uuid list \<Rightarrow> snapshot \<Rightarrow> generation_row list" where
  "marker_rows eligible sn =
     sort_key gen_version
       [g. g \<leftarrow> sn_vector_generations sn, gen_version g \<in> set eligible
             \<and> \<not> list_ex (\<lambda>d. sd_version d = gen_version g \<and> unfinished_document d) (sn_documents sn),
           k \<leftarrow> sn_keyword_generations sn, k = g,
           i \<leftarrow> sn_intents sn, int_version i = gen_version g \<and> int_revision i = gen_revision g \<and> int_snapshot i = gen_snapshot g
             \<and> int_marker i = Some (gen_snapshot g) \<and> int_status i = SiCompleted]"

definition sidecar_rows :: "uuid list \<Rightarrow> snapshot \<Rightarrow> snap_chunk list" where
  "sidecar_rows eligible sn =
     sort_key sc_id [c. c \<leftarrow> sn_chunks sn, sc_version c \<in> set eligible, d \<leftarrow> sn_documents sn, live_document d \<and> chunk_of signal_types d c]"

fun check_sidecars ::
  "(bytes \<Rightarrow> rstr) \<Rightarrow> semantic_policy \<Rightarrow> snapshot \<Rightarrow> (uuid \<Rightarrow> generation_row option) \<Rightarrow> snap_chunk list
     \<Rightarrow> retrieval_error + (uuid \<times> uuid \<times> rstr) list" where
  "check_sidecars sha256 policy sn markers [] = Inr []"
| "check_sidecars sha256 policy sn markers (c # cs) =
     (let keyword_digest = sha256 (as_bytes (sc_content c));
          vector_digest = sha256 (as_bytes (canonical_embedding_input (sc_context_header c) (sc_content c)))
      in case markers (sc_version c) of
           None \<Rightarrow> Inl (integrity ''missing complete V2 vector generation'')
         | Some marker \<Rightarrow>
             let keyword = find (\<lambda>k. kw_chunk k = sc_id c \<and> kw_tokenizer k = sp_tokenizer policy
                              \<and> kw_tokenizer_version k = sp_tokenizer_version policy) (sn_keywords sn);
                 vector = find (\<lambda>v. vr_chunk v = sc_id c \<and> vr_version v = sc_version c \<and> vr_revision v = sp_model_revision policy) (sn_vectors sn);
                 keyword_ok = (case keyword of None \<Rightarrow> False | Some k \<Rightarrow> kw_content k = sc_content c \<and> kw_sha256 k = keyword_digest);
                 vector_ok = (case vector of None \<Rightarrow> False | Some v \<Rightarrow> vr_sha256 v = vector_digest \<and> vr_snapshot v = gen_snapshot marker)
             in if \<not> keyword_ok \<or> \<not> vector_ok then Inl (integrity ''missing or stale V2 semantic sidecar'')
                else rbind (check_sidecars sha256 policy sn markers cs) (\<lambda>inputs. Inr ((sc_version c, sc_id c, vector_digest) # inputs)))"

fun check_generations ::
  "(bytes \<Rightarrow> rstr) \<Rightarrow> (uuid \<Rightarrow> rstr) \<Rightarrow> semantic_policy \<Rightarrow> (uuid \<Rightarrow> generation_row option) \<Rightarrow> (uuid \<times> uuid \<times> rstr) list \<Rightarrow> uuid list
     \<Rightarrow> retrieval_error + unit" where
  "check_generations sha256 uuid_text policy markers inputs [] = Inr ()"
| "check_generations sha256 uuid_text policy markers inputs (v # vs) =
     (case markers v of
        None \<Rightarrow> Inl (integrity ''missing complete V2 vector generation'')
      | Some marker \<Rightarrow>
          let own = map snd (filter (\<lambda>(w, _). w = v) inputs)
          in if length own \<ge> 2 ^ 63 then Inl (integrity ''vector generation count overflow'')
             else if gen_revision marker \<noteq> sp_model_revision policy \<or> gen_count marker \<noteq> int (length own)
                \<or> gen_snapshot marker \<noteq> source_snapshot_sha256 sha256 uuid_text (gen_revision marker) own
             then Inl (integrity ''missing or stale V2 vector generation'')
             else check_generations sha256 uuid_text policy markers inputs vs)"

subsection \<open>Recall\<close>

record recall_env =
  keyword_score :: "uuid \<Rightarrow> nat option"
  vector_score_of :: "uuid \<Rightarrow> vector_score"
  order_ids :: "uuid list \<Rightarrow> uuid list"
  order_folded :: "(uuid \<times> folded_ranks) list \<Rightarrow> (uuid \<times> folded_ranks) list"

text \<open>The part of recall after the integrity checks.\<close>

definition recall_ranked ::
  "(bytes \<Rightarrow> rstr) \<Rightarrow> (nat \<Rightarrow> rstr) \<Rightarrow> recall_env \<Rightarrow> semantic_policy \<Rightarrow> rstr \<Rightarrow> uuid list \<Rightarrow> rstr \<Rightarrow> snapshot
     \<Rightarrow> retrieval_error + semantic_candidate list" where
  "recall_ranked sha256 to_lowercase env policy wk eligible requirement sn =
     (let signals = load_signals wk eligible sn; keywords = keyword_ranks policy (keyword_score env) wk eligible sn
      in rbind (vector_ranks policy (vector_score_of env) wk eligible sn) (\<lambda>vectors.
           let active = order_ids env (remdups (map fst keywords @ map fst vectors))
           in rbind (load_graph_refs sn signals active) (\<lambda>graph_refs.
              rbind (load_wiki_refs sn signals active) (\<lambda>wiki_refs.
                let sources = load_sources wk eligible sn;
                    exact = map src_id (filter (\<lambda>s. contains_lit requirement (normalize_exact to_lowercase (src_content s))) sources);
                    ctx = \<lparr>rc_signals = signals, rc_sources = sources, rc_graph_refs = graph_refs, rc_wiki_refs = wiki_refs,
                           rc_vector_ranks = vectors, rc_keyword_ranks = keywords, rc_exact = exact\<rparr>
                in rbind (fold_signals ctx active []) (\<lambda>folded.
                   rbind (build_candidates sha256 (sp_rrf policy) sources (order_folded env folded)) (\<lambda>candidates.
                     Inr (rank_candidates (sp_rerank_top_k policy) candidates)))))))"

definition recall_in_snapshot ::
  "(bytes \<Rightarrow> rstr) \<Rightarrow> (nat \<Rightarrow> rstr) \<Rightarrow> (uuid \<Rightarrow> rstr) \<Rightarrow> recall_env \<Rightarrow> semantic_policy \<Rightarrow> rstr \<Rightarrow> uuid list \<Rightarrow> rstr \<Rightarrow> snapshot
     \<Rightarrow> retrieval_error + semantic_candidate list" where
  "recall_in_snapshot sha256 to_lowercase uuid_text env policy wk selected requirement_text sn =
     (let requirement = normalize_exact to_lowercase requirement_text;
          eligible = sort (remdups (map sv_version (scope_versions wk selected sn)))
      in if requirement = [] then Inl (InvalidRequest ''semantic requirement must not be empty or whitespace'')
         else if set selected \<noteq> set eligible
         then Inl (DigestMismatch ''selected versions differ from the frozen eligible workspace scope'')
         else
           let bindings = filter (\<lambda>(v, _). v \<in> set eligible) (sn_bindings sn); rows = marker_rows eligible sn;
               markers = (\<lambda>v. find (\<lambda>g. gen_version g = v) (rev rows))
           in if length bindings \<noteq> length eligible \<or> list_ex (\<lambda>(_, r). r \<noteq> sp_model_revision policy) bindings
              then Inl (InvalidRequest ''eligible version embedding binding is missing or mismatched'')
              else if length rows \<noteq> length eligible then Inl (integrity ''missing complete V2 vector generation'')
              else rbind (check_sidecars sha256 policy sn markers (sidecar_rows eligible sn)) (\<lambda>inputs.
                   rbind (check_generations sha256 uuid_text policy markers inputs eligible) (\<lambda>_.
                     recall_ranked sha256 to_lowercase env policy wk eligible requirement sn)))"

subsection \<open>Credentials and providers\<close>

definition env_name_char :: "nat \<Rightarrow> bool" where
  "env_name_char b \<longleftrightarrow> is_ascii_uppercase b \<or> is_ascii_digit b \<or> b = 95"

text \<open>\<open>environment\<close> is \<^verbatim>\<open>std::env::var\<close>.\<close>

definition resolve_credential :: "(rstr \<Rightarrow> rstr option) \<Rightarrow> rstr \<Rightarrow> retrieval_error + rstr" where
  "resolve_credential environment credential_ref =
     (case strip_prefix (lit ''env:'') credential_ref of
        None \<Rightarrow> Inl (InvalidRequest ''embedding/rerank credential reference must use env:<VARIABLE_NAME>'')
      | Some variable \<Rightarrow>
          if variable = [] \<or> byte_len variable > 128 \<or> \<not> list_all env_name_char variable
          then Inl (InvalidRequest ''embedding/rerank credential environment name is invalid'')
          else (case environment variable of
                  None \<Rightarrow> Inl (integrity ''embedding/rerank credential is unavailable'') | Some token \<Rightarrow> Inr token))"

text \<open>
  The answer of a provider: the request fails, or there is a status and, when it is a success, a body, which is \<open>None\<close> when it
  is not a response in JSON.
\<close>

datatype 'a transport_outcome = RequestFailed string | Answered nat "'a option"

definition status_error :: "string \<Rightarrow> nat \<Rightarrow> retrieval_error" where
  "status_error message status = (if status = 408 \<or> status = 429 \<or> (500 \<le> status \<and> status < 600) then Unavailable message else InvalidRequest message)"

text \<open>What the code observes of a vector of floats: its length, whether all are finite, whether its norm is finite and not zero.\<close>

record embedding_vector =
  dimension :: nat
  all_finite :: bool
  norm_usable :: bool

record embedding_response =
  er_data :: "(nat \<times> embedding_vector) list"
  er_model :: rstr
  er_model_revision_sha256 :: rstr
  er_request_config_sha256 :: rstr

record embedding_provider =
  ep_endpoint :: rstr
  ep_model :: rstr
  ep_model_revision_sha256 :: rstr
  ep_request_config_sha256 :: rstr
  ep_revision_sha256 :: "rstr option"
  ep_credential_ref :: rstr
  ep_transport :: "rstr \<Rightarrow> embedding_response transport_outcome"

record query_embedding =
  qe_revision_sha256 :: rstr
  qe_values :: embedding_vector

definition validate_query_embedding_values :: "query_embedding \<Rightarrow> retrieval_error + unit" where
  "validate_query_embedding_values q =
     (if dimension (qe_values q) \<noteq> 1024 then Inl (InvalidRequest ''query embedding dimension must be exactly 1024'')
      else if \<not> all_finite (qe_values q) then Inl (InvalidRequest ''query embedding contains a non-finite value'')
      else if \<not> norm_usable (qe_values q) then Inl (InvalidRequest ''query embedding must have a finite non-zero norm'')
      else Inr ())"

definition validate_query_embedding :: "semantic_policy \<Rightarrow> query_embedding \<Rightarrow> retrieval_error + unit" where
  "validate_query_embedding policy q =
     (if qe_revision_sha256 q \<noteq> sp_model_revision policy then Inl (InvalidRequest ''query embedding revision does not match policy'')
      else validate_query_embedding_values q)"

definition parse_embedding_response :: "embedding_provider \<Rightarrow> embedding_response \<Rightarrow> retrieval_error + query_embedding" where
  "parse_embedding_response p r =
     (if er_model r \<noteq> ep_model p \<or> er_model_revision_sha256 r \<noteq> ep_model_revision_sha256 p
         \<or> er_request_config_sha256 r \<noteq> ep_request_config_sha256 p
      then Inl (InvalidRequest ''embedding provider response identity mismatch'')
      else case er_data r of
        [(0, values)] \<Rightarrow>
          (case ep_revision_sha256 p of
             None \<Rightarrow> Inl (InvalidRequest ''invalid embedding revision'')
           | Some sha \<Rightarrow>
               let q = \<lparr>qe_revision_sha256 = sha, qe_values = values\<rparr>
               in case validate_query_embedding_values q of
                    Inl _ \<Rightarrow> Inl (integrity ''embedding provider returned an invalid vector'') | Inr _ \<Rightarrow> Inr q)
      | _ \<Rightarrow> Inl (integrity ''embedding provider response must contain exactly data index 0''))"

definition embed :: "(rstr \<Rightarrow> rstr option) \<Rightarrow> embedding_provider \<Rightarrow> rstr \<Rightarrow> retrieval_error + query_embedding" where
  "embed environment p requirement_text =
     (if \<not> starts_with_lit (lit ''https://'') (ep_endpoint p) then Inl (InvalidRequest ''embedding endpoint must use https'')
      else rbind (resolve_credential environment (ep_credential_ref p)) (\<lambda>token.
        if token = [] then Inl (InvalidRequest ''embedding credential resolution returned an empty credential'')
        else case ep_transport p requirement_text of
          RequestFailed e \<Rightarrow> Inl (integrity e)
        | Answered status body \<Rightarrow>
            if \<not> (200 \<le> status \<and> status < 300) then Inl (status_error ''embedding provider returned status'' status)
            else (case body of None \<Rightarrow> Inl (integrity ''invalid embedding provider JSON'')
                  | Some r \<Rightarrow> parse_embedding_response p r)))"

record rerank_provider =
  rp_endpoint :: rstr
  rp_identity :: rerank_identity
  rp_credential_ref :: rstr
  rp_transport :: "rstr \<Rightarrow> rstr list \<Rightarrow> rerank_response transport_outcome"

definition rerank ::
  "(rstr \<Rightarrow> rstr option) \<Rightarrow> rerank_provider \<Rightarrow> rstr \<Rightarrow> semantic_candidate list \<Rightarrow> retrieval_error + reranked_candidate list" where
  "rerank environment p requirement_text candidates =
     (if candidates = [] then Inr []
      else if \<not> starts_with_lit (lit ''https://'') (rp_endpoint p) then Inl (InvalidRequest ''rerank endpoint must use https'')
      else if revision_sha256 (rp_identity p) \<noteq> Some (policy_revision_sha256 (rp_identity p))
         \<or> revision_model_sha256 (rp_identity p) \<noteq> policy_model_revision_sha256 (rp_identity p)
         \<or> revision_config_sha256 (rp_identity p) \<noteq> policy_config_revision_sha256 (rp_identity p)
      then Inl (InvalidRequest ''rerank revision does not match policy'')
      else rbind (resolve_credential environment (rp_credential_ref p)) (\<lambda>token.
        if token = [] then Inl (InvalidRequest ''rerank credential is empty'')
        else case rp_transport p requirement_text (map sem_chunk_utf8 candidates) of
          RequestFailed e \<Rightarrow> Inl (Unavailable e)
        | Answered status body \<Rightarrow>
            if \<not> (200 \<le> status \<and> status < 300) then Inl (status_error ''rerank provider returned status'' status)
            else (case body of None \<Rightarrow> Inl (Unavailable ''invalid rerank provider JSON'')
                  | Some response \<Rightarrow> apply_response response (rp_identity p) candidates)))"

subsection \<open>Retrieval\<close>

definition v2_max_hits :: nat where "v2_max_hits = 1000000"
definition v2_max_chunk_bytes :: nat where "v2_max_chunk_bytes = 1073741824"
definition v2_max_total_bytes :: nat where "v2_max_total_bytes = 1099511627776"

definition validate_request_v2 ::
  "(nat \<Rightarrow> rstr) \<Rightarrow> nat \<Rightarrow> rstr \<Rightarrow> rstr \<Rightarrow> uuid list \<Rightarrow> policy_identity \<Rightarrow> retrieval_error + unit" where
  "validate_request_v2 to_lowercase schema requirement_sha256 requirement_text selected policy =
     (if schema \<noteq> 1 \<or> contract_version policy \<noteq> contract_v2 \<or> \<not> lower_hex64 requirement_sha256 \<or> \<not> lower_hex64 (policy_sha256 policy)
         \<or> normalize_exact to_lowercase requirement_text = []
         \<or> max_hits policy = 0 \<or> max_hits policy > v2_max_hits \<or> max_chunk_bytes policy = 0 \<or> max_chunk_bytes policy > v2_max_chunk_bytes
         \<or> max_total_bytes policy = 0 \<or> max_total_bytes policy > v2_max_total_bytes
         \<or> \<not> distinct selected \<or> 0 \<in> set selected
      then Inl (InvalidRequest ''invalid v2 evidence scope, policy, or quota'')
      else Inr ())"

text \<open>Embedding, recall and rerank of a configured runtime.\<close>

record semantic_runtime =
  environment :: "rstr \<Rightarrow> rstr option"
  embedding :: embedding_provider
  reranking :: rerank_provider
  recall_with :: "query_embedding \<Rightarrow> recall_env"

definition semantic_tail ::
  "(bytes \<Rightarrow> rstr) \<Rightarrow> (nat \<Rightarrow> rstr) \<Rightarrow> (uuid \<Rightarrow> rstr) \<Rightarrow> semantic_policy \<Rightarrow> rstr \<Rightarrow> uuid list \<Rightarrow> rstr \<Rightarrow> snapshot \<Rightarrow> semantic_runtime
     \<Rightarrow> retrieval_error + reranked_candidate list" where
  "semantic_tail sha256 to_lowercase uuid_text sem_policy wk selected requirement_text sn rt =
     rbind (embed (environment rt) (embedding rt) requirement_text) (\<lambda>q.
     rbind (validate_query_embedding sem_policy q) (\<lambda>_.
     rbind (recall_in_snapshot sha256 to_lowercase uuid_text (recall_with rt q) sem_policy wk selected requirement_text sn) (\<lambda>candidates.
       rerank (environment rt) (reranking rt) requirement_text candidates)))"

text \<open>\<^verbatim>\<open>retrieve_v2\<close> from the exact query on.\<close>

definition retrieve_snapshot ::
  "(bytes \<Rightarrow> rstr) \<Rightarrow> (nat \<Rightarrow> rstr) \<Rightarrow> (uuid \<Rightarrow> rstr) \<Rightarrow> bool \<Rightarrow> semantic_runtime option \<Rightarrow> (uuid \<Rightarrow> evidence_media option) \<Rightarrow> rstr
     \<Rightarrow> rstr \<Rightarrow> uuid list \<Rightarrow> policy_identity \<Rightarrow> semantic_policy \<Rightarrow> snapshot \<Rightarrow> retrieval_error + evidence_batch" where
  "retrieve_snapshot sha256 to_lowercase uuid_text exact_only runtime media_rows wk requirement_text selected policy sem_policy sn =
     rbind (scan_rows to_lowercase uuid_text wk (normalize_exact to_lowercase requirement_text) (evidence_rows wk selected sn) [] [])
       (\<lambda>(versions, candidates).
         if selected \<noteq> [] \<and> set (map ev_product_version_id versions) \<noteq> set selected
         then Inl (InvalidRequest ''selected versions are not the exact current eligible workspace scope'')
         else assemble_batch sha256 wk policy exact_only
                (map_option (semantic_tail sha256 to_lowercase uuid_text sem_policy wk selected requirement_text sn) runtime)
                media_rows versions candidates)"

end
