(* ===== verification/Evidence_Select_Props.thy ===== *)
theory Evidence_Select_Props
  imports Evidence_Batch
begin

text \<open>
  The exact prefix: one shortest candidate for each of the first versions, then further candidates, always within the quotas
  of the policy.
\<close>

subsection \<open>Grouping by version\<close>

lemma mset_groups:
  assumes "distinct ks" and "\<forall>c \<in> set cs. f c \<in> set ks"
  shows "mset (concat (map (\<lambda>k. sort_by g (filter (\<lambda>c. f c = k) cs)) ks)) = mset cs"
  using assms
proof (induction ks arbitrary: cs)
  case (Cons k ks)
  let ?rest = "filter (\<lambda>c. f c \<noteq> k) cs"
  have "filter (\<lambda>c. f c = j) ?rest = filter (\<lambda>c. f c = j) cs" if "j \<in> set ks" for j
    using that Cons.prems(1) by (auto intro: filter_cong)
  then have "map (\<lambda>k. sort_by g (filter (\<lambda>c. f c = k) ?rest)) ks = map (\<lambda>k. sort_by g (filter (\<lambda>c. f c = k) cs)) ks"
    by simp
  moreover have "mset (concat (map (\<lambda>k. sort_by g (filter (\<lambda>c. f c = k) ?rest)) ks)) = mset ?rest"
    using Cons.prems by (intro Cons.IH) auto
  ultimately have "mset (concat (map (\<lambda>k. sort_by g (filter (\<lambda>c. f c = k) cs)) ks)) = mset ?rest" by (simp only:)
  moreover have "mset (filter (\<lambda>c. f c = k) cs) + mset ?rest = mset cs" by (simp add: multiset_partition [symmetric])
  ultimately show ?case by (simp only: list.map concat.simps mset_append mset_sort_by)
qed simp

definition version_keys :: "exact_candidate list \<Rightarrow> (uuid \<times> uuid) list" where
  "version_keys cs = sort (remdups (map version_key cs))"

lemma version_keys_props [simp]: "distinct (version_keys cs)" "set (version_keys cs) = version_key ` set cs"
  by (simp_all add: version_keys_def)

lemma mset_by_version: "mset (concat (by_version cs)) = mset cs"
  unfolding by_version_def version_keys_def [symmetric] by (rule mset_groups) simp_all

lemma length_by_version: "length (by_version cs) = card (version_key ` set cs)"
  using distinct_card [OF version_keys_props(1), of cs] by (simp add: by_version_def version_keys_def [symmetric])

text \<open>A primary is a shortest candidate of its version.\<close>

definition shortest :: "exact_candidate list \<Rightarrow> exact_candidate \<Rightarrow> bool" where
  "shortest cs p \<longleftrightarrow> p \<in> set cs \<and> (\<forall>c \<in> set cs. version_key c = version_key p \<longrightarrow> ex_byte_length p \<le> ex_byte_length c)"

definition primary_key :: "exact_candidate \<Rightarrow> nat \<times> uuid \<times> uuid" where
  "primary_key c = (ex_byte_length c, ex_document_id c, ex_source_chunk_id c)"

lemma compare_primary_key: "compare_primary x y = cmp (primary_key x) (primary_key y)"
  by (simp only: compare_primary_def cmp_pair primary_key_def)

lemma hd_sort_primary:
  assumes "xs \<noteq> []"
  shows "hd (sort_by compare_primary xs) \<in> set xs"
    and "c \<in> set xs \<Longrightarrow> ex_byte_length (hd (sort_by compare_primary xs)) \<le> ex_byte_length c"
proof -
  have s: "sorted_wrt (\<lambda>x y. primary_key x \<le> primary_key y) (sort_by compare_primary xs)"
    by (rule sort_by_key_sorted) (rule compare_primary_key)
  have "length (sort_by compare_primary xs) \<noteq> 0" using assms by simp
  then obtain y ys where y: "sort_by compare_primary xs = y # ys" by (cases "sort_by compare_primary xs") simp_all
  have set_xs: "set xs = insert y (set ys)" using set_sort_by [of compare_primary xs] by (simp add: y)
  then show "hd (sort_by compare_primary xs) \<in> set xs" by (simp add: y)
  show "c \<in> set xs \<Longrightarrow> ex_byte_length (hd (sort_by compare_primary xs)) \<le> ex_byte_length c"
    using s unfolding y set_xs by (auto simp: primary_key_def less_eq_prod_def)
qed

lemma heads_of_groups:
  "map version_key (map hd (by_version cs)) = version_keys cs \<and> (\<forall>p \<in> set (map hd (by_version cs)). shortest cs p)
     \<and> [] \<notin> set (by_version cs)"
proof -
  define grp where "grp k = sort_by compare_primary (filter (\<lambda>c. version_key c = k) cs)" for k
  have grp: "version_key (hd (grp k)) = k \<and> shortest cs (hd (grp k)) \<and> grp k \<noteq> []" if "k \<in> set (version_keys cs)" for k
  proof -
    have ne: "filter (\<lambda>c. version_key c = k) cs \<noteq> []" using that by (auto simp: filter_empty_conv)
    then have "length (grp k) \<noteq> 0" by (simp add: grp_def)
    moreover have "version_key (hd (grp k)) = k" "shortest cs (hd (grp k))"
      using hd_sort_primary [OF ne] by (auto simp: shortest_def grp_def)
    ultimately show ?thesis by auto
  qed
  have g: "by_version cs = map grp (version_keys cs)" by (simp add: by_version_def version_keys_def grp_def)
  have "map version_key (map hd (by_version cs)) = version_keys cs"
    unfolding g by (simp only: map_map o_def) (rule map_idI, use grp in blast)
  moreover have "[] \<notin> set (by_version cs)" unfolding g set_map using grp by (metis imageE)
  moreover have "\<forall>p \<in> set (map hd (by_version cs)). shortest cs p" unfolding g set_map using grp by blast
  ultimately show ?thesis by blast
qed

subsection \<open>Quotas\<close>

definition within_quota :: "policy_identity \<Rightarrow> selection_state \<Rightarrow> bool" where
  "within_quota policy s \<longleftrightarrow> length (sel_hits s) \<le> max_hits policy
     \<and> (\<forall>h \<in> set (sel_hits s). ex_byte_length h \<le> max_chunk_bytes policy)
     \<and> sel_bytes s = sum_list (map ex_byte_length (sel_hits s)) \<and> sel_bytes s \<le> max_total_bytes policy"

lemma choose_primaries_Inr:
  assumes "choose_primaries policy groups s = Inr s'" and "[] \<notin> set groups" and "within_quota policy s"
    and "length (sel_hits s) + length groups \<le> max_hits policy"
  shows "sel_hits s' = sel_hits s @ map hd groups \<and> within_quota policy s'"
  using assms
proof (induction policy groups s rule: choose_primaries.induct)
  case (3 policy p ps groups s)
  let ?s = "\<lparr>sel_hits = sel_hits s @ [p], sel_bytes = sel_bytes s + ex_byte_length p\<rparr>"
  have rest: "choose_primaries policy groups ?s = Inr s'" and q: "ex_byte_length p \<le> max_chunk_bytes policy"
    "sel_bytes s + ex_byte_length p \<le> max_total_bytes policy" "\<not> 2 ^ 64 \<le> sel_bytes s + ex_byte_length p"
    using "3.prems"(1) by (auto split: if_splits)
  have "within_quota policy ?s" using "3.prems" q by (auto simp: within_quota_def)
  then show ?case using "3.IH" [OF _ _ _ rest] "3.prems" q by simp
qed simp_all

lemma take_if_fits_quota: "within_quota policy s \<Longrightarrow> within_quota policy (take_if_fits policy c s)"
  by (auto simp: take_if_fits_def within_quota_def)

lemma fold_take_if_fits:
  "within_quota policy s \<Longrightarrow> within_quota policy (fold (take_if_fits policy) xs s)
     \<and> (\<exists>ys. subseq ys xs \<and> sel_hits (fold (take_if_fits policy) xs s) = sel_hits s @ ys)"
proof (induction xs arbitrary: s)
  case (Cons x xs)
  obtain ys where ys: "subseq ys xs"
    "sel_hits (fold (take_if_fits policy) xs (take_if_fits policy x s)) = sel_hits (take_if_fits policy x s) @ ys"
    using Cons.IH [OF take_if_fits_quota [OF Cons.prems, of x]] by blast
  have "sel_hits (take_if_fits policy x s) = sel_hits s \<or> sel_hits (take_if_fits policy x s) = sel_hits s @ [x]"
    by (simp add: take_if_fits_def)
  then have "\<exists>zs. subseq zs (x # xs) \<and> sel_hits (take_if_fits policy x s) @ ys = sel_hits s @ zs"
    using ys(1) by (metis append.assoc append_Cons append_Nil subseq_Cons2 list_emb_Cons)
  then show ?case using Cons.IH [OF take_if_fits_quota [OF Cons.prems, of x]] ys(2) by simp
qed simp

lemma subseq_set: "subseq ys xs \<Longrightarrow> set ys \<subseteq> set xs"
  by (induction rule: list_emb.induct) auto

lemma subseq_distinct: "subseq ys xs \<Longrightarrow> distinct xs \<Longrightarrow> distinct ys"
  by (induction rule: list_emb.induct) (auto dest: subseq_set)

lemma selection_spec:
  assumes r: "select_exact_prefix cs policy = Inr sel" and d: "distinct (map ex_source_chunk_id cs)"
  obtains ys where "es_hits sel = take (max_hits policy) (map hd (by_version cs)) @ ys"
    and "within_quota policy \<lparr>sel_hits = es_hits sel, sel_bytes = sum_list (map ex_byte_length (es_hits sel))\<rparr>"
    and "set (es_hits sel) \<subseteq> set cs" and "distinct (map ex_source_chunk_id (es_hits sel))"
    and "es_versions_truncated sel = card (version_key ` set cs) - max_hits policy"
    and "es_hits_truncated sel = length cs - length (es_hits sel)"
proof -
  let ?groups = "by_version cs" and ?s0 = "\<lparr>sel_hits = [], sel_bytes = 0 :: nat\<rparr>"
  obtain s where s: "choose_primaries policy (take (max_hits policy) ?groups) ?s0 = Inr s"
    using r by (auto simp: select_exact_prefix_def Let_def rbind_eq_Inr)
  define rest where "rest = sort_by compare_b (filter (\<lambda>c. ex_source_chunk_id c \<notin> set (map ex_source_chunk_id (sel_hits s))) (concat ?groups))"
  define s' where "s' = fold (take_if_fits policy) rest s"
  have sel: "es_hits sel = sel_hits s'" "es_versions_truncated sel = length ?groups - max_hits policy"
    "es_hits_truncated sel = length cs - length (sel_hits s')"
    using r s by (auto simp: select_exact_prefix_def Let_def rest_def s'_def)
  have heads: "[] \<notin> set ?groups" "map version_key (map hd ?groups) = version_keys cs" "\<forall>p \<in> set (map hd ?groups). shortest cs p"
    using heads_of_groups [of cs] by blast+
  have "[] \<notin> set (take (max_hits policy) ?groups)" using heads(1) by (metis in_set_takeD)
  then have prim: "sel_hits s = take (max_hits policy) (map hd ?groups)" and q: "within_quota policy s"
    using choose_primaries_Inr [OF s] by (auto simp: within_quota_def take_map)
  obtain ys where ys: "subseq ys rest" "sel_hits s' = sel_hits s @ ys" and q': "within_quota policy s'"
    using fold_take_if_fits [OF q, of rest] unfolding s'_def by blast
  have set_rest: "set rest = {c \<in> set cs. ex_source_chunk_id c \<notin> ex_source_chunk_id ` set (sel_hits s)}"
    using mset_eq_setD [OF mset_by_version [of cs]] by (auto simp: rest_def)
  have prim_cs: "set (sel_hits s) \<subseteq> set cs" using heads(3) prim in_set_takeD by (fastforce simp: shortest_def)
  have inj: "inj_on ex_source_chunk_id (set cs)" using d by (simp add: distinct_map)
  have "distinct (map hd ?groups)" using heads(2) version_keys_props(1) [of cs] by (metis distinct_map)
  then have d1: "distinct (map ex_source_chunk_id (sel_hits s))"
    using prim prim_cs inj by (simp add: distinct_map distinct_take inj_on_subset)
  have "distinct (map ex_source_chunk_id (concat ?groups))"
    using d mset_by_version [of cs] by (metis mset_map mset_eq_imp_distinct_iff)
  then have "distinct (map ex_source_chunk_id rest)"
    unfolding rest_def by (metis (no_types, lifting) distinct_map_filter mset_map mset_sort_by mset_eq_imp_distinct_iff)
  then have dys: "distinct (map ex_source_chunk_id ys)" using subseq_map [OF ys(1)] subseq_distinct by blast
  have sub: "set ys \<subseteq> set rest" using ys(1) by (rule subseq_set)
  have out: "c \<in> set cs \<and> ex_source_chunk_id c \<notin> ex_source_chunk_id ` set (sel_hits s)" if "c \<in> set ys" for c
    using subsetD [OF sub that] unfolding set_rest by simp
  have differ: "ex_source_chunk_id h \<noteq> ex_source_chunk_id c" if h: "h \<in> set (sel_hits s)" and c: "c \<in> set ys" for h c
    using out [OF c] imageI [OF h, of ex_source_chunk_id] by auto
  have "ex_source_chunk_id ` set (sel_hits s) \<inter> ex_source_chunk_id ` set ys = {}"
    by (auto dest: differ)
  then have "distinct (map ex_source_chunk_id (es_hits sel))"
    using d1 dys by (simp only: sel(1) ys(2) map_append distinct_append set_map simp_thms)
  moreover have "set (es_hits sel) \<subseteq> set cs" using prim_cs out by (auto simp only: sel(1) ys(2) set_append)
  moreover have "within_quota policy \<lparr>sel_hits = es_hits sel, sel_bytes = sum_list (map ex_byte_length (es_hits sel))\<rparr>"
    using q' by (simp add: within_quota_def sel(1))
  ultimately show ?thesis using that [of ys] sel ys(2) prim length_by_version by simp
qed

text \<open>
  C21: the exact prefix is fair and within the quotas: when the selection succeeds, it has at most the allowed number of hits, no chunk
  and no sum of chunks above the allowed bytes, and no chunk twice; it begins with one shortest
  candidate for each of the first versions in the order of their identifiers; and the two
  truncation counts account exactly for the versions and the candidates that were left out.
\<close>

theorem exact_prefix_fair:
  assumes r: "select_exact_prefix cs policy = Inr sel" and d: "distinct (map ex_source_chunk_id cs)"
    and n: "n = min (max_hits policy) (card (version_key ` set cs))"
  shows "length (es_hits sel) \<le> max_hits policy \<and> sum_list (map ex_byte_length (es_hits sel)) \<le> max_total_bytes policy
    \<and> list_all (\<lambda>h. h \<in> set cs \<and> ex_byte_length h \<le> max_chunk_bytes policy) (es_hits sel)
    \<and> distinct (map ex_source_chunk_id (es_hits sel))
    \<and> map version_key (take n (es_hits sel)) = take n (version_keys cs) \<and> list_all (shortest cs) (take n (es_hits sel))
    \<and> n + es_versions_truncated sel = card (version_key ` set cs)
    \<and> length (es_hits sel) + es_hits_truncated sel = length cs"
  using r d
proof (rule selection_spec)
  fix ys
  let ?heads = "map hd (by_version cs)"
  assume h: "es_hits sel = take (max_hits policy) ?heads @ ys"
    and q: "within_quota policy \<lparr>sel_hits = es_hits sel, sel_bytes = sum_list (map ex_byte_length (es_hits sel))\<rparr>"
    and sub: "set (es_hits sel) \<subseteq> set cs" and dis: "distinct (map ex_source_chunk_id (es_hits sel))"
    and t: "es_versions_truncated sel = card (version_key ` set cs) - max_hits policy"
      "es_hits_truncated sel = length cs - length (es_hits sel)"
  have prefix: "take n (es_hits sel) = take n ?heads"
    using length_by_version [of cs] by (simp add: h n min_def)
  have "map version_key (take n ?heads) = take n (version_keys cs)" "list_all (shortest cs) (take n ?heads)"
    using heads_of_groups [of cs] in_set_takeD by (fastforce simp: take_map [symmetric] list_all_iff)+
  moreover have "length (es_hits sel) \<le> length cs"
  proof -
    have "card (set (es_hits sel)) = length (es_hits sel)" using dis by (simp add: distinct_card distinct_map)
    then show ?thesis using card_mono [OF finite_set sub] card_length [of cs] by simp
  qed
  ultimately show ?thesis using q sub dis t unfolding prefix
    by (simp add: within_quota_def list_all_iff subset_iff n)
qed

definition sample_candidate :: "nat \<Rightarrow> nat \<Rightarrow> string \<Rightarrow> exact_candidate" where
  "sample_candidate chunk version t = \<lparr>ex_document_id = 1, ex_source_chunk_id = chunk, ex_product_id = 1,
     ex_product_version_id = version, ex_display_name = lit ''d'', ex_chunk_utf8 = lit t, ex_source_type = TextSource\<rparr>"

definition sample_policy :: policy_identity where
  "sample_policy = \<lparr>contract_version = contract_v2, policy_sha256 = [], max_hits = 2, max_chunk_bytes = 9, max_total_bytes = 9\<rparr>"

definition sample_candidates :: "exact_candidate list" where
  "sample_candidates = [sample_candidate 1 1 ''long'', sample_candidate 2 1 ''a'', sample_candidate 3 2 ''bb'']"

theorem exact_prefix_fair_witness:
  "\<exists>sel. select_exact_prefix sample_candidates sample_policy = Inr sel
     \<and> map version_key (take 2 (es_hits sel)) = take 2 (version_keys sample_candidates)"
proof -
  have "case select_exact_prefix sample_candidates sample_policy of Inl _ \<Rightarrow> False | Inr _ \<Rightarrow> True"
    by (simp add: select_exact_prefix_def by_version_def sample_candidates_def sample_candidate_def sample_policy_def version_key_def
        sort_by_def compare_primary_def compare_b_def cmp_def ex_byte_length_def lit_def len_utf8_def less_eq_prod_def take_if_fits_def)
  then obtain sel where sel: "select_exact_prefix sample_candidates sample_policy = Inr sel"
    by (cases "select_exact_prefix sample_candidates sample_policy") simp_all
  moreover have "distinct (map ex_source_chunk_id sample_candidates)" "2 = min (max_hits sample_policy) (card (version_key ` set sample_candidates))"
    by (simp_all add: sample_candidates_def sample_candidate_def sample_policy_def version_key_def)
  ultimately show ?thesis using exact_prefix_fair by blast
qed

end
