(* ===== verification/Evidence_Batch_Props.thy ===== *)
theory Evidence_Batch_Props
  imports Evidence_Select_Props
begin

text \<open>
  Assembly and validation fit together: a batch assembled from well-formed rows and a complete rerank response passes its own
  validation.
\<close>

subsection \<open>Scores as texts\<close>

lemma str_less_append:
  "length a = length b \<Longrightarrow> str_less (a @ c) (b @ d) \<longleftrightarrow> str_less a b \<or> (a = b \<and> str_less c d)"
  by (induction a b rule: list_induct2) auto

lemma length_padded_digits [simp]: "length (padded_digits k n) = k"
  by (induction k arbitrary: n) simp_all

lemma padded_digits_order:
  "m < 10 ^ k \<Longrightarrow> n < 10 ^ k \<Longrightarrow> (str_less (padded_digits k m) (padded_digits k n) \<longleftrightarrow> m < n)
     \<and> (padded_digits k m = padded_digits k n \<longleftrightarrow> m = n)"
proof (induction k arbitrary: m n)
  case (Suc k)
  have lt: "m div 10 < 10 ^ k" "n div 10 < 10 ^ k" using Suc.prems by (simp_all add: less_mult_imp_div_less mult.commute)
  have eq: "m = n \<longleftrightarrow> m div 10 = n div 10 \<and> m mod 10 = n mod 10" by (metis div_mult_mod_eq)
  have less: "m < n \<longleftrightarrow> m div 10 < n div 10 \<or> (m div 10 = n div 10 \<and> m mod 10 < n mod 10)"
    using div_mult_mod_eq [of m 10] div_mult_mod_eq [of n 10] mod_less_divisor [of 10 m] mod_less_divisor [of 10 n]
    by (cases "m div 10" "n div 10" rule: linorder_cases) linarith+
  show ?case using Suc.IH [OF lt] unfolding eq less by (simp add: str_less_append)
qed simp

lemma fixed_score_cases:
  assumes "n \<le> 1000000"
  shows "fixed_score n = (if n = 1000000 then lit ''1.000000'' else lit ''0.'' @ padded_digits 6 n)"
proof (cases "n = 1000000")
  case True
  have "padded_digits 6 0 = lit ''000000''" by code_simp
  moreover have "nat_to_dec 1 = ''1''" by code_simp
  ultimately show ?thesis using True by (simp add: fixed_score_def) (simp add: lit_def)
next
  case False
  then have "n div 1000000 = 0" "n mod 1000000 = n" using assms by simp_all
  then show ?thesis using False by (simp add: fixed_score_def lit_def nat_to_dec.simps digit_char_def)
qed

lemma fixed_score_order:
  assumes "m \<le> 1000000" and "n \<le> 1000000"
  shows "str_less (fixed_score m) (fixed_score n) \<longleftrightarrow> m < n" and "fixed_score m = fixed_score n \<longleftrightarrow> m = n"
proof -
  have p: "m < 1000000 \<Longrightarrow> n < 1000000 \<Longrightarrow> (str_less (padded_digits 6 m) (padded_digits 6 n) \<longleftrightarrow> m < n)
     \<and> (padded_digits 6 m = padded_digits 6 n \<longleftrightarrow> m = n)"
    using padded_digits_order [of m 6 n] by simp
  show "str_less (fixed_score m) (fixed_score n) \<longleftrightarrow> m < n" "fixed_score m = fixed_score n \<longleftrightarrow> m = n"
    using p assms by (auto simp: fixed_score_cases lit_def)
qed

lemma padded_digits_ascii: "list_all is_ascii_digit (padded_digits k n)"
  by (induction k arbitrary: n) (simp_all add: is_ascii_digit_def)

lemma byte_len_digits: "list_all is_ascii_digit s \<Longrightarrow> byte_len s = length s"
  by (induction s) (simp_all add: is_ascii_digit_def len_utf8_def)

lemma fixed_score_unit: "n \<le> 1000000 \<Longrightarrow> is_unit_interval_millionths (fixed_score n)"
  using padded_digits_ascii [of 6 n] byte_len_digits [OF padded_digits_ascii, of 6 n]
  by (simp add: fixed_score_cases is_unit_interval_millionths_def starts_with_lit_def lit_def len_utf8_def)

subsection \<open>Rerank responses\<close>

lemma quantize_score_unit: "quantize_score v = Inr n \<Longrightarrow> n \<le> 1000000"
proof -
  assume "quantize_score v = Inr n"
  then obtain m e where n: "n = nat m * 1000000 div 10 ^ e" and m: "m \<le> 10 ^ e"
    by (auto simp: quantize_score_def split: json_score.splits if_splits)
  have "nat m * 1000000 \<le> 10 ^ e * 1000000" using m by (simp add: nat_le_iff)
  then have "nat m * 1000000 div 10 ^ e \<le> 10 ^ e * 1000000 div 10 ^ e" by (rule div_le_mono)
  then show "n \<le> 1000000" by (simp add: n)
qed

lemma fill_scores_spec:
  "fill_scores rs scores = Inr scores' \<Longrightarrow> (\<forall>n. Some n \<in> set scores \<longrightarrow> n \<le> 1000000) \<Longrightarrow>
     length scores' = length scores \<and> (\<forall>n. Some n \<in> set scores' \<longrightarrow> n \<le> 1000000)"
proof (induction rs scores rule: fill_scores.induct)
  case (2 i v rs scores)
  obtain n where n: "quantize_score v = Inr n" and rest: "fill_scores rs (scores[i := Some n]) = Inr scores'"
    and ok: "\<not> (i \<ge> length scores \<or> scores ! i \<noteq> None)"
    using "2.prems"(1) by (auto simp: rbind_eq_Inr split: if_splits)
  have "\<forall>k. Some k \<in> set (scores[i := Some n]) \<longrightarrow> k \<le> 1000000"
    using "2.prems"(2) quantize_score_unit [OF n] set_update_subset_insert [of scores i "Some n"] by blast
  then show ?case using "2.IH" [OF ok rest] by simp
qed simp

definition tail_order :: "reranked_candidate \<Rightarrow> reranked_candidate \<Rightarrow> bool" where
  "tail_order x y \<longleftrightarrow> score_millionths y < score_millionths x
     \<or> (score_millionths x = score_millionths y \<and> pre_rerank_rrf_rank (candidate x) \<le> pre_rerank_rrf_rank (candidate y))"

definition rerank_key :: "reranked_candidate \<Rightarrow> int \<times> nat \<times> uuid \<times> uuid \<times> uuid \<times> uuid" where
  "rerank_key r = (- int (score_millionths r), pre_rerank_rrf_rank (candidate r), sem_product_id (candidate r),
     sem_product_version_id (candidate r), sem_document_id (candidate r), sem_source_chunk_id (candidate r))"

lemma compare_reranked_key: "compare_reranked x y = cmp (rerank_key x) (rerank_key y)"
proof -
  have "cmp (score_millionths y) (score_millionths x) = cmp (- int (score_millionths x)) (- int (score_millionths y))"
    by (auto simp: cmp_def)
  then show ?thesis by (simp only: compare_reranked_def cmp_pair rerank_key_def)
qed

lemma rerank_key_order: "rerank_key x \<le> rerank_key y \<Longrightarrow> tail_order x y"
  by (auto simp: rerank_key_def less_eq_prod_def tail_order_def)

lemma apply_response_spec:
  assumes "apply_response resp ident cs = Inr rs"
  shows "mset (map candidate rs) = mset cs \<and> (\<forall>r \<in> set rs. score_millionths r \<le> 1000000) \<and> sorted_wrt tail_order rs"
proof -
  obtain scores where f: "fill_scores (results resp) (replicate (length cs) None) = Inr scores" and none: "None \<notin> set scores"
    and rs: "rs = sort_by compare_reranked (map (\<lambda>(c, s). \<lparr>candidate = c, score_millionths = the s\<rparr>) (zip cs scores))"
    using assms by (auto simp: apply_response_def rbind_eq_Inr split: if_splits)
  let ?zs = "map (\<lambda>(c, s). \<lparr>candidate = c, score_millionths = the s\<rparr>) (zip cs scores)"
  have len: "length scores = length cs" and unit: "\<And>n. Some n \<in> set scores \<Longrightarrow> n \<le> 1000000"
    using fill_scores_spec [OF f] by simp_all
  have "map candidate ?zs = cs" using len by (intro nth_equalityI) simp_all
  then have "mset (map candidate rs) = mset cs" unfolding rs by (metis mset_map mset_sort_by)
  moreover have "score_millionths r \<le> 1000000" if r: "r \<in> set rs" for r
  proof -
    obtain c s where cs: "(c, s) \<in> set (zip cs scores)" "r = \<lparr>candidate = c, score_millionths = the s\<rparr>"
      using r unfolding rs by auto
    then have "s \<in> set scores" by (meson in_set_zipE)
    moreover from this obtain n where "s = Some n" using none by (metis not_Some_eq)
    ultimately show ?thesis using unit cs(2) by simp
  qed
  moreover have "sorted_wrt (\<lambda>x y. rerank_key x \<le> rerank_key y) rs"
    unfolding rs by (rule sort_by_key_sorted) (rule compare_reranked_key)
  then have "sorted_wrt tail_order rs" by (rule sorted_wrt_mono_rel [rotated]) (rule rerank_key_order)
  ultimately show ?thesis by blast
qed

subsection \<open>Well-formed inputs\<close>

definition version_set :: "eligible_version list \<Rightarrow> (uuid \<times> uuid) set" where
  "version_set vs = (\<lambda>v. (ev_product_id v, ev_product_version_id v)) ` set vs"

definition versions_ok :: "rstr \<Rightarrow> eligible_version list \<Rightarrow> bool" where
  "versions_ok wk vs \<longleftrightarrow> distinct (map (\<lambda>v. (ev_product_id v, ev_product_version_id v)) vs)
     \<and> (\<forall>v \<in> set vs. ev_product_id v \<noteq> 0 \<and> ev_product_version_id v \<noteq> 0 \<and> ev_workspace_kind v = wk \<and> ev_display_name v \<noteq> [])"

lemma validate_versions_Inr:
  "versions_ok wk vs \<Longrightarrow> version_set vs \<inter> eligible = {} \<Longrightarrow> validate_versions wk eligible vs = Inr (eligible \<union> version_set vs)"
  by (induction vs arbitrary: eligible) (auto simp: versions_ok_def version_set_def)

definition exact_ok :: "(uuid \<times> uuid) set \<Rightarrow> exact_candidate \<Rightarrow> bool" where
  "exact_ok vers c \<longleftrightarrow> ex_document_id c \<noteq> 0 \<and> ex_source_chunk_id c \<noteq> 0 \<and> ex_product_id c \<noteq> 0 \<and> ex_product_version_id c \<noteq> 0
     \<and> ex_display_name c \<noteq> [] \<and> version_key c \<in> vers"

definition semantic_ok :: "(bytes \<Rightarrow> rstr) \<Rightarrow> (uuid \<times> uuid) set \<Rightarrow> semantic_candidate \<Rightarrow> bool" where
  "semantic_ok sha256 vers c \<longleftrightarrow> sem_document_id c \<noteq> 0 \<and> sem_source_chunk_id c \<noteq> 0 \<and> sem_product_id c \<noteq> 0 \<and> sem_product_version_id c \<noteq> 0
     \<and> sem_display_name c \<noteq> [] \<and> (sem_product_id c, sem_product_version_id c) \<in> vers
     \<and> sem_chunk_byte_length c = byte_len (sem_chunk_utf8 c) \<and> sem_chunk_sha256 c = sha256 (as_bytes (sem_chunk_utf8 c))"

definition media_rows_ok :: "(uuid \<Rightarrow> evidence_media option) \<Rightarrow> bool" where
  "media_rows_ok rows \<longleftrightarrow> (\<forall>k m. rows k = Some m \<longrightarrow>
     image_artifact_revision_id m \<noteq> 0 \<and> media_object_ref m = lit ''objects/'' @ media_sha256 m \<and> lower_hex64 (media_sha256 m)
     \<and> media_type m \<in> set [lit ''image/png'', lit ''image/jpeg'', lit ''image/webp'']
     \<and> media_width m > 0 \<and> media_height m > 0 \<and> bounding_region_is_object m \<noteq> Some False)"

subsection \<open>Hits\<close>

text \<open>What the validation asks of a hit apart from its media and its identity.\<close>

definition hit_ok :: "(bytes \<Rightarrow> rstr) \<Rightarrow> rstr \<Rightarrow> policy_identity \<Rightarrow> nat \<Rightarrow> (uuid \<times> uuid) set \<Rightarrow> nat \<Rightarrow> evidence_hit \<Rightarrow> bool" where
  "hit_ok sha256 wk policy n vers i h \<longleftrightarrow> \<not> hit_invalid sha256 wk policy n vers {} i (h\<lparr>source_type := TextSource, media := None\<rparr>)"

definition identity :: "evidence_hit \<Rightarrow> uuid \<times> uuid" where
  "identity h = (document_id h, source_chunk_id h)"

lemma hit_invalid_iff:
  "hit_invalid sha256 wk policy n vers ids i h \<longleftrightarrow> \<not> hit_ok sha256 wk policy n vers i h \<or> \<not> media_valid h \<or> identity h \<in> ids"
proof -
  have "media_valid (h\<lparr>source_type := TextSource, media := None\<rparr>)" by (simp add: media_valid_def)
  then show ?thesis by (auto simp: hit_ok_def hit_invalid_def identity_def)
qed

lemma exact_hit_ok:
  assumes "exact_ok vers c" and "ex_byte_length c \<le> max_chunk_bytes policy" and "i < n"
  shows "hit_ok sha256 wk policy n vers i (exact_candidate_hit sha256 wk i c)"
  using assms
  by (simp add: hit_ok_def hit_invalid_def media_valid_def exact_candidate_hit_def exact_ok_def version_key_def ex_byte_length_def)

lemma semantic_hit_ok:
  assumes "semantic_ok sha256 vers (candidate r)" and "sem_chunk_byte_length (candidate r) \<le> max_chunk_bytes policy" and "n \<le> i"
    and "score_millionths r \<le> 1000000" and "0 < pre_rerank_rrf_rank (candidate r)"
  shows "hit_ok sha256 wk policy n vers i (semantic_candidate_hit wk i r)"
  using assms fixed_score_unit [OF assms(4)]
  by (simp add: hit_ok_def hit_invalid_def media_valid_def semantic_candidate_hit_def semantic_ok_def Let_def)

text \<open>Media change nothing else of a hit.\<close>

definition same_hit :: "evidence_hit \<Rightarrow> evidence_hit \<Rightarrow> bool" where
  "same_hit h h' \<longleftrightarrow> h' = h\<lparr>media := media h'\<rparr>"

lemma same_hit_fields:
  assumes "same_hit h h'"
  shows "identity h' = identity h" "rrf_rank h' = rrf_rank h" "retrieval_raw_score h' = retrieval_raw_score h"
    "chunk_utf8 h' = chunk_utf8 h" "product_id h' = product_id h" "product_version_id h' = product_version_id h"
    "hit_ok sha256 wk policy n vers i h' = hit_ok sha256 wk policy n vers i h"
proof -
  obtain m where h': "h' = h\<lparr>media := m\<rparr>" using assms unfolding same_hit_def by blast
  show "identity h' = identity h" "rrf_rank h' = rrf_rank h" "retrieval_raw_score h' = retrieval_raw_score h"
    "chunk_utf8 h' = chunk_utf8 h" "product_id h' = product_id h" "product_version_id h' = product_version_id h"
    "hit_ok sha256 wk policy n vers i h' = hit_ok sha256 wk policy n vers i h"
    by (simp_all add: h' identity_def hit_ok_def)
qed

lemma hydrate_media_spec:
  assumes "hydrate_media rows hs = Inr hs'" and "media_rows_ok rows"
  shows "list_all2 (\<lambda>h h'. same_hit h h' \<and> media_valid h') hs hs'"
  using assms(1)
proof (induction hs arbitrary: hs')
  case (Cons h hs)
  obtain h1 hs1 where hs': "hs' = h1 # hs1" and rest: "hydrate_media rows hs = Inr hs1"
    and h1: "(if source_type h = ImageOcrSource
            then (case rows (source_chunk_id h) of
                    None \<Rightarrow> Inl (Unavailable ''image OCR hit lacks immutable media mapping'')
                  | Some m \<Rightarrow> Inr (h\<lparr>media := Some (m\<lparr>media_display_name := display_name h\<rparr>)\<rparr>))
            else Inr (h\<lparr>media := None\<rparr>)) = Inr h1"
    using Cons.prems by (auto simp: rbind_eq_Inr)
  have "same_hit h h1 \<and> media_valid h1"
  proof (cases "source_type h = ImageOcrSource")
    case True
    then obtain m where m: "rows (source_chunk_id h) = Some m" "h1 = h\<lparr>media := Some (m\<lparr>media_display_name := display_name h\<rparr>)\<rparr>"
      using h1 by (auto split: option.splits)
    then show ?thesis using True assms(2) by (auto simp: same_hit_def media_valid_def media_rows_ok_def)
  next
    case False
    then have "h1 = h\<lparr>media := None\<rparr>" using h1 by simp
    then show ?thesis using False by (cases "source_type h") (simp_all add: same_hit_def media_valid_def)
  qed
  then show ?case using Cons.IH [OF rest] by (simp add: hs')
qed auto

subsection \<open>Validation loops\<close>

lemma validate_hits_Inr:
  assumes "\<And>i. i < length hs \<Longrightarrow> hit_ok sha256 wk policy n vers (index + i) (hs ! i) \<and> media_valid (hs ! i)"
    and "distinct (map identity hs)" and "identity ` set hs \<inter> vs_identities s = {}"
    and "vs_bytes s + sum_list (map (\<lambda>h. byte_len (chunk_utf8 h)) hs) < 2 ^ 64"
  shows "\<exists>s'. validate_hits sha256 wk policy n vers index hs s = Inr s'
     \<and> vs_bytes s' = vs_bytes s + sum_list (map (\<lambda>h. byte_len (chunk_utf8 h)) hs)
     \<and> vs_versions s' = vs_versions s \<union> (\<lambda>h. (product_id h, product_version_id h)) ` set (take (n - index) hs)"
  using assms
proof (induction hs arbitrary: index s)
  case (Cons h hs)
  let ?s = "\<lparr>vs_identities = insert (document_id h, source_chunk_id h) (vs_identities s),
      vs_versions = (if index < n then insert (product_id h, product_version_id h) (vs_versions s) else vs_versions s),
      vs_bytes = vs_bytes s + byte_len (chunk_utf8 h)\<rparr>"
  have "hit_ok sha256 wk policy n vers (Suc index + i) (hs ! i) \<and> media_valid (hs ! i)" if "i < length hs" for i
    using Cons.prems(1) [of "Suc i"] that by simp
  moreover have "identity ` set hs \<inter> vs_identities ?s = {}"
    using Cons.prems(2,3) by (auto simp: identity_def)
  ultimately obtain s' where s': "validate_hits sha256 wk policy n vers (Suc index) hs ?s = Inr s'"
    "vs_bytes s' = vs_bytes ?s + sum_list (map (\<lambda>h. byte_len (chunk_utf8 h)) hs)"
    "vs_versions s' = vs_versions ?s \<union> (\<lambda>h. (product_id h, product_version_id h)) ` set (take (n - Suc index) hs)"
    using Cons.IH [of "Suc index" ?s] Cons.prems(2,4) by auto
  have "\<not> hit_invalid sha256 wk policy n vers (vs_identities s) index h"
    using Cons.prems(1) [of 0] Cons.prems(3) by (auto simp: hit_invalid_iff)
  then have "validate_hits sha256 wk policy n vers index (h # hs) s = Inr s'" using s'(1) Cons.prems(4) by simp
  then show ?case using s'(2,3) by (auto simp: take_Cons' split: if_splits)
qed simp

definition suffix_order :: "evidence_hit \<Rightarrow> evidence_hit \<Rightarrow> bool" where
  "suffix_order p h \<longleftrightarrow> \<not> str_less (retrieval_raw_score p) (retrieval_raw_score h)
     \<and> \<not> (retrieval_raw_score p = retrieval_raw_score h \<and> the (rrf_rank p) > the (rrf_rank h))"

lemma validate_semantic_Inr:
  assumes "distinct (map (the \<circ> rrf_rank) hs)" and "(the \<circ> rrf_rank) ` set hs \<inter> ranks = {}"
    and "sorted_wrt suffix_order hs" and "previous = None \<or> (\<exists>p. previous = Some p \<and> (\<forall>h \<in> set hs. suffix_order p h))"
  shows "validate_semantic ranks previous hs = Inr ()"
  using assms
proof (induction hs arbitrary: ranks previous)
  case (Cons h hs)
  have "validate_semantic (insert (the (rrf_rank h)) ranks) (Some h) hs = Inr ()"
    using Cons.prems by (intro Cons.IH) auto
  then show ?case using Cons.prems by (auto simp: suffix_order_def)
qed simp

subsection \<open>The semantic tail\<close>

lemma append_tail_spec:
  assumes "append_tail wk policy rs hs used truncated = (hs', t)"
  shows "\<exists>rs'. subseq rs' rs \<and> hs' = hs @ map (\<lambda>(i, r). semantic_candidate_hit wk i r) (enumerate (length hs) rs')
     \<and> length hs' \<le> max (length hs) (max_hits policy)
     \<and> (\<forall>r \<in> set rs'. sem_chunk_byte_length (candidate r) \<le> max_chunk_bytes policy)
     \<and> used + sum_list (map (\<lambda>r. sem_chunk_byte_length (candidate r)) rs') \<le> max used (max_total_bytes policy)"
  using assms
proof (induction rs arbitrary: hs used truncated)
  case Nil
  then show ?case by (intro exI [of _ "[]"]) simp
next
  case (Cons r rs)
  let ?fits = "length hs < max_hits policy \<and> sem_chunk_byte_length (candidate r) \<le> max_chunk_bytes policy
      \<and> used + sem_chunk_byte_length (candidate r) < 2 ^ 64 \<and> used + sem_chunk_byte_length (candidate r) \<le> max_total_bytes policy"
  show ?case
  proof (cases ?fits)
    case True
    then have "append_tail wk policy rs (hs @ [semantic_candidate_hit wk (length hs) r])
        (used + sem_chunk_byte_length (candidate r)) truncated = (hs', t)" using Cons.prems by simp
    from Cons.IH [OF this] obtain rs' where rs': "subseq rs' rs"
      "hs' = (hs @ [semantic_candidate_hit wk (length hs) r]) @ map (\<lambda>(i, r). semantic_candidate_hit wk i r) (enumerate (Suc (length hs)) rs')"
      "length hs' \<le> max (Suc (length hs)) (max_hits policy)" "\<forall>r \<in> set rs'. sem_chunk_byte_length (candidate r) \<le> max_chunk_bytes policy"
      "used + sem_chunk_byte_length (candidate r) + sum_list (map (\<lambda>r. sem_chunk_byte_length (candidate r)) rs')
        \<le> max (used + sem_chunk_byte_length (candidate r)) (max_total_bytes policy)" by auto
    then show ?thesis using True by (intro exI [of _ "r # rs'"]) auto
  next
    case False
    then have "append_tail wk policy rs hs used (min (2 ^ 64 - 1) (truncated + 1)) = (hs', t)" using Cons.prems by auto
    from Cons.IH [OF this] obtain rs' where rs': "subseq rs' rs"
      "hs' = hs @ map (\<lambda>(i, r). semantic_candidate_hit wk i r) (enumerate (length hs) rs')"
      "length hs' \<le> max (length hs) (max_hits policy)" "\<forall>r \<in> set rs'. sem_chunk_byte_length (candidate r) \<le> max_chunk_bytes policy"
      "used + sum_list (map (\<lambda>r. sem_chunk_byte_length (candidate r)) rs') \<le> max used (max_total_bytes policy)" by blast
    then show ?thesis by (intro exI [of _ rs'] conjI list_emb_Cons) assumption+
  qed
qed

lemma rank_candidates_spec:
  assumes "c \<in> set (rank_candidates k cs)"
  shows "0 < pre_rerank_rrf_rank c" and "\<exists>d \<in> set cs. c = d\<lparr>pre_rerank_rrf_rank := pre_rerank_rrf_rank c\<rparr>"
proof -
  obtain n d where d: "(n, d) \<in> set (enumerate 1 (take k (sort_by compare_candidates cs)))" "c = d\<lparr>pre_rerank_rrf_rank := n\<rparr>"
    using assms by (auto simp: rank_candidates_def)
  then have "n \<in> set [1..<1 + length (take k (sort_by compare_candidates cs))]" "d \<in> set (take k (sort_by compare_candidates cs))"
    unfolding enumerate_eq_zip by (blast dest: set_zip_leftD set_zip_rightD)+
  then have "1 \<le> n" "d \<in> set cs"
    using in_set_takeD [of d k "sort_by compare_candidates cs"] by (simp only: set_upt atLeastLessThan_iff, simp)
  then show "0 < pre_rerank_rrf_rank c" "\<exists>d \<in> set cs. c = d\<lparr>pre_rerank_rrf_rank := pre_rerank_rrf_rank c\<rparr>"
    using d(2) by auto
qed

lemma rank_candidates_distinct:
  "distinct (map pre_rerank_rrf_rank (rank_candidates k cs))"
  "distinct (map sem_source_chunk_id cs) \<Longrightarrow> distinct (map sem_source_chunk_id (rank_candidates k cs))"
proof -
  let ?xs = "take k (sort_by compare_candidates cs)"
  have "map pre_rerank_rrf_rank (rank_candidates k cs) = map Suc [0..<length ?xs]"
    unfolding rank_candidates_def by (intro nth_equalityI) (simp_all add: nth_enumerate_eq)
  then show "distinct (map pre_rerank_rrf_rank (rank_candidates k cs))" by (simp only: distinct_map distinct_upt) simp
  have "map sem_source_chunk_id (rank_candidates k cs) = map sem_source_chunk_id ?xs"
    unfolding rank_candidates_def by (intro nth_equalityI) (simp_all add: nth_enumerate_eq)
  moreover have "distinct (map sem_source_chunk_id (sort_by compare_candidates cs))" if "distinct (map sem_source_chunk_id cs)"
    using that by (metis mset_map mset_sort_by mset_eq_imp_distinct_iff)
  ultimately show "distinct (map sem_source_chunk_id cs) \<Longrightarrow> distinct (map sem_source_chunk_id (rank_candidates k cs))"
    by (simp add: take_map [symmetric] distinct_take)
qed

text \<open>What the assembly needs of reranked candidates, and that a complete response gives it.\<close>

definition reranked_ok :: "(bytes \<Rightarrow> rstr) \<Rightarrow> (uuid \<times> uuid) set \<Rightarrow> uuid set \<Rightarrow> reranked_candidate list \<Rightarrow> bool" where
  "reranked_ok sha256 vers taken rs \<longleftrightarrow> sorted_wrt tail_order rs
     \<and> distinct (map (\<lambda>r. pre_rerank_rrf_rank (candidate r)) rs) \<and> distinct (map (\<lambda>r. sem_source_chunk_id (candidate r)) rs)
     \<and> (\<forall>r \<in> set rs. score_millionths r \<le> 1000000 \<and> 0 < pre_rerank_rrf_rank (candidate r) \<and> semantic_ok sha256 vers (candidate r)
          \<and> sem_source_chunk_id (candidate r) \<notin> taken)"

lemma response_reranked_ok:
  assumes r: "apply_response resp ident (rank_candidates k cs) = Inr rs" and ok: "\<forall>c \<in> set cs. semantic_ok sha256 vers c"
    and d: "distinct (map sem_source_chunk_id cs)" and out: "sem_source_chunk_id ` set cs \<inter> taken = {}"
  shows "reranked_ok sha256 vers taken rs"
proof -
  note resp = apply_response_spec [OF r]
  have m: "mset (map f (map candidate rs)) = mset (map f (rank_candidates k cs))" for f :: "semantic_candidate \<Rightarrow> nat"
    using resp by (metis mset_map)
  have "distinct (map pre_rerank_rrf_rank (map candidate rs))" "distinct (map sem_source_chunk_id (map candidate rs))"
    using mset_eq_imp_distinct_iff [OF m] rank_candidates_distinct(1) [of k cs] rank_candidates_distinct(2) [OF d, of k] by blast+
  moreover have "0 < pre_rerank_rrf_rank (candidate r) \<and> semantic_ok sha256 vers (candidate r) \<and> sem_source_chunk_id (candidate r) \<notin> taken"
    if r: "r \<in> set rs" for r
  proof -
    have "candidate r \<in> set (rank_candidates k cs)" using r resp by (metis image_eqI list.set_map mset_eq_setD)
    note c = rank_candidates_spec [OF this]
    then obtain e n where "e \<in> set cs" "candidate r = e\<lparr>pre_rerank_rrf_rank := n\<rparr>" by blast
    then have "semantic_ok sha256 vers (candidate r)" "sem_source_chunk_id (candidate r) \<notin> taken"
      using ok out by (auto simp: semantic_ok_def)
    then show ?thesis using c(1) by blast
  qed
  ultimately show ?thesis using resp by (simp add: reranked_ok_def comp_def)
qed

subsection \<open>A batch passes its validation\<close>

definition policy_ok :: "policy_identity \<Rightarrow> bool" where
  "policy_ok policy \<longleftrightarrow> contract_version policy = contract_v2 \<and> 0 < max_hits policy \<and> max_hits policy < 2 ^ 32
     \<and> 0 < max_chunk_bytes policy \<and> 0 < max_total_bytes policy \<and> max_total_bytes policy < 2 ^ 64"

definition all_hits_of :: "(bytes \<Rightarrow> rstr) \<Rightarrow> rstr \<Rightarrow> exact_candidate list \<Rightarrow> reranked_candidate list \<Rightarrow> evidence_hit list" where
  "all_hits_of sha256 wk xs rs = map (\<lambda>(i, c). exact_candidate_hit sha256 wk i c) (enumerate 0 xs)
     @ map (\<lambda>(i, r). semantic_candidate_hit wk i r) (enumerate (length xs) rs)"

lemma all_hits_nth:
  "i < length xs \<Longrightarrow> all_hits_of sha256 wk xs rs ! i = exact_candidate_hit sha256 wk i (xs ! i)"
  "\<not> i < length xs \<Longrightarrow> i < length xs + length rs \<Longrightarrow>
     all_hits_of sha256 wk xs rs ! i = semantic_candidate_hit wk i (rs ! (i - length xs))"
  by (simp_all add: all_hits_of_def nth_append nth_enumerate_eq)

lemma length_all_hits [simp]: "length (all_hits_of sha256 wk xs rs) = length xs + length rs"
  by (simp add: all_hits_of_def)

lemma map_enumerate: "(\<And>i x. f (g i x) = h x) \<Longrightarrow> map f (map (\<lambda>(i, x). g i x) (enumerate n xs)) = map h xs"
  by (intro nth_equalityI) (simp_all add: nth_enumerate_eq)

lemma all_hits_chunk_ids:
  "map source_chunk_id (all_hits_of sha256 wk xs rs) = map ex_source_chunk_id xs @ map (\<lambda>r. sem_source_chunk_id (candidate r)) rs"
  unfolding all_hits_of_def map_append
  by (subst map_enumerate [where h = ex_source_chunk_id], simp add: exact_candidate_hit_def,
      subst map_enumerate [where h = "\<lambda>r. sem_source_chunk_id (candidate r)"], simp add: semantic_candidate_hit_def Let_def, simp)

lemma all_hits_bytes:
  assumes "\<forall>r \<in> set rs. semantic_ok sha256 vers (candidate r)"
  shows "map (\<lambda>h. byte_len (chunk_utf8 h)) (all_hits_of sha256 wk xs rs)
     = map ex_byte_length xs @ map (\<lambda>r. sem_chunk_byte_length (candidate r)) rs"
proof -
  have "map (\<lambda>h. byte_len (chunk_utf8 h)) (all_hits_of sha256 wk xs rs)
      = map ex_byte_length xs @ map (\<lambda>r. byte_len (sem_chunk_utf8 (candidate r))) rs"
    unfolding all_hits_of_def map_append
    by (subst map_enumerate [where h = ex_byte_length], simp add: exact_candidate_hit_def ex_byte_length_def,
        subst map_enumerate [where h = "\<lambda>r. byte_len (sem_chunk_utf8 (candidate r))"], simp add: semantic_candidate_hit_def Let_def, simp)
  then show ?thesis using assms by (simp add: semantic_ok_def)
qed

lemma distinct_identity: "distinct (map source_chunk_id hs) \<Longrightarrow> distinct (map identity hs)"
  by (auto simp: distinct_map identity_def inj_on_def)

lemma set_enumerate_snd: "(i, x) \<in> set (enumerate n xs) \<Longrightarrow> x \<in> set xs"
  unfolding enumerate_eq_zip by (rule set_zip_rightD)

lemma semantic_suffix_sorted:
  assumes "sorted_wrt tail_order rs" and "\<forall>r \<in> set rs. score_millionths r \<le> 1000000"
  shows "sorted_wrt suffix_order (map (\<lambda>(i, r). semantic_candidate_hit wk i r) (enumerate n rs))"
  using assms
proof (induction rs arbitrary: n)
  case (Cons r rs)
  have "suffix_order (semantic_candidate_hit wk n r) (semantic_candidate_hit wk i x)" if "x \<in> set rs" for i x
    using Cons.prems that fixed_score_order [of "score_millionths r" "score_millionths x"]
    by (auto simp: suffix_order_def semantic_candidate_hit_def Let_def tail_order_def)
  then show ?case using Cons.IH [of "Suc n"] Cons.prems by (auto dest: set_enumerate_snd)
qed simp

lemma reranked_ok_subseq:
  assumes "reranked_ok sha256 vers taken rs" and sub: "subseq rs' rs"
  shows "reranked_ok sha256 vers taken rs'"
proof -
  have "sorted_wrt tail_order rs'" using assms(1) sub
    by (induction rule: list_emb.induct [OF sub]) (auto simp: reranked_ok_def dest: subseq_set)
  then show ?thesis
    using assms(1) subseq_set [OF sub] subseq_distinct [OF subseq_map [OF sub]] unfolding reranked_ok_def by blast
qed

lemma metrics_consistent:
  assumes r: "select_exact_prefix cs policy = Inr sel" and d: "distinct (map ex_source_chunk_id cs)" and pos: "0 < max_hits policy"
    and sub: "version_key ` set cs \<subseteq> vers" and fin: "finite vers"
  shows "es_versions_truncated sel \<le> card vers - max_hits policy"
    and "es_versions_truncated sel \<le> es_hits_truncated sel"
    and "es_hits sel = [] \<Longrightarrow> es_versions_truncated sel = 0 \<and> es_hits_truncated sel = 0"
    and "0 < es_versions_truncated sel \<Longrightarrow> length (es_hits sel) = max_hits policy
       \<and> card (version_key ` set (es_hits sel)) = max_hits policy"
proof -
  obtain ys where h: "es_hits sel = take (max_hits policy) (map hd (by_version cs)) @ ys"
    and q: "within_quota policy \<lparr>sel_hits = es_hits sel, sel_bytes = sum_list (map ex_byte_length (es_hits sel))\<rparr>"
    and t: "es_versions_truncated sel = card (version_key ` set cs) - max_hits policy"
      "es_hits_truncated sel = length cs - length (es_hits sel)"
    using selection_spec [OF r d] by metis
  have len: "length (es_hits sel) \<le> max_hits policy" using q by (simp add: within_quota_def)
  have vers: "card (version_key ` set cs) \<le> length cs" by (metis card_image_le card_length finite_set le_trans)
  show "es_versions_truncated sel \<le> card vers - max_hits policy" using card_mono [OF fin sub] t by simp
  show "es_versions_truncated sel \<le> es_hits_truncated sel" using t len vers by simp
  show "es_versions_truncated sel = 0 \<and> es_hits_truncated sel = 0" if "es_hits sel = []"
  proof -
    have "by_version cs = []" using h that pos by simp
    then have "cs = []" using mset_by_version [of cs] by simp
    then show ?thesis using t by simp
  qed
  assume "0 < es_versions_truncated sel"
  then have more: "max_hits policy < length (by_version cs)" using t by (simp add: length_by_version)
  then have ys: "ys = []" using h len by simp
  have "map version_key (es_hits sel) = take (max_hits policy) (version_keys cs)"
    using heads_of_groups [of cs] by (simp add: h ys take_map [symmetric])
  then have "distinct (map version_key (es_hits sel))" by (simp add: distinct_take)
  then show "length (es_hits sel) = max_hits policy \<and> card (version_key ` set (es_hits sel)) = max_hits policy"
    using more distinct_card [of "map version_key (es_hits sel)"] by (simp add: h ys)
qed

lemma all_hits_ok:
  assumes xs: "\<forall>x \<in> set xs. exact_ok vers x \<and> ex_byte_length x \<le> max_chunk_bytes policy"
    and rs: "reranked_ok sha256 vers taken rs" and chunk: "\<forall>r \<in> set rs. sem_chunk_byte_length (candidate r) \<le> max_chunk_bytes policy"
    and i: "i < length xs + length rs"
  shows "hit_ok sha256 wk policy (length xs) vers i (all_hits_of sha256 wk xs rs ! i)"
proof (cases "i < length xs")
  case True
  then show ?thesis using xs by (simp add: all_hits_nth(1) exact_hit_ok)
next
  case False
  then have "rs ! (i - length xs) \<in> set rs" using i by simp
  then show ?thesis using rs chunk False i by (simp add: all_hits_nth(2) semantic_hit_ok reranked_ok_def)
qed

lemma all_hits_distinct:
  assumes "set xs \<subseteq> set cs" and "distinct (map ex_source_chunk_id xs)"
    and "reranked_ok sha256 vers (ex_source_chunk_id ` set cs) rs"
  shows "distinct (map identity (all_hits_of sha256 wk xs rs))"
proof -
  have "set (map ex_source_chunk_id xs) \<inter> set (map (\<lambda>r. sem_source_chunk_id (candidate r)) rs) = {}"
    using assms(1,3) by (auto simp: reranked_ok_def) (metis image_eqI subsetD)
  then show ?thesis using assms(2,3) by (intro distinct_identity) (simp add: all_hits_chunk_ids reranked_ok_def)
qed

lemma all_hits_prefix_versions:
  "(\<lambda>h. (product_id h, product_version_id h)) ` set (take (length xs) (all_hits_of sha256 wk xs rs)) = version_key ` set xs"
proof -
  have "map (\<lambda>h. (product_id h, product_version_id h)) (take (length xs) (all_hits_of sha256 wk xs rs)) = map version_key xs"
    by (simp add: all_hits_of_def) (intro nth_equalityI, simp_all add: nth_enumerate_eq exact_candidate_hit_def version_key_def)
  then show ?thesis by (metis list.set_map)
qed

lemma all_hits_suffix:
  assumes "reranked_ok sha256 vers taken rs"
  shows "sorted_wrt suffix_order (drop (length xs) (all_hits_of sha256 wk xs rs))"
    and "distinct (map (the \<circ> rrf_rank) (drop (length xs) (all_hits_of sha256 wk xs rs)))"
proof -
  have suffix: "drop (length xs) (all_hits_of sha256 wk xs rs) = map (\<lambda>(i, r). semantic_candidate_hit wk i r) (enumerate (length xs) rs)"
    by (simp add: all_hits_of_def)
  show "sorted_wrt suffix_order (drop (length xs) (all_hits_of sha256 wk xs rs))"
    unfolding suffix using assms by (intro semantic_suffix_sorted) (auto simp: reranked_ok_def)
  have "map (the \<circ> rrf_rank) (drop (length xs) (all_hits_of sha256 wk xs rs)) = map (\<lambda>r. pre_rerank_rrf_rank (candidate r)) rs"
    unfolding suffix by (rule map_enumerate) (simp add: semantic_candidate_hit_def Let_def)
  then show "distinct (map (the \<circ> rrf_rank) (drop (length xs) (all_hits_of sha256 wk xs rs)))"
    using assms by (simp add: reranked_ok_def)
qed

text \<open>Hydrated hits have the fields of the hits, so the validation sees the same values.\<close>

lemma validate_hydrated:
  assumes rel: "list_all2 (\<lambda>h h'. same_hit h h' \<and> media_valid h') all hs"
    and ok: "\<And>i. i < length all \<Longrightarrow> hit_ok sha256 wk policy n vers i (all ! i)" and dist: "distinct (map identity all)"
    and small: "sum_list (map (\<lambda>h. byte_len (chunk_utf8 h)) all) < 2 ^ 64"
    and sorted: "sorted_wrt suffix_order (drop n all)" and ranks: "distinct (map (the \<circ> rrf_rank) (drop n all))"
  shows "\<exists>s. validate_hits sha256 wk policy n vers 0 hs \<lparr>vs_identities = {}, vs_versions = {}, vs_bytes = 0\<rparr> = Inr s
     \<and> vs_bytes s = sum_list (map (\<lambda>h. byte_len (chunk_utf8 h)) all)
     \<and> vs_versions s = (\<lambda>h. (product_id h, product_version_id h)) ` set (take n all)
     \<and> validate_semantic {} None (drop n hs) = Inr ()"
proof -
  have len: "length hs = length all" using list_all2_lengthD [OF rel] by simp
  have nth: "same_hit (all ! i) (hs ! i)" "media_valid (hs ! i)" if "i < length all" for i
    using rel that by (simp_all add: list_all2_conv_all_nth)
  have field: "map f hs = map f all" if "\<And>h h'. same_hit h h' \<Longrightarrow> f h' = f h" for f :: "evidence_hit \<Rightarrow> 'b"
    using that nth len by (intro nth_equalityI) simp_all
  have bytes: "map (\<lambda>h. byte_len (chunk_utf8 h)) hs = map (\<lambda>h. byte_len (chunk_utf8 h)) all" by (rule field) (simp add: same_hit_fields)
  have ids: "map identity hs = map identity all" by (rule field) (simp add: same_hit_fields)
  have vers: "map (\<lambda>h. (product_id h, product_version_id h)) (take n hs) = map (\<lambda>h. (product_id h, product_version_id h)) (take n all)"
    using field [of "\<lambda>h. (product_id h, product_version_id h)"] by (simp add: same_hit_fields flip: take_map)
  have rk: "map (the \<circ> rrf_rank) (drop n hs) = map (the \<circ> rrf_rank) (drop n all)"
    using field [of "the \<circ> rrf_rank"] by (simp add: same_hit_fields flip: drop_map)
  have "sorted_wrt suffix_order (drop n hs)"
    unfolding sorted_wrt_iff_nth_less
  proof (intro allI impI)
    fix i j assume ij: "i < j" "j < length (drop n hs)"
    then have "suffix_order (drop n all ! i) (drop n all ! j)" using sorted len by (simp add: sorted_wrt_iff_nth_less)
    moreover have "same_hit (all ! (n + i)) (hs ! (n + i))" "same_hit (all ! (n + j)) (hs ! (n + j))"
      using ij len nth(1) by simp_all
    ultimately show "suffix_order (drop n hs ! i) (drop n hs ! j)"
      using ij len by (simp add: suffix_order_def same_hit_fields)
  qed
  then have "validate_semantic {} None (drop n hs) = Inr ()" using ranks rk by (intro validate_semantic_Inr) simp_all
  moreover have hok: "hit_ok sha256 wk policy n vers i (hs ! i)" if "i < length all" for i
    using ok [OF that] same_hit_fields(7) [OF nth(1) [OF that]] by blast
  moreover have "\<exists>s. validate_hits sha256 wk policy n vers 0 hs \<lparr>vs_identities = {}, vs_versions = {}, vs_bytes = 0\<rparr> = Inr s
     \<and> vs_bytes s = 0 + sum_list (map (\<lambda>h. byte_len (chunk_utf8 h)) hs)
     \<and> vs_versions s = {} \<union> (\<lambda>h. (product_id h, product_version_id h)) ` set (take (n - 0) hs)"
    using validate_hits_Inr [of hs sha256 wk policy n vers 0 "\<lparr>vs_identities = {}, vs_versions = {}, vs_bytes = 0\<rparr>"]
      hok nth(2) len ids dist small bytes by simp
  moreover have "(\<lambda>h. (product_id h, product_version_id h)) ` set (take n hs) = (\<lambda>h. (product_id h, product_version_id h)) ` set (take n all)"
    using arg_cong [OF vers, of set] by simp
  ultimately show ?thesis by (simp add: bytes)
qed

lemma assembled_validates:
  assumes pol: "policy_ok policy" and wk: "wk \<in> set [lit ''product_line'', lit ''company'']" and vs: "versions_ok wk versions"
    and cs: "\<forall>c \<in> set cs. exact_ok (version_set versions) c" and d: "distinct (map ex_source_chunk_id cs)"
    and r: "select_exact_prefix cs policy = Inr sel"
    and rs: "reranked_ok sha256 (version_set versions) (ex_source_chunk_id ` set cs) rs"
    and chunk: "\<forall>r \<in> set rs. sem_chunk_byte_length (candidate r) \<le> max_chunk_bytes policy"
    and len: "length (es_hits sel) + length rs \<le> max_hits policy"
    and bytes: "sum_list (map ex_byte_length (es_hits sel)) + sum_list (map (\<lambda>r. sem_chunk_byte_length (candidate r)) rs) \<le> max_total_bytes policy"
    and hyd: "hydrate_media rows (all_hits_of sha256 wk (es_hits sel) rs) = Inr hs" and rows: "media_rows_ok rows"
  shows "validate_evidence_batch sha256 wk \<lparr>batch_schema_version = schema_v3, eligible_versions = versions, hits = hs,
     exact_prefix_hit_count = length (es_hits sel), exact_versions_truncated = es_versions_truncated sel,
     exact_hits_truncated = es_hits_truncated sel, semantic_hits_truncated = t\<rparr> policy = Inr ()"
proof -
  let ?xs = "es_hits sel" and ?vers = "version_set versions"
  let ?all = "all_hits_of sha256 wk ?xs rs"
  obtain ys where q: "set ?xs \<subseteq> set cs" "distinct (map ex_source_chunk_id ?xs)"
    and wq: "within_quota policy \<lparr>sel_hits = ?xs, sel_bytes = sum_list (map ex_byte_length ?xs)\<rparr>"
    using selection_spec [OF r d] by metis
  have xs: "\<forall>x \<in> set ?xs. exact_ok ?vers x \<and> ex_byte_length x \<le> max_chunk_bytes policy"
    using q cs wq by (auto simp: within_quota_def)
  have sem: "\<forall>r \<in> set rs. semantic_ok sha256 ?vers (candidate r)" using rs by (simp add: reranked_ok_def)
  have tot: "sum_list (map (\<lambda>h. byte_len (chunk_utf8 h)) ?all) \<le> max_total_bytes policy"
    using bytes all_hits_bytes [OF sem, of wk ?xs] by simp
  have rel: "list_all2 (\<lambda>h h'. same_hit h h' \<and> media_valid h') ?all hs" by (rule hydrate_media_spec [OF hyd rows])
  have small: "sum_list (map (\<lambda>h. byte_len (chunk_utf8 h)) ?all) < 2 ^ 64" using tot pol by (simp add: policy_ok_def)
  obtain s where s: "validate_hits sha256 wk policy (length ?xs) ?vers 0 hs \<lparr>vs_identities = {}, vs_versions = {}, vs_bytes = 0\<rparr> = Inr s"
    "vs_bytes s \<le> max_total_bytes policy" "vs_versions s = version_key ` set ?xs" "validate_semantic {} None (drop (length ?xs) hs) = Inr ()"
    using validate_hydrated [OF rel all_hits_ok [OF xs rs chunk] all_hits_distinct [OF q rs] small all_hits_suffix [OF rs]]
      all_hits_prefix_versions tot by auto
  have "version_key ` set cs \<subseteq> ?vers" using cs by (auto simp: exact_ok_def)
  note m = metrics_consistent [OF r d _ this]
  have "validate_versions wk {} versions = Inr ?vers" using validate_versions_Inr [OF vs, of "{}"] by simp
  moreover have "length hs = length ?xs + length rs" using list_all2_lengthD [OF rel] by simp
  moreover have "finite ?vers" and pos: "0 < max_hits policy" using pol by (simp_all add: version_set_def policy_ok_def)
  ultimately show ?thesis
    using s m len pol wk by (cases "es_versions_truncated sel = 0") (simp_all add: validate_evidence_batch_def policy_ok_def)
qed

subsection \<open>Assembly\<close>

lemma select_not_invalid: "select_exact_prefix cs policy \<noteq> Inl (InvalidHit e)"
proof -
  have "choose_primaries policy groups s \<noteq> Inl (InvalidHit e)" for groups s
    by (induction policy groups s rule: choose_primaries.induct) auto
  then show ?thesis by (auto simp: select_exact_prefix_def Let_def rbind_eq_Inl)
qed

lemma apply_response_not_invalid: "apply_response resp ident cs \<noteq> Inl (InvalidHit e)"
proof -
  have "quantize_score v \<noteq> Inl (InvalidHit e)" for v by (auto simp: quantize_score_def split: json_score.splits)
  then have "fill_scores rs scores \<noteq> Inl (InvalidHit e)" for rs scores
    by (induction rs scores rule: fill_scores.induct) (auto simp: rbind_eq_Inl)
  then show ?thesis by (auto simp: apply_response_def rbind_eq_Inl)
qed

lemma hydrate_not_invalid: "hydrate_media rows hs \<noteq> Inl (InvalidHit e)"
  by (induction hs) (auto simp: rbind_eq_Inl split: option.splits)

lemma tail_spec:
  assumes r: "select_exact_prefix cs policy = Inr sel" and d: "distinct (map ex_source_chunk_id cs)"
    and rs: "reranked_ok sha256 vers (ex_source_chunk_id ` set cs) rs"
    and a: "append_semantic_tail wk policy (all_hits_of sha256 wk (es_hits sel) []) rs = (hs, t)"
  obtains rs' where "hs = all_hits_of sha256 wk (es_hits sel) rs'"
    and "reranked_ok sha256 vers (ex_source_chunk_id ` set cs) rs'"
    and "\<forall>r \<in> set rs'. sem_chunk_byte_length (candidate r) \<le> max_chunk_bytes policy"
    and "length (es_hits sel) + length rs' \<le> max_hits policy"
    and "sum_list (map ex_byte_length (es_hits sel)) + sum_list (map (\<lambda>r. sem_chunk_byte_length (candidate r)) rs') \<le> max_total_bytes policy"
proof -
  let ?exact = "all_hits_of sha256 wk (es_hits sel) []"
  have wq: "within_quota policy \<lparr>sel_hits = es_hits sel, sel_bytes = sum_list (map ex_byte_length (es_hits sel))\<rparr>"
    using selection_spec [OF r d] by metis
  have used: "map chunk_byte_length ?exact = map ex_byte_length (es_hits sel)"
    by (intro nth_equalityI) (simp_all add: all_hits_nth(1) exact_candidate_hit_def)
  obtain rs' where rs': "subseq rs' rs" "hs = ?exact @ map (\<lambda>(i, r). semantic_candidate_hit wk i r) (enumerate (length ?exact) rs')"
    "length hs \<le> max (length ?exact) (max_hits policy)" "\<forall>r \<in> set rs'. sem_chunk_byte_length (candidate r) \<le> max_chunk_bytes policy"
    "sum_list (map ex_byte_length (es_hits sel)) + sum_list (map (\<lambda>r. sem_chunk_byte_length (candidate r)) rs')
       \<le> max (sum_list (map ex_byte_length (es_hits sel))) (max_total_bytes policy)"
    using append_tail_spec [OF a [unfolded append_semantic_tail_def]] unfolding used by blast
  have "hs = all_hits_of sha256 wk (es_hits sel) rs'" using rs'(2) by (simp add: all_hits_of_def)
  then show ?thesis using that [of rs'] rs' reranked_ok_subseq [OF rs rs'(1)] wq by (simp add: within_quota_def)
qed

lemma assembled_never_invalid:
  assumes pol: "policy_ok policy" and wk: "wk \<in> set [lit ''product_line'', lit ''company'']" and vs: "versions_ok wk versions"
    and cs: "\<forall>c \<in> set cs. exact_ok (version_set versions) c" and d: "distinct (map ex_source_chunk_id cs)"
    and err: "\<And>m. runtime \<noteq> Some (Inl (InvalidHit m))"
    and ok: "\<And>rs. runtime = Some (Inr rs) \<Longrightarrow> reranked_ok sha256 (version_set versions) (ex_source_chunk_id ` set cs) rs"
    and rows: "media_rows_ok rows"
  shows "case assemble_batch sha256 wk policy exact_only runtime rows versions cs of
      Inl e \<Rightarrow> (\<forall>m. e \<noteq> InvalidHit m) | Inr batch \<Rightarrow> validate_evidence_batch sha256 wk batch policy = Inr ()"
proof (cases "select_exact_prefix cs policy")
  case (Inl e)
  then show ?thesis using select_not_invalid [of cs policy] by (auto simp: assemble_batch_def)
next
  case r: (Inr sel)
  let ?exact = "all_hits_of sha256 wk (es_hits sel) []" and ?vers = "version_set versions" and ?taken = "ex_source_chunk_id ` set cs"
  have exact: "map (\<lambda>(i, c). exact_candidate_hit sha256 wk i c) (enumerate 0 (es_hits sel)) = ?exact" by (simp add: all_hits_of_def)
  define tail where "tail = (if versions \<noteq> [] \<and> length ?exact < max_hits policy
      then (case runtime of None \<Rightarrow> Inr (?exact, 0)
            | Some outcome \<Rightarrow> rbind outcome (\<lambda>reranked. Inr (append_semantic_tail wk policy ?exact reranked)))
      else Inr (?exact, 0))"
  have no: "tail \<noteq> Inl (InvalidHit m)" for m
    using err by (auto simp: tail_def rbind_eq_Inl split: option.splits)
  have valid: "validate_evidence_batch sha256 wk \<lparr>batch_schema_version = schema_v3, eligible_versions = versions, hits = hs',
     exact_prefix_hit_count = length (es_hits sel), exact_versions_truncated = es_versions_truncated sel,
     exact_hits_truncated = es_hits_truncated sel, semantic_hits_truncated = t\<rparr> policy = Inr ()"
    if t: "tail = Inr (hs, t)" and h: "hydrate_media rows hs = Inr hs'" for hs t hs'
  proof -
    have "\<exists>rs. reranked_ok sha256 ?vers ?taken rs \<and> append_semantic_tail wk policy ?exact rs = (hs, t)"
    proof (cases "tail = Inr (?exact, 0)")
      case True
      then show ?thesis using t by (intro exI [of _ "[]"]) (simp add: reranked_ok_def append_semantic_tail_def)
    next
      case False
      then obtain rs where "runtime = Some (Inr rs)" "append_semantic_tail wk policy ?exact rs = (hs, t)"
        using t by (auto simp: tail_def rbind_eq_Inr split: if_splits option.splits)
      then show ?thesis using ok by blast
    qed
    then obtain rs where "reranked_ok sha256 ?vers ?taken rs" "append_semantic_tail wk policy ?exact rs = (hs, t)" by blast
    from tail_spec [OF r d this] obtain rs' where "hs = all_hits_of sha256 wk (es_hits sel) rs'" "reranked_ok sha256 ?vers ?taken rs'"
      "\<forall>r \<in> set rs'. sem_chunk_byte_length (candidate r) \<le> max_chunk_bytes policy" "length (es_hits sel) + length rs' \<le> max_hits policy"
      "sum_list (map ex_byte_length (es_hits sel)) + sum_list (map (\<lambda>r. sem_chunk_byte_length (candidate r)) rs') \<le> max_total_bytes policy" .
    then show ?thesis using assembled_validates [OF pol wk vs _ d r] cs h rows by simp
  qed
  have "length (es_hits sel) \<le> max_hits policy" using selection_spec [OF r d] by (metis within_quota_def selection_state.select_convs(1))
  then have small: "\<not> 2 ^ 32 \<le> length (es_hits sel)" using pol by (simp add: policy_ok_def)
  show ?thesis
  proof (cases tail)
    case (Inl e)
    then show ?thesis using no small
      unfolding assemble_batch_def r rbind_simps(2) Let_def exact tail_def [symmetric] by auto
  next
    case t: (Inr p)
    obtain hs n where p: "p = (hs, n)" by (cases p)
    show ?thesis
    proof (cases "hydrate_media rows hs")
      case (Inl e)
      then show ?thesis using hydrate_not_invalid [of rows hs] small
        unfolding assemble_batch_def r rbind_simps(2) Let_def exact tail_def [symmetric] t p by auto
    next
      case (Inr hs')
      then show ?thesis using valid [OF t [unfolded p] Inr] small
        unfolding assemble_batch_def r rbind_simps(2) Let_def exact tail_def [symmetric] t p by simp
    qed
  qed
qed

end
