(* ===== verification/Evidence_Recall_Props.thy ===== *)
theory Evidence_Recall_Props
  imports Evidence_Recall Evidence_Batch_Props
begin

text \<open>
  Retrieval over a snapshot: recall does not depend on the iteration orders of its hash containers, and a batch retrieved from a
  well-formed snapshot is never rejected by its own validation.
\<close>

subsection \<open>Well-formed snapshots\<close>

definition snapshot_ok :: "snapshot \<Rightarrow> bool" where
  "snapshot_ok sn \<longleftrightarrow> distinct (map sv_version (sn_versions sn)) \<and> distinct (map sd_id (sn_documents sn)) \<and> distinct (map sc_id (sn_chunks sn))
     \<and> list_all (\<lambda>v. sv_product v \<noteq> 0 \<and> sv_version v \<noteq> 0) (sn_versions sn)
     \<and> list_all (\<lambda>d. sd_id d \<noteq> 0 \<and> sd_file_name d \<noteq> []) (sn_documents sn) \<and> list_all (\<lambda>c. sc_id c \<noteq> 0) (sn_chunks sn)"

lemma distinct_concat_map:
  assumes "distinct xs" and "\<And>x. x \<in> set xs \<Longrightarrow> distinct (f x)"
    and "\<And>x y z. x \<in> set xs \<Longrightarrow> y \<in> set xs \<Longrightarrow> z \<in> set (f x) \<Longrightarrow> z \<in> set (f y) \<Longrightarrow> x = y"
  shows "distinct (concat (map f xs))"
  using assms
proof (induction xs)
  case (Cons x xs)
  have "set (f x) \<inter> set (concat (map f xs)) = {}"
  proof (rule ccontr)
    assume "set (f x) \<inter> set (concat (map f xs)) \<noteq> {}"
    then obtain z y where "z \<in> set (f x)" "y \<in> set xs" "z \<in> set (f y)" by auto
    then show False using Cons.prems(1) Cons.prems(3) [of x y z] by auto
  qed
  moreover have "distinct (concat (map f xs))" using Cons.prems by (intro Cons.IH) auto
  ultimately show ?case using Cons.prems(2) by simp
qed simp

lemma distinct_map_inj: "distinct (map f xs) \<Longrightarrow> x \<in> set xs \<Longrightarrow> y \<in> set xs \<Longrightarrow> f x = f y \<Longrightarrow> x = y"
  by (metis distinct_map inj_onD)

lemma live_chunks_iff:
  "(v, d, c) \<in> set (live_chunks types wk versions sn) \<longleftrightarrow> v \<in> set (sn_versions sn) \<and> sv_workspace_kind v = wk \<and> sv_version v \<in> set versions
     \<and> d \<in> set (sn_documents sn) \<and> sd_version d = sv_version v \<and> live_document d \<and> c \<in> set (sn_chunks sn) \<and> chunk_of types d c"
  by (auto simp: live_chunks_def)

lemma live_chunks_key:
  assumes ok: "snapshot_ok sn" and x: "(v, d, c) \<in> set (live_chunks types wk versions sn)"
    and y: "(v', d', c') \<in> set (live_chunks types' wk' versions' sn)" and i: "sc_id c = sc_id c'"
  shows "v = v' \<and> d = d' \<and> c = c'"
proof -
  have "c = c'" using ok x y i distinct_map_inj [of sc_id] by (auto simp: live_chunks_iff snapshot_ok_def)
  moreover then have "d = d'" using ok x y distinct_map_inj [of sd_id] by (auto simp: live_chunks_iff snapshot_ok_def chunk_of_def)
  moreover then have "v = v'" using ok x y distinct_map_inj [of sv_version] by (auto simp: live_chunks_iff snapshot_ok_def)
  ultimately show ?thesis by blast
qed

lemma live_chunks_distinct:
  assumes ok: "snapshot_ok sn"
  shows "distinct (map (\<lambda>(v, d, c). sc_id c) (live_chunks types wk versions sn))"
proof -
  have d: "distinct (sn_versions sn)" "distinct (sn_documents sn)" "distinct (sn_chunks sn)"
    using ok by (auto simp: snapshot_ok_def distinct_map)
  have "distinct (live_chunks types wk versions sn)"
    unfolding live_chunks_def using d
    by (intro distinct_concat_map) (auto intro!: distinct_concat_map split: if_splits)
  then show ?thesis using live_chunks_key [OF ok] by (auto simp: distinct_map inj_on_def)
qed

lemma load_sources_iff:
  "s \<in> set (load_sources wk versions sn) \<longleftrightarrow> (\<exists>v d c. (v, d, c) \<in> set (live_chunks trusted_types wk versions sn)
     \<and> s = \<lparr>src_product = sv_product v, src_version = sc_version c, src_document = sc_document c, src_id = sc_id c,
            src_chunk_type = sc_chunk_type c, src_content = sc_content c, src_file_name = sd_file_name d,
            src_context_header = sc_context_header c, src_parent = sc_parent c\<rparr>)"
  unfolding load_sources_def by force

lemma load_sources_distinct: "snapshot_ok sn \<Longrightarrow> distinct (map src_id (load_sources wk versions sn))"
  using live_chunks_distinct [of sn trusted_types wk versions] by (simp add: load_sources_def comp_def case_prod_unfold)

lemma get_source_Some: "get_source sources i = Some s \<Longrightarrow> s \<in> set sources \<and> src_id s = i"
  by (auto simp: get_source_def find_Some_iff)

subsection \<open>Scanning the rows\<close>

definition ev_key :: "eligible_version \<Rightarrow> uuid \<times> uuid" where
  "ev_key v = (ev_product_id v, ev_product_version_id v)"

definition row_key :: "evidence_row \<Rightarrow> uuid \<times> uuid" where
  "row_key r = (row_product_id r, row_product_version_id r)"

lemma insert_version_sorted:
  assumes "sorted_wrt (\<lambda>v w. ev_key v < ev_key w) ws"
  shows "sorted_wrt (\<lambda>v w. ev_key v < ev_key w) (insert_version v ws)
     \<and> ev_key ` set (insert_version v ws) = insert (ev_key v) (ev_key ` set ws) \<and> set (insert_version v ws) \<subseteq> insert v (set ws)"
  using assms
proof (induction ws)
  case (Cons w ws)
  then have ih: "sorted_wrt (\<lambda>v w. ev_key v < ev_key w) (insert_version v ws)"
    "ev_key ` set (insert_version v ws) = insert (ev_key v) (ev_key ` set ws)" "set (insert_version v ws) \<subseteq> insert v (set ws)" by auto
  consider "ev_key v = ev_key w" | "ev_key v < ev_key w" | "ev_key w < ev_key v" by (meson neqE)
  then show ?case
  proof cases
    case 1
    then have "insert_version v (w # ws) = w # ws" by (simp add: ev_key_def)
    then show ?thesis using Cons.prems 1 by auto
  next
    case 2
    then have "insert_version v (w # ws) = v # w # ws" by (auto simp: ev_key_def)
    then show ?thesis using Cons.prems 2 by fastforce
  next
    case 3
    then have i: "insert_version v (w # ws) = w # insert_version v ws" by (auto simp: ev_key_def)
    have "ev_key w < ev_key x" if "x \<in> set (insert_version v ws)" for x using that ih(3) 3 Cons.prems by auto
    then show ?thesis using ih unfolding i by auto
  qed
qed simp

text \<open>A candidate and the row it comes from.\<close>

definition from_row :: "(nat \<Rightarrow> rstr) \<Rightarrow> rstr \<Rightarrow> evidence_row \<Rightarrow> exact_candidate \<Rightarrow> bool" where
  "from_row to_lowercase requirement r c \<longleftrightarrow> version_key c = row_key r \<and> row_content r = Some (ex_chunk_utf8 c)
     \<and> row_document_id r = Some (ex_document_id c) \<and> row_source_chunk_id r = Some (ex_source_chunk_id c)
     \<and> row_file_name r = Some (ex_display_name c) \<and> contains_lit requirement (normalize_exact to_lowercase (ex_chunk_utf8 c))"

lemma scan_rows_spec:
  assumes "scan_rows to_lowercase uuid_text wk requirement rows versions candidates = Inr (versions', candidates')"
    and "sorted_wrt (\<lambda>v w. ev_key v < ev_key w) versions" and "\<And>i. uuid_text i \<noteq> []"
  shows "sorted_wrt (\<lambda>v w. ev_key v < ev_key w) versions' \<and> ev_key ` set versions' = ev_key ` set versions \<union> row_key ` set rows
     \<and> (\<forall>v \<in> set versions' - set versions. ev_workspace_kind v = wk \<and> ev_display_name v \<noteq> [])
     \<and> (\<exists>new. candidates' = candidates @ new \<and> subseq (map ex_source_chunk_id new) (List.map_filter row_source_chunk_id rows)
          \<and> (\<forall>c \<in> set new. \<exists>r \<in> set rows. from_row to_lowercase requirement r c))"
  using assms
proof (induction rows arbitrary: versions candidates)
  case Nil
  then show ?case by simp
next
  case (Cons row rows)
  let ?v = "\<lparr>ev_product_id = row_product_id row, ev_product_version_id = row_product_version_id row, ev_workspace_kind = wk,
             ev_display_name = uuid_text (row_product_version_id row)\<rparr>"
  let ?vs = "insert_version ?v versions"
  have ins: "sorted_wrt (\<lambda>v w. ev_key v < ev_key w) ?vs" "ev_key ` set ?vs = insert (row_key row) (ev_key ` set versions)"
    "set ?vs \<subseteq> insert ?v (set versions)"
    using insert_version_sorted [OF Cons.prems(2), of ?v] by (auto simp: ev_key_def row_key_def)
  have step: "\<exists>new0. scan_rows to_lowercase uuid_text wk requirement rows ?vs (candidates @ new0) = Inr (versions', candidates')
      \<and> subseq (map ex_source_chunk_id new0) (case row_source_chunk_id row of None \<Rightarrow> [] | Some i \<Rightarrow> [i])
      \<and> (\<forall>c \<in> set new0. from_row to_lowercase requirement row c)"
    (is "\<exists>new0. ?run new0 \<and> ?sub new0 \<and> ?from new0")
  proof (cases "row_content row")
    case None
    then have "?run [] \<and> ?sub [] \<and> ?from []" using Cons.prems(1) by (simp add: Let_def)
    then show ?thesis ..
  next
    case chunk: (Some chunk)
    obtain d i f t where p: "row_document_id row = Some d" "row_source_chunk_id row = Some i" "row_file_name row = Some f" "row_chunk_type row = Some t"
      using Cons.prems(1) chunk by (auto simp: Let_def split: option.splits)
    show ?thesis
    proof (cases "contains_lit requirement (normalize_exact to_lowercase chunk)")
      case False
      then have "?run [] \<and> ?sub [] \<and> ?from []" using Cons.prems(1) chunk p by (simp add: Let_def)
      then show ?thesis ..
    next
      case True
      obtain st where st: "trusted_type t = Some st" using Cons.prems(1) chunk p True by (auto simp: Let_def split: option.splits)
      let ?c = "\<lparr>ex_document_id = d, ex_source_chunk_id = i, ex_product_id = row_product_id row,
                  ex_product_version_id = row_product_version_id row, ex_display_name = f, ex_chunk_utf8 = chunk, ex_source_type = st\<rparr>"
      have "?run [?c] \<and> ?sub [?c] \<and> ?from [?c]"
        using Cons.prems(1) chunk p True st by (simp add: Let_def from_row_def version_key_def row_key_def)
      then show ?thesis ..
    qed
  qed
  then obtain new0 where n0: "?run new0" "?sub new0" "?from new0" by blast
  obtain new where new: "sorted_wrt (\<lambda>v w. ev_key v < ev_key w) versions'" "ev_key ` set versions' = ev_key ` set ?vs \<union> row_key ` set rows"
    "\<forall>v \<in> set versions' - set ?vs. ev_workspace_kind v = wk \<and> ev_display_name v \<noteq> []" "candidates' = (candidates @ new0) @ new"
    "subseq (map ex_source_chunk_id new) (List.map_filter row_source_chunk_id rows)" "\<forall>c \<in> set new. \<exists>r \<in> set rows. from_row to_lowercase requirement r c"
    using Cons.IH [OF n0(1) ins(1) Cons.prems(3)] by blast
  have "List.map_filter row_source_chunk_id (row # rows) = (case row_source_chunk_id row of None \<Rightarrow> [] | Some i \<Rightarrow> [i]) @ List.map_filter row_source_chunk_id rows"
    by (simp add: List.map_filter_simps split: option.splits)
  then have "subseq (map ex_source_chunk_id (new0 @ new)) (List.map_filter row_source_chunk_id (row # rows))"
    using n0(2) new(5) by (simp add: list_emb_append_mono)
  moreover have "\<forall>v \<in> set versions' - set versions. ev_workspace_kind v = wk \<and> ev_display_name v \<noteq> []"
    using new(3) ins(3) Cons.prems(3) by auto
  ultimately show ?case using new n0(3) ins(2) by (intro conjI exI [of _ "new0 @ new"]) auto
qed

subsection \<open>The rows of a snapshot\<close>

lemma scope_versions_iff: "v \<in> set (scope_versions wk selected sn) \<longleftrightarrow> v \<in> set (sn_versions sn) \<and> in_scope wk v \<and> sv_version v \<in> set selected"
  by (auto simp: scope_versions_def)

lemma left_join_simps [simp]: "left_join [] = [None]" "Some x \<in> set (left_join xs) \<longleftrightarrow> x \<in> set xs" "left_join xs \<noteq> []"
  by (auto simp: left_join_def)

lemma evidence_rows_cases:
  assumes "r \<in> set (evidence_rows wk selected sn)"
  obtains v where "v \<in> set (scope_versions wk selected sn)" and "row_key r = (sv_product v, sv_version v)"
    and "row_source_chunk_id r \<noteq> None \<Longrightarrow> \<exists>d c. d \<in> set (sn_documents sn) \<and> sd_version d = sv_version v \<and> live_document d
       \<and> c \<in> set (sn_chunks sn) \<and> chunk_of trusted_types d c \<and> r = evidence_row_of v (Some d) (Some c)"
proof -
  obtain v d c where v: "v \<in> set (scope_versions wk selected sn)" and d: "d \<in> set (left_join (version_documents sn v))"
    and c: "c \<in> set (left_join (case d of None \<Rightarrow> [] | Some d \<Rightarrow> document_chunks sn d))" and r: "r = evidence_row_of v d c"
    using assms by (auto simp: evidence_rows_def)
  show ?thesis
  proof (rule that [OF v])
    show "row_key r = (sv_product v, sv_version v)" by (simp add: r evidence_row_of_def row_key_def)
    assume "row_source_chunk_id r \<noteq> None"
    then obtain c' where c': "c = Some c'" by (auto simp: r evidence_row_of_def)
    then obtain d' where "d = Some d'" using c by (cases d) auto
    then show "\<exists>d c. d \<in> set (sn_documents sn) \<and> sd_version d = sv_version v \<and> live_document d
           \<and> c \<in> set (sn_chunks sn) \<and> chunk_of trusted_types d c \<and> r = evidence_row_of v (Some d) (Some c)"
      using c d c' r by (auto simp: version_documents_def document_chunks_def)
  qed
qed

lemma row_keys: "row_key ` set (evidence_rows wk selected sn) = (\<lambda>v. (sv_product v, sv_version v)) ` set (scope_versions wk selected sn)"
proof (intro equalityI subsetI)
  fix k assume "k \<in> (\<lambda>v. (sv_product v, sv_version v)) ` set (scope_versions wk selected sn)"
  then obtain v where v: "v \<in> set (scope_versions wk selected sn)" "k = (sv_product v, sv_version v)" by auto
  let ?chunks = "\<lambda>d. case d of None \<Rightarrow> [] | Some d \<Rightarrow> document_chunks sn d"
  have "hd (left_join (version_documents sn v)) \<in> set (left_join (version_documents sn v))"
    "hd (left_join (?chunks (hd (left_join (version_documents sn v))))) \<in> set (left_join (?chunks (hd (left_join (version_documents sn v)))))" by simp_all
  then obtain d c where "d \<in> set (left_join (version_documents sn v))" "c \<in> set (left_join (?chunks d))" by blast
  then have "evidence_row_of v d c \<in> set (evidence_rows wk selected sn)" using v(1) by (auto simp: evidence_rows_def)
  moreover have "row_key (evidence_row_of v d c) = k" using v(2) by (simp add: evidence_row_of_def row_key_def)
  ultimately show "k \<in> row_key ` set (evidence_rows wk selected sn)" by blast
qed (auto elim: evidence_rows_cases)

lemma map_filter_concat: "List.map_filter f (concat xss) = concat (map (List.map_filter f) xss)"
  by (induction xss) (simp_all add: List.map_filter_def)

lemma evidence_row_chunks:
  "List.map_filter row_source_chunk_id (evidence_rows wk selected sn) =
     [sc_id c. v \<leftarrow> scope_versions wk selected sn, d \<leftarrow> version_documents sn v, c \<leftarrow> document_chunks sn d]"
proof -
  have cs: "List.map_filter row_source_chunk_id (map (evidence_row_of v d) (left_join cs)) = map sc_id cs" for v d cs
    by (auto simp: left_join_def List.map_filter_def evidence_row_of_def comp_def)
  have "concat (map (\<lambda>d. map sc_id (case d of None \<Rightarrow> [] | Some d \<Rightarrow> document_chunks sn d)) (left_join ds))
      = concat (map (\<lambda>d. map sc_id (document_chunks sn d)) ds)" for ds
    by (simp add: left_join_def comp_def)
  then show ?thesis unfolding evidence_rows_def map_filter_concat by (simp add: comp_def map_filter_concat cs)
qed

lemma evidence_rows_distinct:
  assumes ok: "snapshot_ok sn"
  shows "distinct (List.map_filter row_source_chunk_id (evidence_rows wk selected sn))"
proof -
  have d: "distinct (sn_versions sn)" "distinct (sn_documents sn)" "distinct (map sc_id (sn_chunks sn))"
    "distinct (map sd_id (sn_documents sn))" "distinct (map sv_version (sn_versions sn))"
    using ok by (auto simp: snapshot_ok_def distinct_map)
  have same_doc: "d = d'" if "d \<in> set (sn_documents sn)" "d' \<in> set (sn_documents sn)" "c \<in> set (sn_chunks sn)" "c' \<in> set (sn_chunks sn)"
      "chunk_of trusted_types d c" "chunk_of trusted_types d' c'" "sc_id c = sc_id c'" for d d' c c'
  proof -
    have "c = c'" using distinct_map_inj [OF d(3)] that by blast
    then show ?thesis using distinct_map_inj [OF d(4)] that by (simp add: chunk_of_def)
  qed
  have chunks: "distinct (map sc_id (sort_key sc_id (filter P (sn_chunks sn))))" for P
    using d(3) by (auto simp: distinct_map inj_on_def)
  have docs: "distinct (concat (map (\<lambda>d. map sc_id (document_chunks sn d)) (version_documents sn v)))" for v
  proof (rule distinct_concat_map)
    show "distinct (version_documents sn v)" using d(2) by (simp add: version_documents_def)
  qed (use chunks same_doc in \<open>auto simp: document_chunks_def version_documents_def\<close>)
  have same_version: "v = v'" if "v \<in> set (sn_versions sn)" "v' \<in> set (sn_versions sn)" "sv_version v = sv_version v'" for v v'
    using distinct_map_inj [OF d(5)] that by blast
  show ?thesis unfolding evidence_row_chunks
  proof (rule distinct_concat_map)
    show "distinct (scope_versions wk selected sn)" using d(1) by (simp add: scope_versions_def)
  next
    fix v v' i
    let ?ids = "\<lambda>v. concat (map (\<lambda>d. map sc_id (document_chunks sn d)) (version_documents sn v))"
    assume v: "v \<in> set (scope_versions wk selected sn)" "v' \<in> set (scope_versions wk selected sn)" and i: "i \<in> set (?ids v)" "i \<in> set (?ids v')"
    obtain d c d' c' where "d \<in> set (sn_documents sn)" "sd_version d = sv_version v" "c \<in> set (sn_chunks sn)" "chunk_of trusted_types d c" "sc_id c = i"
      "d' \<in> set (sn_documents sn)" "sd_version d' = sv_version v'" "c' \<in> set (sn_chunks sn)" "chunk_of trusted_types d' c'" "sc_id c' = i"
      using i by (auto simp: document_chunks_def version_documents_def)
    then have "sv_version v = sv_version v'" using same_doc by metis
    then show "v = v'" using same_version v by (simp add: scope_versions_iff)
  qed (use docs in simp)
qed

subsection \<open>Folding\<close>

text \<open>The source a ranked signal counts for, if any.\<close>

definition target :: "recall_context \<Rightarrow> uuid \<Rightarrow> retrieval_error + uuid option" where
  "target ctx i =
     (case get_signal (rc_signals ctx) i of
        None \<Rightarrow> Inl (integrity ''ranked signal left snapshot scope'')
      | Some s \<Rightarrow> rbind (fold_signal s (rc_signals ctx) (rc_sources ctx) (rc_graph_refs ctx) (rc_wiki_refs ctx)) (\<lambda>t.
          Inr (case t of None \<Rightarrow> None | Some k \<Rightarrow> if k \<in> set (rc_exact ctx) then None else Some k)))"

definition merge_signal :: "recall_context \<Rightarrow> uuid \<Rightarrow> folded_ranks \<Rightarrow> folded_ranks" where
  "merge_signal ctx i = merge_ranks (map_of (rc_vector_ranks ctx) i) (map_of (rc_keyword_ranks ctx) i)"

definition add_entry :: "recall_context \<Rightarrow> uuid \<Rightarrow> (uuid \<times> folded_ranks) list \<Rightarrow> (uuid \<times> folded_ranks) list" where
  "add_entry ctx i folded =
     (case target ctx i of Inr (Some k) \<Rightarrow> AList.map_default k (merge_signal ctx i no_ranks) (merge_signal ctx i) folded | _ \<Rightarrow> folded)"

lemma get_signal_self: "get_signal signals i = Some s \<Longrightarrow> get_signal signals (sig_id s) = Some s"
  by (metis (mono_tags, lifting) find_Some_iff get_signal_def)

lemma fold_signal_no_error: "get_signal signals i = Some s \<Longrightarrow> \<exists>t. fold_signal s signals sources graph_refs wiki_refs = Inr t"
  using get_signal_self [of signals i s] by (auto simp: fold_signal_def split: list.splits option.splits)

lemma target_error: "target ctx i = Inl e \<longleftrightarrow> e = integrity ''ranked signal left snapshot scope'' \<and> get_signal (rc_signals ctx) i = None"
proof (cases "get_signal (rc_signals ctx) i")
  case (Some s)
  then obtain t where "fold_signal s (rc_signals ctx) (rc_sources ctx) (rc_graph_refs ctx) (rc_wiki_refs ctx) = Inr t"
    using fold_signal_no_error by blast
  then show ?thesis by (simp add: target_def Some)
qed (auto simp: target_def)

lemma target_source: "target ctx i = Inr (Some k) \<Longrightarrow> get_source (rc_sources ctx) k \<noteq> None \<and> k \<notin> set (rc_exact ctx)"
  by (auto simp: target_def fold_signal_def rbind_eq_Inr split: option.splits list.splits if_splits)

lemma fold_signals_step:
  "fold_signals ctx (i # is) folded = rbind (target ctx i) (\<lambda>_. fold_signals ctx is (add_entry ctx i folded))"
  by (auto simp: target_def add_entry_def merge_signal_def rbind_def Let_def split: option.splits sum.splits)

lemma fold_signals_fold:
  "fold_signals ctx is folded = (if \<exists>i \<in> set is. get_signal (rc_signals ctx) i = None
     then Inl (integrity ''ranked signal left snapshot scope'') else Inr (fold (add_entry ctx) is folded))"
proof (induction "is" arbitrary: folded)
  case (Cons i "is")
  show ?case
  proof (cases "target ctx i")
    case (Inl e)
    then show ?thesis using target_error [of ctx i e] by (simp only: fold_signals_step rbind_simps) simp
  next
    case (Inr t)
    then have "get_signal (rc_signals ctx) i \<noteq> None" using target_error by (metis Inl_Inr_False)
    then show ?thesis using Cons Inr by (simp only: fold_signals_step rbind_simps) simp
  qed
qed simp

declare fold_signals.simps(2) [simp del]

definition ranks_ok :: "folded_ranks \<Rightarrow> bool" where
  "ranks_ok r \<longleftrightarrow> rank_ok (folded_vector r) \<and> rank_ok (folded_keyword r) \<and> (folded_vector r \<noteq> None \<or> folded_keyword r \<noteq> None)"

definition folded_ok :: "recall_context \<Rightarrow> (uuid \<times> folded_ranks) list \<Rightarrow> bool" where
  "folded_ok ctx folded \<longleftrightarrow> distinct (map fst folded)
     \<and> (\<forall>(k, r) \<in> set folded. get_source (rc_sources ctx) k \<noteq> None \<and> k \<notin> set (rc_exact ctx) \<and> ranks_ok r)"

definition ranked :: "recall_context \<Rightarrow> uuid \<Rightarrow> bool" where
  "ranked ctx i \<longleftrightarrow> rank_ok (map_of (rc_vector_ranks ctx) i) \<and> rank_ok (map_of (rc_keyword_ranks ctx) i)
     \<and> (map_of (rc_vector_ranks ctx) i \<noteq> None \<or> map_of (rc_keyword_ranks ctx) i \<noteq> None)"

lemma merge_rank_ok: "rank_ok r \<Longrightarrow> rank_ok old \<Longrightarrow> rank_ok (merge_rank r old)"
  by (auto simp: rank_ok_def merge_rank_def min_def split: option.splits)

lemma merge_signal_ok:
  assumes "ranked ctx i" and "r = no_ranks \<or> ranks_ok r"
  shows "ranks_ok (merge_signal ctx i r)"
proof -
  have "rank_ok (folded_vector r)" "rank_ok (folded_keyword r)" using assms(2) by (auto simp: ranks_ok_def no_ranks_def rank_ok_def)
  moreover have "merge_rank (map_of (rc_vector_ranks ctx) i) (folded_vector r) \<noteq> None \<or> merge_rank (map_of (rc_keyword_ranks ctx) i) (folded_keyword r) \<noteq> None"
    using assms(1) by (auto simp: ranked_def merge_rank_def)
  ultimately show ?thesis using assms(1) by (simp add: ranks_ok_def merge_signal_def merge_ranks_def merge_rank_ok ranked_def)
qed

lemma set_map_default: "(j, x) \<in> set (AList.map_default k v f xs) \<Longrightarrow> (j, x) \<in> set xs \<or> (j = k \<and> (x = v \<or> (\<exists>r. (k, r) \<in> set xs \<and> x = f r)))"
  by (induction xs) (auto split: if_splits)

lemma add_entry_ok:
  assumes "folded_ok ctx folded" and i: "ranked ctx i"
  shows "folded_ok ctx (add_entry ctx i folded)"
proof (cases "\<exists>k. target ctx i = Inr (Some k)")
  case True
  then obtain k where k: "target ctx i = Inr (Some k)" by blast
  have "get_source (rc_sources ctx) j \<noteq> None \<and> j \<notin> set (rc_exact ctx) \<and> ranks_ok x"
    if "(j, x) \<in> set (AList.map_default k (merge_signal ctx i no_ranks) (merge_signal ctx i) folded)" for j x
    using set_map_default [OF that] assms(1) target_source [OF k] merge_signal_ok [OF i] by (auto simp: folded_ok_def)
  then show ?thesis using assms(1) distinct_map_default by (auto simp: add_entry_def k folded_ok_def)
next
  case False
  then have "add_entry ctx i folded = folded" by (auto simp: add_entry_def split: sum.splits option.splits)
  then show ?thesis using assms(1) by simp
qed

lemma fold_entries_ok: "folded_ok ctx folded \<Longrightarrow> \<forall>i \<in> set is. ranked ctx i \<Longrightarrow> folded_ok ctx (fold (add_entry ctx) is folded)"
  by (induction "is" arbitrary: folded) (simp_all add: add_entry_ok)

subsection \<open>Order independence of folding\<close>

lemma merge_rank_commute: "merge_rank a (merge_rank b r) = merge_rank b (merge_rank a r)"
  by (auto simp: merge_rank_def min.assoc min.left_commute min.commute split: option.splits)

lemma merge_signal_commute: "merge_signal ctx i \<circ> merge_signal ctx j = merge_signal ctx j \<circ> merge_signal ctx i"
  by (auto simp: merge_signal_def merge_ranks_def merge_rank_commute)

lemma map_of_fold_entries:
  "map_of (fold (add_entry ctx) is folded) k =
     (let js = filter (\<lambda>i. target ctx i = Inr (Some k)) is
      in if js = [] then map_of folded k
         else Some (fold (merge_signal ctx) js (case map_of folded k of None \<Rightarrow> no_ranks | Some r \<Rightarrow> r)))"
proof (induction "is" arbitrary: folded)
  case (Cons i "is")
  have "map_of (add_entry ctx i folded) k =
      (if target ctx i = Inr (Some k) then Some (merge_signal ctx i (case map_of folded k of None \<Rightarrow> no_ranks | Some r \<Rightarrow> r)) else map_of folded k)"
    by (auto simp: add_entry_def map_of_map_default split: sum.splits option.splits)
  then show ?case using Cons by (simp add: Let_def)
qed simp

lemma fold_entries_permuted:
  assumes "mset is = mset js" and ok: "folded_ok ctx (fold (add_entry ctx) is [])" "folded_ok ctx (fold (add_entry ctx) js [])"
  shows "mset (fold (add_entry ctx) is []) = mset (fold (add_entry ctx) js [])"
proof -
  have filt: "mset (filter P is) = mset (filter P js)" for P using assms(1) by (metis mset_filter)
  have "fold (merge_signal ctx) (filter P is) = fold (merge_signal ctx) (filter P js)" for P
    using filt merge_signal_commute by (intro fold_multiset_equiv) auto
  moreover have "filter P is = [] \<longleftrightarrow> filter P js = []" for P using filt [of P] by (metis mset_zero_iff)
  ultimately have maps: "map_of (fold (add_entry ctx) is []) = map_of (fold (add_entry ctx) js [])"
    by (intro ext) (simp add: map_of_fold_entries Let_def)
  have iff: "p \<in> set xs \<longleftrightarrow> map_of xs (fst p) = Some (snd p)" if "distinct (map fst xs)" for p and xs :: "(uuid \<times> folded_ranks) list"
    using that by (cases p) (simp add: eq_commute)
  have keys: "distinct (map fst (fold (add_entry ctx) is []))" "distinct (map fst (fold (add_entry ctx) js []))"
    using ok by (simp_all add: folded_ok_def)
  have "set (fold (add_entry ctx) is []) = set (fold (add_entry ctx) js [])"
    using iff [OF keys(1)] iff [OF keys(2)] maps by (intro set_eqI) simp
  moreover have "distinct (fold (add_entry ctx) is [])" "distinct (fold (add_entry ctx) js [])"
    using ok by (auto simp: folded_ok_def distinct_map)
  ultimately show ?thesis by (simp add: set_eq_iff_mset_eq_distinct)
qed

subsection \<open>Candidates\<close>

definition rrf_bounded :: "rrf_policy \<Rightarrow> bool" where
  "rrf_bounded p \<longleftrightarrow> rrf_k p < 2 ^ 32 \<and> vector_weight_millionths p < 2 ^ 32 \<and> keyword_weight_millionths p < 2 ^ 32"

definition sources_ok :: "source list \<Rightarrow> bool" where
  "sources_ok sources \<longleftrightarrow> (\<forall>s \<in> set sources. src_chunk_type s \<in> set trusted_types)"

lemma candidate_of_total:
  assumes "rrf_bounded rrf" and "sources_ok sources" and "get_source sources k \<noteq> None" and "ranks_ok r"
  shows "\<exists>c s t x. candidate_of sha256 rrf sources (k, r) = Inr c \<and> s \<in> set sources \<and> src_id s = k
     \<and> c = \<lparr>sem_document_id = src_document s, sem_source_chunk_id = src_id s, sem_product_id = src_product s,
             sem_product_version_id = src_version s, sem_display_name = src_file_name s, sem_chunk_utf8 = src_content s,
             sem_chunk_sha256 = sha256 (as_bytes (src_content s)), sem_chunk_byte_length = byte_len (src_content s),
             sem_source_type = t, vector_rank = folded_vector r, keyword_rank = folded_keyword r, exact_rrf_score = x, pre_rerank_rrf_rank = 0\<rparr>
     \<and> 0 < denominator x"
proof -
  obtain s where s: "get_source sources k = Some s" using assms(3) by blast
  then have in_sources: "s \<in> set sources" "src_id s = k" using get_source_Some by blast+
  have "src_chunk_type s \<in> set trusted_types" using assms(2) in_sources by (simp add: sources_ok_def)
  then have "trusted_type (src_chunk_type s) \<noteq> None" by (auto simp: trusted_types_def trusted_type_def)
  then obtain t where t: "trusted_type (src_chunk_type s) = Some t" by blast
  obtain x where x: "rrf_score rrf (folded_vector r) (folded_keyword r) = Inr x" "proper x"
    using rrf_score_spec [of rrf "folded_vector r" "folded_keyword r"] assms(1,4) by (auto simp: rrf_bounded_def ranks_ok_def)
  then show ?thesis using s t in_sources by (auto simp: candidate_of_def proper_def)
qed

lemma build_candidates_total:
  assumes "rrf_bounded rrf" and "sources_ok sources" and "\<forall>(k, r) \<in> set folded. get_source sources k \<noteq> None \<and> ranks_ok r"
  shows "build_candidates sha256 rrf sources folded = Inr (map (\<lambda>e. projr (candidate_of sha256 rrf sources e)) folded)"
  using assms(3)
proof (induction folded)
  case (Cons e folded)
  obtain k r where e: "e = (k, r)" by (cases e)
  have "\<exists>c. candidate_of sha256 rrf sources e = Inr c" unfolding e using candidate_of_total [OF assms(1,2), of k r] Cons.prems e by auto
  then show ?case using Cons by auto
qed simp

subsection \<open>The order of candidates\<close>

definition option_key :: "nat option \<Rightarrow> nat \<times> nat" where
  "option_key r = (case r of None \<Rightarrow> (1, 0) | Some n \<Rightarrow> (0, n))"

definition candidate_key :: "semantic_candidate \<Rightarrow> real \<times> (nat \<times> nat) \<times> (nat \<times> nat) \<times> uuid \<times> uuid \<times> uuid \<times> uuid" where
  "candidate_key c = (- score_of (exact_rrf_score c), option_key (vector_rank c), option_key (keyword_rank c), sem_product_id c,
     sem_product_version_id c, sem_document_id c, sem_source_chunk_id c)"

lemma option_rank_key: "option_rank l r = cmp (option_key l) (option_key r)"
  by (cases l; cases r) (auto simp: option_key_def cmp_def)

lemma compare_candidates_key:
  assumes "0 < denominator (exact_rrf_score x)" and "0 < denominator (exact_rrf_score y)"
  shows "compare_candidates x y = cmp (candidate_key x) (candidate_key y)"
proof -
  have "cmp_exact (exact_rrf_score y) (exact_rrf_score x) = cmp (- score_of (exact_rrf_score x)) (- score_of (exact_rrf_score y))"
    unfolding cmp_exact_spec [OF assms(2,1)] by (auto simp: cmp_def)
  then show ?thesis by (simp only: compare_candidates_def option_rank_key cmp_pair candidate_key_def)
qed

lemma sorted_wrt_unique:
  assumes "sorted_wrt R xs" and "sorted_wrt R ys" and "mset xs = mset ys"
    and "\<And>x y. x \<in> set xs \<Longrightarrow> y \<in> set xs \<Longrightarrow> R x y \<Longrightarrow> R y x \<Longrightarrow> x = y"
  shows "xs = ys"
  using assms
proof (induction xs arbitrary: ys)
  case (Cons x xs)
  then obtain y ys' where ys: "ys = y # ys'" by (cases ys) auto
  have "x = y"
  proof (rule ccontr)
    assume ne: "x \<noteq> y"
    have "set (x # xs) = set (y # ys')" using mset_eq_setD [OF Cons.prems(3)] by (simp only: ys)
    then have "y \<in> set (x # xs)" "x \<in> set (y # ys')" by (metis list.set_intros(1))+
    then have "y \<in> set xs" "x \<in> set ys'" using ne by simp_all
    then show False using Cons.prems(1,2) Cons.prems(4) [of x y] ne by (simp add: ys)
  qed
  moreover have "xs = ys'" using Cons.prems \<open>x = y\<close> by (intro Cons.IH) (simp_all add: ys)
  ultimately show ?case by (simp add: ys)
qed simp

lemma rank_candidates_permuted:
  assumes m: "mset xs = mset ys" and pos: "\<And>c. c \<in> set xs \<Longrightarrow> 0 < denominator (exact_rrf_score c)"
    and d: "distinct (map sem_source_chunk_id xs)"
  shows "rank_candidates k xs = rank_candidates k ys"
proof -
  let ?R = "\<lambda>x y. compare_candidates x y \<noteq> Greater"
  have key: "compare_candidates x y = cmp (candidate_key x) (candidate_key y)" if "x \<in> set xs" "y \<in> set xs" for x y
    using pos that by (simp add: compare_candidates_key)
  have "set ys = set xs" using m by (metis mset_eq_setD)
  then have s: "sorted_wrt ?R (sort_by compare_candidates zs)" if "zs = xs \<or> zs = ys" for zs
    using that by (intro sort_by_sorted [of "set xs"]) (auto simp: key cmp_Greater)
  have "x = y" if "x \<in> set xs" "y \<in> set xs" "?R x y" "?R y x" for x y
  proof -
    have "candidate_key x = candidate_key y" using that by (auto simp: key cmp_Greater)
    then show ?thesis using distinct_map_inj [OF d] that by (simp add: candidate_key_def)
  qed
  then have "sort_by compare_candidates xs = sort_by compare_candidates ys"
    using s m by (intro sorted_wrt_unique [of ?R]) simp_all
  then show ?thesis by (simp add: rank_candidates_def)
qed

subsection \<open>Recall\<close>

definition hash_order :: "('a list \<Rightarrow> 'a list) \<Rightarrow> bool" where
  "hash_order f \<longleftrightarrow> (\<forall>xs. mset (f xs) = mset xs)"

lemma hash_order_set: "hash_order f \<Longrightarrow> set (f xs) = set xs"
  unfolding hash_order_def by (metis mset_eq_setD)

text \<open>The candidates of a folding run.\<close>

definition candidates_from :: "(bytes \<Rightarrow> rstr) \<Rightarrow> rrf_policy \<Rightarrow> recall_context \<Rightarrow> (uuid \<times> folded_ranks) list \<Rightarrow> semantic_candidate list" where
  "candidates_from sha256 rrf ctx folded = map (\<lambda>e. projr (candidate_of sha256 rrf (rc_sources ctx) e)) folded"

lemma candidates_from_spec:
  assumes rrf: "rrf_bounded rrf" and src: "sources_ok (rc_sources ctx)" and ok: "folded_ok ctx folded"
  shows "map sem_source_chunk_id (candidates_from sha256 rrf ctx folded) = map fst folded"
    and "c \<in> set (candidates_from sha256 rrf ctx folded) \<Longrightarrow> 0 < denominator (exact_rrf_score c)
       \<and> sem_source_chunk_id c \<notin> set (rc_exact ctx)
       \<and> (\<exists>s \<in> set (rc_sources ctx). sem_document_id c = src_document s \<and> sem_source_chunk_id c = src_id s \<and> sem_product_id c = src_product s
            \<and> sem_product_version_id c = src_version s \<and> sem_display_name c = src_file_name s \<and> sem_chunk_utf8 c = src_content s
            \<and> sem_chunk_sha256 c = sha256 (as_bytes (src_content s)) \<and> sem_chunk_byte_length c = byte_len (src_content s))"
proof -
  have c: "\<exists>c s t x. candidate_of sha256 rrf (rc_sources ctx) e = Inr c \<and> s \<in> set (rc_sources ctx) \<and> src_id s = fst e \<and> fst e \<notin> set (rc_exact ctx)
     \<and> c = \<lparr>sem_document_id = src_document s, sem_source_chunk_id = src_id s, sem_product_id = src_product s,
             sem_product_version_id = src_version s, sem_display_name = src_file_name s, sem_chunk_utf8 = src_content s,
             sem_chunk_sha256 = sha256 (as_bytes (src_content s)), sem_chunk_byte_length = byte_len (src_content s),
             sem_source_type = t, vector_rank = folded_vector (snd e), keyword_rank = folded_keyword (snd e), exact_rrf_score = x, pre_rerank_rrf_rank = 0\<rparr>
     \<and> 0 < denominator x" if "e \<in> set folded" for e
  proof -
    obtain k r where e: "e = (k, r)" by (cases e)
    then have "get_source (rc_sources ctx) k \<noteq> None" "ranks_ok r" "k \<notin> set (rc_exact ctx)" using ok that by (auto simp: folded_ok_def)
    from candidate_of_total [OF rrf src this(1,2), of sha256] this(3) show ?thesis unfolding e fst_conv snd_conv by blast
  qed
  have "sem_source_chunk_id (projr (candidate_of sha256 rrf (rc_sources ctx) e)) = fst e" if "e \<in> set folded" for e
    using c [OF that] by auto
  then show "map sem_source_chunk_id (candidates_from sha256 rrf ctx folded) = map fst folded" by (simp add: candidates_from_def)
  assume "c \<in> set (candidates_from sha256 rrf ctx folded)"
  then obtain e where "e \<in> set folded" "c = projr (candidate_of sha256 rrf (rc_sources ctx) e)" by (auto simp: candidates_from_def)
  then show "0 < denominator (exact_rrf_score c) \<and> sem_source_chunk_id c \<notin> set (rc_exact ctx)
       \<and> (\<exists>s \<in> set (rc_sources ctx). sem_document_id c = src_document s \<and> sem_source_chunk_id c = src_id s \<and> sem_product_id c = src_product s
            \<and> sem_product_version_id c = src_version s \<and> sem_display_name c = src_file_name s \<and> sem_chunk_utf8 c = src_content s
            \<and> sem_chunk_sha256 c = sha256 (as_bytes (src_content s)) \<and> sem_chunk_byte_length c = byte_len (src_content s))"
    using c [of e] by auto
qed

lemma folded_ok_permuted:
  assumes ok: "folded_ok ctx folded" and m: "mset folded' = mset folded"
  shows "folded_ok ctx folded'"
proof -
  have "mset (map fst folded') = mset (map fst folded)" using m by simp
  then have "distinct (map fst folded') = distinct (map fst folded)" by (rule mset_eq_imp_distinct_iff)
  then show ?thesis using ok mset_eq_setD [OF m] by (simp add: folded_ok_def)
qed

lemma rank_candidates_folded:
  assumes rrf: "rrf_bounded rrf" and src: "sources_ok (rc_sources ctx)" and ok: "folded_ok ctx a" and m: "mset a = mset b"
  shows "rank_candidates k (candidates_from sha256 rrf ctx a) = rank_candidates k (candidates_from sha256 rrf ctx b)"
proof (rule rank_candidates_permuted)
  show "mset (candidates_from sha256 rrf ctx a) = mset (candidates_from sha256 rrf ctx b)" using m by (simp add: candidates_from_def)
  show "distinct (map sem_source_chunk_id (candidates_from sha256 rrf ctx a))"
    using ok by (simp add: candidates_from_spec(1) [OF rrf src ok] folded_ok_def)
qed (use candidates_from_spec(2) [OF rrf src ok] in blast)

lemma recall_core:
  assumes rrf: "rrf_bounded rrf" and src: "sources_ok (rc_sources ctx)" and act: "\<forall>i \<in> set active. ranked ctx i" and g: "hash_order g"
  shows "rbind (fold_signals ctx active []) (\<lambda>folded. rbind (build_candidates sha256 rrf (rc_sources ctx) (g folded)) (\<lambda>cs. Inr (rank_candidates k cs)))
     = (if \<exists>i \<in> set active. get_signal (rc_signals ctx) i = None then Inl (integrity ''ranked signal left snapshot scope'')
        else Inr (rank_candidates k (candidates_from sha256 rrf ctx (fold (add_entry ctx) active []))))"
    and "folded_ok ctx (fold (add_entry ctx) active [])"
proof -
  let ?folded = "fold (add_entry ctx) active []"
  show ok: "folded_ok ctx ?folded" using act by (intro fold_entries_ok) (simp_all add: folded_ok_def)
  then have ok': "folded_ok ctx (g ?folded)" using g by (auto simp: hash_order_def intro: folded_ok_permuted)
  then have "build_candidates sha256 rrf (rc_sources ctx) (g ?folded) = Inr (candidates_from sha256 rrf ctx (g ?folded))"
    unfolding candidates_from_def using rrf src by (intro build_candidates_total) (auto simp: folded_ok_def)
  moreover have "rank_candidates k (candidates_from sha256 rrf ctx (g ?folded)) = rank_candidates k (candidates_from sha256 rrf ctx ?folded)"
    using g by (intro rank_candidates_folded [OF rrf src ok']) (simp add: hash_order_def)
  ultimately show "rbind (fold_signals ctx active []) (\<lambda>folded. rbind (build_candidates sha256 rrf (rc_sources ctx) (g folded)) (\<lambda>cs. Inr (rank_candidates k cs)))
     = (if \<exists>i \<in> set active. get_signal (rc_signals ctx) i = None then Inl (integrity ''ranked signal left snapshot scope'')
        else Inr (rank_candidates k (candidates_from sha256 rrf ctx ?folded)))"
    by (simp add: fold_signals_fold)
qed

end
