(* ===== verification/Evidence_Retrieve.thy ===== *)
theory Evidence_Retrieve
  imports Evidence_Recall
begin

text \<open>
  The entry points of evidence retrieval (\<^verbatim>\<open>knowledge_retrieval_pg/mod.rs\<close>): the registries of policies and revisions are read, once before and once
  inside the snapshot, their bytes are compared with the canonical form of the parsed artifacts and, for a frozen request, with
  the bytes in the request; then the batch is retrieved.

  Parameters: the JSON codecs of the artifacts, the canonical JSON (JCS) of an eligible scope and of a frozen identity, and
  the two states of the registries.
\<close>

subsection \<open>Registries\<close>

record policy_row =
  pr_policy_sha256 :: rstr
  pr_payload :: bytes
  pr_embedding_sha256 :: rstr
  pr_rerank_sha256 :: rstr
  pr_contract_version :: rstr
  pr_max_hits :: int
  pr_max_chunk_bytes :: int
  pr_max_total_bytes :: int
  pr_support :: support_state

record embedding_registry_row =
  eg_revision_sha256 :: rstr
  eg_payload :: bytes
  eg_schema_version :: int
  eg_protocol_version :: rstr
  eg_model_identifier :: rstr
  eg_model_revision_sha256 :: rstr
  eg_endpoint_config_sha256 :: rstr
  eg_endpoint_identity :: rstr
  eg_dimension :: int
  eg_request_config_sha256 :: rstr
  eg_output_normalization :: rstr
  eg_credential_ref :: rstr
  eg_support :: support_state

record rerank_registry_row =
  rg_revision_sha256 :: rstr
  rg_payload :: bytes
  rg_credential_ref :: rstr
  rg_support :: support_state

record policy_registry =
  reg_policies :: "policy_row list"
  reg_embeddings :: "embedding_registry_row list"
  reg_reranks :: "rerank_registry_row list"

record codecs =
  json_policy :: "retrieval_policy codec"
  json_embedding :: "embedding_revision codec"
  json_rerank :: "rerank_revision codec"

text \<open>The joined row of a policy; the digests are primary keys.\<close>

definition registry_row :: "policy_registry \<Rightarrow> rstr \<Rightarrow> (policy_row \<times> embedding_registry_row \<times> rerank_registry_row) option" where
  "registry_row reg digest =
     (case find (\<lambda>p. pr_policy_sha256 p = digest) (reg_policies reg) of
        None \<Rightarrow> None
      | Some p \<Rightarrow>
          (case (find (\<lambda>e. eg_revision_sha256 e = pr_embedding_sha256 p) (reg_embeddings reg),
                 find (\<lambda>r. rg_revision_sha256 r = pr_rerank_sha256 p) (reg_reranks reg)) of
             (Some e, Some r) \<Rightarrow> Some (p, e, r) | _ \<Rightarrow> None))"

definition map_err :: "('e \<Rightarrow> 'f) \<Rightarrow> 'e + 'a \<Rightarrow> 'f + 'a" where
  "map_err f r = (case r of Inl e \<Rightarrow> Inl (f e) | Inr x \<Rightarrow> Inr x)"

definition or_mismatch :: "string \<Rightarrow> 'a option \<Rightarrow> retrieval_error + 'a" where
  "or_mismatch message x = (case x of None \<Rightarrow> Inl (DigestMismatch message) | Some y \<Rightarrow> Inr y)"

record validated_policy =
  vp_policy :: retrieval_policy
  vp_revision :: embedding_revision
  vp_credential_ref :: rstr

definition policy_supported :: "policy_row \<times> embedding_registry_row \<times> rerank_registry_row \<Rightarrow> bool" where
  "policy_supported row = (case row of (p, e, r) \<Rightarrow> pr_support p = Supported \<and> eg_support e = Supported \<and> rg_support r = Supported)"

definition embedding_sidecars_match :: "embedding_registry_row \<Rightarrow> embedding_revision \<Rightarrow> bool" where
  "embedding_sidecars_match e r \<longleftrightarrow> emb_schema_version r < 2 ^ 15 \<and> int (emb_schema_version r) = eg_schema_version e
     \<and> emb_protocol_version r = eg_protocol_version e \<and> emb_model_identifier r = eg_model_identifier e
     \<and> emb_model_revision_sha256 r = eg_model_revision_sha256 e \<and> emb_endpoint_config_sha256 r = eg_endpoint_config_sha256 e
     \<and> emb_endpoint_identity r = eg_endpoint_identity e \<and> emb_dimension r < 2 ^ 31 \<and> int (emb_dimension r) = eg_dimension e
     \<and> emb_request_config_sha256 r = eg_request_config_sha256 e \<and> emb_output_normalization r = eg_output_normalization e"

definition load_embedding_revision :: "(bytes \<Rightarrow> rstr) \<Rightarrow> codecs \<Rightarrow> policy_row \<Rightarrow> embedding_registry_row \<Rightarrow> retrieval_error + embedding_revision" where
  "load_embedding_revision sha256 json p e =
     rbind (or_mismatch ''invalid frozen embedding revision artifact'' (from_json_bytes (json_embedding json) (eg_payload e))) (\<lambda>revision.
     rbind (map_err DigestMismatch (validate_embedding_revision revision)) (\<lambda>_.
     rbind (map_err DigestMismatch (canonical_bytes validate_embedding_revision (json_embedding json) revision)) (\<lambda>bs.
     rbind (map_err DigestMismatch (artifact_sha256 sha256 validate_embedding_revision (json_embedding json) revision)) (\<lambda>digest.
       if bs \<noteq> eg_payload e \<or> digest \<noteq> eg_revision_sha256 e \<or> digest \<noteq> pr_embedding_sha256 p \<or> \<not> embedding_sidecars_match e revision
       then Inl (DigestMismatch ''frozen embedding revision bytes or sidecars differ'') else Inr revision))))"

definition ok_or :: "'e + 'a \<Rightarrow> 'a option" where
  "ok_or r = (case r of Inl _ \<Rightarrow> None | Inr x \<Rightarrow> Some x)"

definition load_policy ::
  "(bytes \<Rightarrow> rstr) \<Rightarrow> codecs \<Rightarrow> policy_row \<Rightarrow> rerank_registry_row \<Rightarrow> retrieval_error + retrieval_policy" where
  "load_policy sha256 json p r =
     rbind (or_mismatch ''invalid frozen retrieval policy artifact'' (from_json_bytes (json_policy json) (pr_payload p))) (\<lambda>artifact.
     rbind (map_err DigestMismatch (validate_retrieval_policy artifact)) (\<lambda>_.
     rbind (map_err DigestMismatch (canonical_bytes validate_retrieval_policy (json_policy json) artifact)) (\<lambda>bs.
     rbind (or_mismatch ''invalid frozen rerank revision artifact'' (from_json_bytes (json_rerank json) (rg_payload r))) (\<lambda>rerank_rev.
     rbind (map_err DigestMismatch (validate_rerank_revision rerank_rev)) (\<lambda>_.
       if bs \<noteq> pr_payload p \<or> pr_embedding_sha256 p \<noteq> embedding_model_revision_sha256 (embedding_part artifact)
          \<or> pr_rerank_sha256 p \<noteq> rerank_revision_sha256 (rerank_part artifact)
          \<or> ok_or (artifact_sha256 sha256 validate_rerank_revision (json_rerank json) rerank_rev) \<noteq> Some (pr_rerank_sha256 p)
          \<or> ok_or (canonical_bytes validate_rerank_revision (json_rerank json) rerank_rev) \<noteq> Some (rg_payload r)
          \<or> rer_model_revision_sha256 rerank_rev \<noteq> rerank_model_revision_sha256 (rerank_part artifact)
          \<or> rer_config_revision_sha256 rerank_rev \<noteq> rerank_config_revision_sha256 (rerank_part artifact)
       then Inl (DigestMismatch ''frozen policy/rerank bytes or sidecars differ'') else Inr artifact)))))"

definition validate_supported_policy_v2 ::
  "(bytes \<Rightarrow> rstr) \<Rightarrow> codecs \<Rightarrow> policy_registry \<Rightarrow> policy_identity \<Rightarrow> retrieval_error + validated_policy" where
  "validate_supported_policy_v2 sha256 json reg policy =
     (case registry_row reg (policy_sha256 policy) of
        None \<Rightarrow> Inl (PolicyRevoked ''frozen knowledge-evidence-v2 policy is unavailable or revoked'')
      | Some (p, e, r) \<Rightarrow>
          if \<not> policy_supported (p, e, r) then Inl (PolicyRevoked ''frozen knowledge-evidence-v2 policy or model revision is revoked'')
          else if pr_contract_version p \<noteq> contract_version policy \<or> pr_max_hits p \<noteq> int (max_hits policy)
             \<or> pr_max_chunk_bytes p \<noteq> int (max_chunk_bytes policy) \<or> pr_max_total_bytes p \<noteq> int (max_total_bytes policy)
          then Inl (DigestMismatch ''frozen knowledge-evidence-v2 policy sidecars differ'')
          else rbind (load_embedding_revision sha256 json p e) (\<lambda>revision.
               rbind (load_policy sha256 json p r) (\<lambda>artifact.
               rbind (map_err DigestMismatch (request_identity sha256 (json_policy json) artifact)) (\<lambda>ident.
                 if ident \<noteq> policy then Inl (DigestMismatch ''frozen policy identity differs from registry artifact'')
                 else Inr \<lparr>vp_policy = artifact, vp_revision = revision, vp_credential_ref = eg_credential_ref e\<rparr>))))"

definition lock_supported_policy ::
  "(bytes \<Rightarrow> rstr) \<Rightarrow> codecs \<Rightarrow> policy_registry \<Rightarrow> policy_identity \<Rightarrow> validated_policy \<Rightarrow> retrieval_error + unit" where
  "lock_supported_policy sha256 json reg ident validated =
     (case registry_row reg (policy_sha256 ident) of
        None \<Rightarrow> Inl (PolicyRevoked ''unknown or revoked knowledge-evidence-v2 policy'')
      | Some (p, e, r) \<Rightarrow>
          if \<not> policy_supported (p, e, r) then Inl (PolicyRevoked ''unknown or revoked knowledge-evidence-v2 policy'')
          else rbind (map_err InvalidRequest (canonical_bytes validate_retrieval_policy (json_policy json) (vp_policy validated))) (\<lambda>policy_bytes.
               rbind (map_err InvalidRequest (canonical_bytes validate_embedding_revision (json_embedding json) (vp_revision validated))) (\<lambda>revision_bytes.
                 if pr_payload p \<noteq> policy_bytes \<or> eg_payload e \<noteq> revision_bytes
                    \<or> pr_embedding_sha256 p \<noteq> embedding_model_revision_sha256 (embedding_part (vp_policy validated))
                    \<or> sha256 (eg_payload e) \<noteq> pr_embedding_sha256 p \<or> eg_credential_ref e \<noteq> vp_credential_ref validated
                 then Inl (DigestMismatch ''policy or embedding revision changed during semantic recall'') else Inr ())))"

definition lock_rerank_revision ::
  "(bytes \<Rightarrow> rstr) \<Rightarrow> codecs \<Rightarrow> policy_registry \<Rightarrow> retrieval_policy \<Rightarrow> retrieval_error + rerank_revision \<times> rstr" where
  "lock_rerank_revision sha256 json reg policy =
     (case find (\<lambda>r. rg_revision_sha256 r = rerank_revision_sha256 (rerank_part policy) \<and> rg_support r = Supported) (reg_reranks reg) of
        None \<Rightarrow> Inl (InvalidRequest ''unknown or revoked rerank revision v2'')
      | Some r \<Rightarrow>
          (case from_json_bytes (json_rerank json) (rg_payload r) of
             None \<Rightarrow> Inl (InvalidRequest ''invalid rerank revision v2 artifact'')
           | Some revision \<Rightarrow>
               rbind (map_err InvalidRequest (validate_rerank_revision revision)) (\<lambda>_.
               rbind (map_err InvalidRequest (canonical_bytes validate_rerank_revision (json_rerank json) revision)) (\<lambda>bs.
                 if bs \<noteq> rg_payload r
                    \<or> ok_or (artifact_sha256 sha256 validate_rerank_revision (json_rerank json) revision) \<noteq> Some (rerank_revision_sha256 (rerank_part policy))
                    \<or> rer_model_revision_sha256 revision \<noteq> rerank_model_revision_sha256 (rerank_part policy)
                    \<or> rer_config_revision_sha256 revision \<noteq> rerank_config_revision_sha256 (rerank_part policy)
                 then Inl (InvalidRequest ''non-canonical or mismatched rerank revision v2 artifact'')
                 else Inr (revision, rg_credential_ref r)))))"

subsection \<open>Frozen requests\<close>

record frozen_identity =
  fz_schema_version :: nat
  fz_policy_sha256 :: rstr
  fz_canonical_policy :: rstr
  fz_contract_version :: rstr
  fz_mode :: rstr
  fz_max_hits :: nat
  fz_max_chunk_bytes :: nat
  fz_max_total_bytes :: nat
  fz_embedding_sha256 :: rstr
  fz_canonical_embedding :: rstr
  fz_embedding_credential_ref :: rstr
  fz_rerank_sha256 :: rstr
  fz_canonical_rerank :: rstr
  fz_rerank_credential_ref :: rstr
  fz_product_version_ids :: "uuid list"
  fz_library_version_ids :: "uuid list"
  fz_eligible_scope_sha256 :: rstr

text \<open>An error of the validation, by the prefix of its message.\<close>

datatype frozen_error = FrozenMismatch string | FrozenInvalid string

definition validate_frozen ::
  "(bytes \<Rightarrow> rstr) \<Rightarrow> codecs \<Rightarrow> (uuid list \<Rightarrow> uuid list \<Rightarrow> bytes) \<Rightarrow> frozen_identity \<Rightarrow> frozen_error + policy_identity" where
  "validate_frozen sha256 json jcs_scope f =
     (if fz_schema_version f \<noteq> 1 \<or> fz_mode f \<noteq> lit ''exact'' then Inl (FrozenInvalid ''invalid frozen retrieval identity'')
      else case from_json_bytes (json_policy json) (as_bytes (fz_canonical_policy f)) of
        None \<Rightarrow> Inl (FrozenInvalid ''policy JSON'')
      | Some policy \<Rightarrow>
          rbind (map_err FrozenInvalid (validate_retrieval_policy policy)) (\<lambda>_.
          rbind (map_err FrozenInvalid (artifact_sha256 sha256 validate_retrieval_policy (json_policy json) policy)) (\<lambda>digest.
            if digest \<noteq> fz_policy_sha256 f \<or> pol_contract_version policy \<noteq> fz_contract_version f
               \<or> quota_max_hits (request_quotas_part policy) \<noteq> fz_max_hits f
               \<or> quota_max_chunk_bytes (request_quotas_part policy) \<noteq> fz_max_chunk_bytes f
               \<or> quota_max_total_bytes (request_quotas_part policy) \<noteq> fz_max_total_bytes f
            then Inl (FrozenMismatch ''frozen policy identity mismatch'')
            else case from_json_bytes (json_embedding json) (as_bytes (fz_canonical_embedding f)) of
              None \<Rightarrow> Inl (FrozenInvalid ''embedding JSON'')
            | Some emb \<Rightarrow>
                rbind (map_err FrozenInvalid (artifact_sha256 sha256 validate_embedding_revision (json_embedding json) emb)) (\<lambda>emb_digest.
                  if emb_digest \<noteq> fz_embedding_sha256 f \<or> fz_embedding_sha256 f \<noteq> embedding_model_revision_sha256 (embedding_part policy)
                     \<or> fz_embedding_credential_ref f = []
                  then Inl (FrozenMismatch ''embedding identity mismatch'')
                  else case from_json_bytes (json_rerank json) (as_bytes (fz_canonical_rerank f)) of
                    None \<Rightarrow> Inl (FrozenInvalid ''rerank JSON'')
                  | Some rer \<Rightarrow>
                      rbind (map_err FrozenInvalid (artifact_sha256 sha256 validate_rerank_revision (json_rerank json) rer)) (\<lambda>rer_digest.
                        if rer_digest \<noteq> fz_rerank_sha256 f \<or> fz_rerank_sha256 f \<noteq> rerank_revision_sha256 (rerank_part policy)
                           \<or> fz_rerank_credential_ref f = []
                        then Inl (FrozenMismatch ''rerank identity mismatch'')
                        else if \<not> successively (<) (fz_product_version_ids f) \<or> \<not> successively (<) (fz_library_version_ids f)
                           \<or> sha256 (jcs_scope (fz_product_version_ids f) (fz_library_version_ids f)) \<noteq> fz_eligible_scope_sha256 f
                        then Inl (FrozenMismatch ''eligible scope mismatch'')
                        else Inr \<lparr>contract_version = fz_contract_version f, policy_sha256 = fz_policy_sha256 f, max_hits = fz_max_hits f,
                                  max_chunk_bytes = fz_max_chunk_bytes f, max_total_bytes = fz_max_total_bytes f\<rparr>)))))"

subsection \<open>Retrieval\<close>

record semantic_adapter =
  sa_environment :: "rstr \<Rightarrow> rstr option"
  sa_embedding_transport :: "embedding_revision \<Rightarrow> rstr \<Rightarrow> embedding_response transport_outcome"
  sa_rerank_transport :: "rerank_revision \<Rightarrow> nat \<Rightarrow> rstr \<Rightarrow> rstr list \<Rightarrow> rerank_response transport_outcome"
  sa_recall :: "query_embedding \<Rightarrow> recall_env"

definition semantic_policy_of :: "retrieval_policy \<Rightarrow> semantic_policy" where
  "semantic_policy_of p = \<lparr>sp_tokenizer = tokenizer (keyword_part p), sp_tokenizer_version = tokenizer_version (keyword_part p),
     sp_keyword_top_k = keyword_top_k (keyword_part p), sp_keyword_threshold = keyword_threshold_millionths (keyword_part p),
     sp_model_revision = embedding_model_revision_sha256 (embedding_part p), sp_embedding_top_k = embedding_top_k (embedding_part p),
     sp_embedding_threshold = embedding_threshold_millionths (embedding_part p), sp_rrf = rrf_policy.truncate (rrf_part p),
     sp_rerank_top_k = rerank_top_k (rerank_part p)\<rparr>"

definition runtime_of ::
  "(bytes \<Rightarrow> rstr) \<Rightarrow> codecs \<Rightarrow> validated_policy \<Rightarrow> rerank_revision \<Rightarrow> rstr \<Rightarrow> semantic_adapter \<Rightarrow> semantic_runtime" where
  "runtime_of sha256 json validated rer rer_credential a =
     (let emb = vp_revision validated; policy = vp_policy validated
      in \<lparr>environment = sa_environment a,
          embedding = \<lparr>ep_endpoint = emb_endpoint_identity emb, ep_model = emb_model_identifier emb,
             ep_model_revision_sha256 = emb_model_revision_sha256 emb, ep_request_config_sha256 = emb_request_config_sha256 emb,
             ep_revision_sha256 = ok_or (artifact_sha256 sha256 validate_embedding_revision (json_embedding json) emb),
             ep_credential_ref = vp_credential_ref validated, ep_transport = sa_embedding_transport a emb\<rparr>,
          reranking = \<lparr>rp_endpoint = rer_endpoint_identity rer,
             rp_identity = \<lparr>policy_revision_sha256 = rerank_revision_sha256 (rerank_part policy),
                policy_model_revision_sha256 = rerank_model_revision_sha256 (rerank_part policy),
                policy_config_revision_sha256 = rerank_config_revision_sha256 (rerank_part policy),
                revision_sha256 = ok_or (artifact_sha256 sha256 validate_rerank_revision (json_rerank json) rer),
                revision_model_sha256 = rer_model_revision_sha256 rer, revision_config_sha256 = rer_config_revision_sha256 rer\<rparr>,
             rp_credential_ref = rer_credential, rp_transport = sa_rerank_transport a rer (rerank_timeout_ms (rerank_part policy))\<rparr>,
          recall_with = sa_recall a\<rparr>)"

record retrieval_env =
  re_sha256 :: "bytes \<Rightarrow> rstr"
  re_to_lowercase :: "nat \<Rightarrow> rstr"
  re_uuid_text :: "uuid \<Rightarrow> rstr"
  re_codecs :: codecs
  re_exact_only :: bool
  re_adapter :: "semantic_adapter option"
  re_media :: "uuid \<Rightarrow> evidence_media option"
  re_registry :: policy_registry
  re_snapshot_registry :: policy_registry
  re_snapshot :: snapshot

record evidence_request =
  rq_schema_version :: nat
  rq_requirement_sha256 :: rstr
  rq_requirement_text :: rstr
  rq_version_ids :: "uuid list"
  rq_policy :: policy_identity

definition retrieve_v2 :: "retrieval_env \<Rightarrow> rstr \<Rightarrow> evidence_request \<Rightarrow> policy_identity \<Rightarrow> frozen_identity option \<Rightarrow> retrieval_error + evidence_batch" where
  "retrieve_v2 env wk rq policy frozen =
     (let sha256 = re_sha256 env; json = re_codecs env
      in rbind (validate_request_v2 (re_to_lowercase env) (rq_schema_version rq) (rq_requirement_sha256 rq) (rq_requirement_text rq) (rq_version_ids rq) policy) (\<lambda>_.
         rbind (validate_supported_policy_v2 sha256 json (re_registry env) policy) (\<lambda>validated.
           if (case frozen of None \<Rightarrow> False
               | Some f \<Rightarrow> ok_or (canonical_bytes validate_retrieval_policy (json_policy json) (vp_policy validated)) \<noteq> Some (as_bytes (fz_canonical_policy f))
                   \<or> ok_or (canonical_bytes validate_embedding_revision (json_embedding json) (vp_revision validated)) \<noteq> Some (as_bytes (fz_canonical_embedding f))
                   \<or> vp_credential_ref validated \<noteq> fz_embedding_credential_ref f)
           then Inl (DigestMismatch ''frozen policy/embedding registry bytes or credential sidecar differ'')
           else rbind (lock_supported_policy sha256 json (re_snapshot_registry env) policy validated) (\<lambda>_.
                rbind (lock_rerank_revision sha256 json (re_snapshot_registry env) (vp_policy validated)) (\<lambda>(rer, rer_credential).
                  if (case frozen of None \<Rightarrow> False
                      | Some f \<Rightarrow> ok_or (canonical_bytes validate_rerank_revision (json_rerank json) rer) \<noteq> Some (as_bytes (fz_canonical_rerank f))
                          \<or> rer_credential \<noteq> fz_rerank_credential_ref f)
                  then Inl (DigestMismatch ''frozen rerank registry bytes or credential sidecar differ'')
                  else retrieve_snapshot sha256 (re_to_lowercase env) (re_uuid_text env) (re_exact_only env)
                         (map_option (runtime_of sha256 json validated rer rer_credential) (re_adapter env)) (re_media env) wk
                         (rq_requirement_text rq) (rq_version_ids rq) policy (semantic_policy_of (vp_policy validated)) (re_snapshot env))))))"

datatype evidence_scope = ProductLine evidence_request | Company evidence_request

fun retrieve_evidence_v3 :: "retrieval_env \<Rightarrow> evidence_scope \<Rightarrow> retrieval_error + evidence_batch" where
  "retrieve_evidence_v3 env (ProductLine rq) = retrieve_v2 env (lit ''product_line'') rq (rq_policy rq) None"
| "retrieve_evidence_v3 env (Company rq) = retrieve_v2 env (lit ''company'') rq (rq_policy rq) None"

fun frozen_to_retrieval_error :: "frozen_error \<Rightarrow> retrieval_error" where
  "frozen_to_retrieval_error (FrozenMismatch m) = DigestMismatch m"
| "frozen_to_retrieval_error (FrozenInvalid m) = InvalidRequest m"

text \<open>\<open>reparse\<close> reads back the canonical JSON of a frozen identity.\<close>

definition retrieve_frozen_evidence_v3 ::
  "(frozen_identity \<Rightarrow> frozen_identity option) \<Rightarrow> (uuid list \<Rightarrow> uuid list \<Rightarrow> bytes) \<Rightarrow> retrieval_env \<Rightarrow> frozen_identity \<Rightarrow> evidence_scope
     \<Rightarrow> retrieval_error + evidence_batch" where
  "retrieve_frozen_evidence_v3 reparse jcs_scope env f scope =
     (case reparse f of
        None \<Rightarrow> Inl (DigestMismatch ''frozen retrieval identity JCS'')
      | Some parsed \<Rightarrow>
          if parsed \<noteq> f then Inl (DigestMismatch ''frozen retrieval identity is not canonical'')
          else rbind (map_err frozen_to_retrieval_error (validate_frozen (re_sha256 env) (re_codecs env) jcs_scope f)) (\<lambda>policy.
            case scope of
              ProductLine rq \<Rightarrow>
                if rq_version_ids rq = fz_product_version_ids f \<and> rq_policy rq = policy
                then retrieve_v2 env (lit ''product_line'') rq policy (Some f)
                else Inl (DigestMismatch ''retrieval request differs from frozen scope or policy'')
            | Company rq \<Rightarrow>
                if rq_version_ids rq = fz_library_version_ids f \<and> rq_policy rq = policy
                then retrieve_v2 env (lit ''company'') rq policy (Some f)
                else Inl (DigestMismatch ''retrieval request differs from frozen scope or policy'')))"

end
