(* ===== verification/Retrieval_Policy_Props.thy ===== *)
theory Retrieval_Policy_Props
  imports Retrieval_Policy Evidence_Batch_Props
begin

text \<open>
  What the validation of policy artifacts accepts: exactly the printed forms of canonical endpoints and pinned model
  identifiers, and policies whose numbers fit the machine integers of retrieval.
\<close>

subsection \<open>Sequences of checks\<close>

lemma check_all_Inr: "check_all cs = Inr () \<longleftrightarrow> list_all (\<lambda>c. c = Inr ()) cs"
  by (induction cs) (auto simp: rbind_eq_Inr)

lemma require_Inr_iff: "require b e = Inr () \<longleftrightarrow> b"
  by (simp add: require_def)

subsection \<open>ASCII text\<close>

lemma as_bytes_ascii: "list_all (\<lambda>c. c < 128) s \<Longrightarrow> as_bytes s = s"
  by (induction s) (simp_all add: as_bytes_def utf8_char_def)

lemma ascii_as_bytes: "list_all (\<lambda>b. b < 128) (as_bytes s) \<Longrightarrow> as_bytes s = s"
proof (induction s)
  case (Cons c s)
  then have "list_all (\<lambda>b. b < 128) (utf8_char c)" "list_all (\<lambda>b. b < 128) (as_bytes s)" by (simp_all add: as_bytes_def)
  then have "utf8_char c = [c]" "as_bytes s = s" using Cons.IH by (auto simp: utf8_char_def split: if_splits)
  then show ?case by (simp add: as_bytes_def)
qed (simp add: as_bytes_def)

lemma digits_value_append: "digits_value (ds @ [b]) = digits_value ds * 10 + (b - 48)"
  by (simp add: digits_value_def)

lemma digits_value_less: "list_all is_ascii_digit ds \<Longrightarrow> digits_value ds < 10 ^ length ds"
proof (induction ds rule: rev_induct)
  case (snoc b ds)
  then have "digits_value ds * 10 + (b - 48) < 10 ^ length ds * 10" by (auto simp: is_ascii_digit_def)
  then show ?case by (simp add: digits_value_append mult.commute)
qed (simp add: digits_value_def)

lemma padded_digits_value: "list_all is_ascii_digit ds \<Longrightarrow> padded_digits (length ds) (digits_value ds) = ds"
proof (induction ds rule: rev_induct)
  case (snoc b ds)
  then obtain e where "b = 48 + e" "e < 10" by (auto simp: is_ascii_digit_def nat_le_iff_add)
  then show ?case using snoc by (simp add: digits_value_append)
qed simp

lemma digits_value_padded: "n < 10 ^ k \<Longrightarrow> digits_value (padded_digits k n) = n"
proof (induction k arbitrary: n)
  case (Suc k)
  have "n div 10 < 10 ^ k" using Suc.prems by (simp add: less_mult_imp_div_less mult.commute)
  then show ?case using Suc.IH [of "n div 10"] by (simp add: digits_value_append)
qed (simp add: digits_value_def)

lemma digits_ascii: "list_all is_ascii_digit ds \<Longrightarrow> list_all (\<lambda>c. c < 128) ds"
  by (auto simp: list_all_iff is_ascii_digit_def)

subsection \<open>Dates\<close>

text \<open>The Gregorian calendar.\<close>

definition month_length :: "nat \<Rightarrow> nat \<Rightarrow> nat" where
  "month_length y m = [31, if 4 dvd y \<and> (100 dvd y \<longrightarrow> 400 dvd y) then 29 else 28, 31, 30, 31, 30, 31, 31, 30, 31, 30, 31] ! (m - 1)"

definition real_date :: "nat \<Rightarrow> nat \<Rightarrow> nat \<Rightarrow> bool" where
  "real_date y m d \<longleftrightarrow> 1 \<le> y \<and> y \<le> 9999 \<and> 1 \<le> m \<and> m \<le> 12 \<and> 1 \<le> d \<and> d \<le> month_length y m"

definition iso_date :: "nat \<Rightarrow> nat \<Rightarrow> nat \<Rightarrow> rstr" where
  "iso_date y m d = padded_digits 4 y @ [45] @ padded_digits 2 m @ [45] @ padded_digits 2 d"

lemma days_in_month_cases: "days_in_month y m = (if 1 \<le> m \<and> m \<le> 12 then Some (month_length y m) else None)"
proof -
  have "m \<in> {1, 2, 3, 4, 5, 6, 7, 8, 9, 10, 11, 12} \<or> \<not> (1 \<le> m \<and> m \<le> 12)" by (simp; presburger)
  then show ?thesis by (auto simp: days_in_month_def month_length_def leap_year_def mod_eq_0_iff_dvd)
qed

lemma month_length_le: "1 \<le> m \<Longrightarrow> m \<le> 12 \<Longrightarrow> month_length y m \<le> 31"
proof -
  assume "1 \<le> m" "m \<le> 12"
  then have "m \<in> {1, 2, 3, 4, 5, 6, 7, 8, 9, 10, 11, 12}" by (simp; presburger)
  then show ?thesis by (auto simp: month_length_def)
qed

text \<open>The checks on a text of ten bytes.\<close>

lemma is_real_iso_date_bytes:
  "is_real_iso_date s \<longleftrightarrow> (let bs = as_bytes s; y = digits_value (take 4 bs); m = digits_value (take 2 (drop 5 bs)); d = digits_value (take 2 (drop 8 bs))
     in length bs = 10 \<and> bs ! 4 = 45 \<and> bs ! 7 = 45 \<and> (\<forall>i < 10. i \<noteq> 4 \<and> i \<noteq> 7 \<longrightarrow> is_ascii_digit (bs ! i)) \<and> real_date y m d)"
proof -
  let ?bs = "as_bytes s"
  have enum: "list_ex (\<lambda>(i, b). i \<noteq> 4 \<and> i \<noteq> 7 \<and> \<not> is_ascii_digit b) (enumerate 0 ?bs) \<longleftrightarrow> (\<exists>i < length ?bs. i \<noteq> 4 \<and> i \<noteq> 7 \<and> \<not> is_ascii_digit (?bs ! i))"
    by (auto simp: list_ex_iff in_set_enumerate_eq)
  have y: "digits_value (take 4 ?bs) \<le> 9999" if "length ?bs = 10" "\<forall>i < 10. i \<noteq> 4 \<and> i \<noteq> 7 \<longrightarrow> is_ascii_digit (?bs ! i)"
  proof -
    have "list_all is_ascii_digit (take 4 ?bs)" using that by (simp add: list_all_length)
    then have "digits_value (take 4 ?bs) < 10 ^ length (take 4 ?bs)" by (rule digits_value_less)
    then show ?thesis using that(1) by simp
  qed
  show ?thesis unfolding is_real_iso_date_def Let_def enum using y
    by (auto simp: days_in_month_cases real_date_def split: if_splits option.splits)
qed

lemma ten_bytes: "length bs = 10 \<Longrightarrow> bs ! 4 = (45::nat) \<Longrightarrow> bs ! 7 = 45 \<Longrightarrow> bs = take 4 bs @ [45] @ take 2 (drop 5 bs) @ [45] @ take 2 (drop 8 bs)"
  by (auto simp: length_Suc_conv numeral_eq_Suc)

lemma is_real_iso_date_iff: "is_real_iso_date s \<longleftrightarrow> (\<exists>y m d. real_date y m d \<and> s = iso_date y m d)"
proof
  assume "is_real_iso_date s"
  note all = this [unfolded is_real_iso_date_bytes Let_def]
  have bs: "length (as_bytes s) = 10" "as_bytes s ! 4 = 45" "as_bytes s ! 7 = 45"
    "\<And>i. i < 10 \<Longrightarrow> i \<noteq> 4 \<Longrightarrow> i \<noteq> 7 \<Longrightarrow> is_ascii_digit (as_bytes s ! i)"
    "real_date (digits_value (take 4 (as_bytes s))) (digits_value (take 2 (drop 5 (as_bytes s)))) (digits_value (take 2 (drop 8 (as_bytes s))))"
    using all by blast+
  have "as_bytes s ! i < 128" if "i < 10" for i
    using bs(2,3) bs(4) [OF that] by (cases "i = 4 \<or> i = 7") (auto simp: is_ascii_digit_def)
  then have s: "as_bytes s = s" using bs(1) by (intro ascii_as_bytes) (simp add: list_all_length)
  have "list_all is_ascii_digit (take 4 s)" "list_all is_ascii_digit (take 2 (drop 5 s))" "list_all is_ascii_digit (take 2 (drop 8 s))"
    using bs(1,4) by (simp_all add: s list_all_length)
  from this [THEN padded_digits_value] have "padded_digits 4 (digits_value (take 4 s)) = take 4 s"
    "padded_digits 2 (digits_value (take 2 (drop 5 s))) = take 2 (drop 5 s)" "padded_digits 2 (digits_value (take 2 (drop 8 s))) = take 2 (drop 8 s)"
    using bs(1) by (simp_all add: s)
  then have "s = iso_date (digits_value (take 4 s)) (digits_value (take 2 (drop 5 s))) (digits_value (take 2 (drop 8 s)))"
    using ten_bytes [of s] bs(1-3) by (simp add: iso_date_def s)
  then show "\<exists>y m d. real_date y m d \<and> s = iso_date y m d" using bs(5) unfolding s by blast
next
  assume "\<exists>y m d. real_date y m d \<and> s = iso_date y m d"
  then obtain y m d where r: "real_date y m d" and s: "s = iso_date y m d" by blast
  have len: "d \<le> 31" using r month_length_le [of m y] by (simp add: real_date_def)
  have "list_all (\<lambda>c. c < 128) s" by (simp add: s iso_date_def digits_ascii padded_digits_ascii)
  then have bs: "as_bytes s = s" by (rule as_bytes_ascii)
  have digit: "is_ascii_digit (padded_digits k n ! i)" if "i < k" for k n i
    using padded_digits_ascii [of k n] that by (simp add: list_all_length)
  have parts: "take 4 s = padded_digits 4 y" "take 2 (drop 5 s) = padded_digits 2 m" "take 2 (drop 8 s) = padded_digits 2 d" "length s = 10"
    "s ! 4 = 45" "s ! 7 = 45" by (simp_all add: s iso_date_def nth_append)
  have "is_ascii_digit (s ! i)" if "i < 10" "i \<noteq> 4" "i \<noteq> 7" for i
    using that by (auto simp: s iso_date_def nth_append nth_Cons' digit)
  then show "is_real_iso_date s" using r len parts
    by (simp add: is_real_iso_date_bytes Let_def bs digits_value_padded real_date_def)
qed

subsection \<open>Splitting text\<close>

lemma first_split: "u @ x # v = a @ x # b \<Longrightarrow> x \<notin> set u \<Longrightarrow> x \<notin> set a \<Longrightarrow> u = a \<and> v = b"
proof (induction u arbitrary: a)
  case (Cons c u)
  then show ?case by (cases a) auto
qed (auto simp: Cons_eq_append_conv)

lemma split_once_Some: "split_once sep s = Some (a, b) \<longleftrightarrow> s = a @ sep # b \<and> sep \<notin> set a"
proof (cases "sep \<in> set s")
  case True
  then obtain u v where s: "s = u @ sep # v" "sep \<notin> set u" by (meson split_list_first)
  then have "takeWhile (\<lambda>c. c \<noteq> sep) s = u" "dropWhile (\<lambda>c. c \<noteq> sep) s = sep # v"
    by (simp_all add: takeWhile_tail dropWhile_append) (metis takeWhile_eq_all_conv)+
  moreover have "u = a \<and> v = b" if "u @ sep # v = a @ sep # b" "sep \<notin> set a"
    using first_split [OF that(1) s(2) that(2)] .
  ultimately show ?thesis using True s by (auto simp: split_once_def)
qed (auto simp: split_once_def)

lemma split_once_None: "split_once sep s = None \<longleftrightarrow> sep \<notin> set s"
  by (simp add: split_once_def)

lemma rsplit_once_Some: "rsplit_once sep s = Some (a, b) \<longleftrightarrow> s = a @ sep # b \<and> sep \<notin> set b"
proof -
  have "rsplit_once sep s = Some (a, b) \<longleftrightarrow> split_once sep (rev s) = Some (rev b, rev a)"
    unfolding rsplit_once_def by (cases "split_once sep (rev s)") auto
  also have "\<dots> \<longleftrightarrow> rev s = rev b @ sep # rev a \<and> sep \<notin> set b" by (simp add: split_once_Some)
  also have "rev s = rev b @ sep # rev a \<longleftrightarrow> s = a @ sep # b" by (metis append.assoc append_Cons append_Nil rev.simps(2) rev_append rev_rev_ident)
  finally show ?thesis .
qed

lemma rsplit_once_None: "rsplit_once sep s = None \<longleftrightarrow> sep \<notin> set s"
  by (simp add: rsplit_once_def split_once_None)

lemma strip_prefix_Some: "strip_prefix p s = Some t \<longleftrightarrow> s = p @ t"
  by (auto simp: strip_prefix_def prefix_def)

lemma split_char_no_occurrence: "sep \<notin> set s \<Longrightarrow> split_char sep s = [s]"
  by (induction s) auto

lemma split_char_Cons_join: "sep \<notin> set l \<Longrightarrow> split_char sep (l @ sep # s) = l # split_char sep s"
  by (induction l) auto

lemma split_char_join: "ls \<noteq> [] \<Longrightarrow> (\<And>l. l \<in> set ls \<Longrightarrow> sep \<notin> set l) \<Longrightarrow> split_char sep (join [sep] ls) = ls"
  by (induction "[sep]" ls rule: join.induct) (simp_all add: split_char_no_occurrence split_char_Cons_join)

lemma concat_segments: "ls \<noteq> [] \<Longrightarrow> concat (map (\<lambda>s. sep # s) ls) = sep # join [sep] ls"
  by (induction "[sep]" ls rule: join.induct) simp_all

subsection \<open>Model identifiers\<close>

definition pinned_revision :: "rstr \<Rightarrow> bool" where
  "pinned_revision r \<longleftrightarrow> (\<exists>digest. lower_hex64 digest \<and> r = lit ''sha256:'' @ digest) \<or> (\<exists>y m d. real_date y m d \<and> r = iso_date y m d)"

lemma iso_date_not_sha: "iso_date y m d \<noteq> lit ''sha256:'' @ t"
proof
  assume eq: "iso_date y m d = lit ''sha256:'' @ t"
  have "is_ascii_digit (hd (iso_date y m d))"
    using padded_digits_ascii [of 4 y] length_padded_digits [of 4 y] by (cases "padded_digits 4 y") (auto simp: iso_date_def)
  then show False unfolding eq by (simp add: lit_def is_ascii_digit_def)
qed

text \<open>
  C36: a model identifier is accepted exactly when it is pinned: a base of allowed characters, an at sign, and a revision that is either a
  SHA-256 digest or a date of the Gregorian calendar, together within 256 bytes.
\<close>

theorem model_identifier_pinned:
  "validate_provider_model_identifier value = Inr () \<longleftrightarrow>
     (\<exists>model_base revision. value = model_base @ 64 # revision \<and> model_base \<noteq> [] \<and> list_all model_base_char model_base
        \<and> pinned_revision revision \<and> byte_len value \<le> 256)"
proof -
  have ne: "revision \<noteq> []" if "pinned_revision revision" for revision
    using that by (auto simp: pinned_revision_def lit_def iso_date_def)
  have rev: "(case strip_prefix (lit ''sha256:'') r of Some digest \<Rightarrow> validate_embedding_sha256 digest
      | None \<Rightarrow> if \<not> is_real_iso_date r then Inl e else Inr ()) = Inr () \<longleftrightarrow> pinned_revision r" for r e
  proof (cases "strip_prefix (lit ''sha256:'') r")
    case None
    then have "\<not> (\<exists>digest. r = lit ''sha256:'' @ digest)" by (metis option.distinct(1) strip_prefix_Some)
    then show ?thesis using None by (auto simp: pinned_revision_def is_real_iso_date_iff)
  next
    case (Some t)
    then have "r = lit ''sha256:'' @ t" by (simp add: strip_prefix_Some)
    moreover then have "r \<noteq> iso_date y m d" for y m d using iso_date_not_sha [of y m d t] by metis
    ultimately show ?thesis using Some by (auto simp: pinned_revision_def validate_embedding_sha256_def require_Inr_iff)
  qed
  have at: "64 \<notin> set b" if "list_all model_base_char b" for b
    using that by (auto simp: list_all_iff model_base_char_def is_ascii_alphanumeric_def is_ascii_digit_def is_ascii_lowercase_def is_ascii_uppercase_def)
  have ex: "list_ex (\<lambda>b. \<not> model_base_char b) b \<longleftrightarrow> \<not> list_all model_base_char b" for b by (auto simp: list_ex_iff list_all_iff)
  show ?thesis
  proof (cases "split_once 64 value")
    case None
    then have "64 \<notin> set value" by (simp add: split_once_None)
    then show ?thesis using None by (auto simp: validate_provider_model_identifier_def)
  next
    case (Some p)
    obtain b r where p: "p = (b, r)" by (cases p)
    then have v: "value = b @ 64 # r" "64 \<notin> set b" using Some by (simp_all add: split_once_Some)
    have unique: "b' = b \<and> r' = r" if "value = b' @ 64 # r'" "list_all model_base_char b'" for b' r'
      using first_split [of b' 64 r' b r] that v at by metis
    have "value \<noteq> []" using v by simp
    then have "validate_provider_model_identifier value = Inr () \<longleftrightarrow> byte_len value \<le> 256 \<and> b \<noteq> [] \<and> list_all model_base_char b \<and> pinned_revision r"
      unfolding validate_provider_model_identifier_def Some p option.case prod.case ex using rev [of r] ne [of r] by auto
    then show ?thesis using unique v(1) by metis
  qed
qed

subsection \<open>Endpoints\<close>

record endpoint =
  host_labels :: "rstr list"
  port_number :: "nat option"
  path_segments :: "rstr list"

definition print_port :: "nat option \<Rightarrow> rstr" where
  "print_port p = (case p of None \<Rightarrow> [] | Some n \<Rightarrow> 58 # lit (nat_to_dec n))"

definition print_endpoint :: "endpoint \<Rightarrow> rstr" where
  "print_endpoint e = lit ''https://'' @ join [46] (host_labels e) @ print_port (port_number e) @ concat (map (\<lambda>s. 47 # s) (path_segments e))"

text \<open>Canonical endpoints: labels of a DNS name, a port other than the default one, segments that are neither empty nor relative.\<close>

definition endpoint_ok :: "endpoint \<Rightarrow> bool" where
  "endpoint_ok e \<longleftrightarrow> host_labels e \<noteq> [] \<and> list_all valid_dns_label (host_labels e)
     \<and> (case port_number e of None \<Rightarrow> True | Some n \<Rightarrow> 1 \<le> n \<and> n < 65536 \<and> n \<noteq> 443)
     \<and> list_all (\<lambda>s. \<not> bad_segment s) (path_segments e)"

definition authority_of :: "rstr \<Rightarrow> rstr \<times> rstr" where
  "authority_of remainder = (case split_once 47 remainder of Some x \<Rightarrow> x | None \<Rightarrow> (remainder, []))"

definition host_port_of :: "rstr \<Rightarrow> rstr \<times> rstr option" where
  "host_port_of authority = (case rsplit_once 58 authority of Some (h, p) \<Rightarrow> (h, Some p) | None \<Rightarrow> (authority, None))"

definition endpoint_of :: "rstr \<Rightarrow> endpoint" where
  "endpoint_of remainder =
     (let (authority, path) = authority_of remainder; (host, port) = host_port_of authority
      in \<lparr>host_labels = split_char 46 host, port_number = map_option digits_value port,
          path_segments = (if path = [] then [] else split_char 47 path)\<rparr>)"

text \<open>Decimal numbers without leading zeros.\<close>

lemma lit_digits: "list_all is_ascii_digit (lit (nat_to_dec n)) \<and> digits_value (lit (nat_to_dec n)) = n \<and> lit (nat_to_dec n) \<noteq> []
   \<and> (0 < n \<longrightarrow> hd (lit (nat_to_dec n)) \<noteq> 48)"
proof (induction n rule: nat_to_dec.induct)
  case (1 n)
  have d: "of_char (digit_char k) = (48 + k :: nat)" if "k < 10" for k using that by (simp add: digit_char_def)
  show ?case
  proof (cases "n < 10")
    case True
    then show ?thesis by (subst (1 2 3 4) nat_to_dec.simps) (simp add: lit_def d is_ascii_digit_def digits_value_def)
  next
    case False
    then have ih: "list_all is_ascii_digit (lit (nat_to_dec (n div 10)))" "digits_value (lit (nat_to_dec (n div 10))) = n div 10"
      "lit (nat_to_dec (n div 10)) \<noteq> []" "hd (lit (nat_to_dec (n div 10))) \<noteq> 48" using 1 by auto
    have "lit (nat_to_dec n) = lit (nat_to_dec (n div 10)) @ [48 + n mod 10]"
      using False d [of "n mod 10"] by (subst nat_to_dec.simps) (simp add: lit_def)
    moreover have "is_ascii_digit (48 + n mod 10)" using mod_less_divisor [of 10 n] by (simp add: is_ascii_digit_def)
    ultimately show ?thesis using ih by (simp add: digits_value_append)
  qed
qed

lemma digits_canonical: "list_all is_ascii_digit t \<Longrightarrow> t \<noteq> [] \<Longrightarrow> \<not> prefix [48] t \<Longrightarrow> lit (nat_to_dec (digits_value t)) = t \<and> 0 < digits_value t"
proof (induction t rule: rev_induct)
  case (snoc b t)
  obtain e where b: "b = 48 + e" "e < 10" using snoc.prems(1) by (auto simp: is_ascii_digit_def nat_le_iff_add)
  have of_d: "of_char (digit_char e) = (48 + e :: nat)" using b(2) by (simp add: digit_char_def)
  show ?case
  proof (cases "t = []")
    case True
    then have "0 < e" using snoc.prems(3) b by (cases e) auto
    then show ?thesis using True b of_d by (simp add: digits_value_def nat_to_dec.simps lit_def)
  next
    case False
    have "\<not> prefix [48] t" using snoc.prems(3) prefix_prefix by blast
    then have ih: "lit (nat_to_dec (digits_value t)) = t" "0 < digits_value t" using snoc False by auto
    have "lit (nat_to_dec (digits_value (t @ [b]))) = lit (nat_to_dec (digits_value t)) @ [b]"
      using ih(2) b of_d by (subst nat_to_dec.simps) (simp add: digits_value_append lit_def)
    then show ?thesis using ih by (simp add: digits_value_append)
  qed
qed simp

lemma validate_port_iff: "validate_port t = Inr () \<longleftrightarrow> (\<exists>n. 1 \<le> n \<and> n < 65536 \<and> n \<noteq> 443 \<and> t = lit (nat_to_dec n))"
proof
  assume v: "validate_port t = Inr ()"
  then have t: "t \<noteq> []" "\<not> prefix [48] t" "list_all is_ascii_digit t" "digits_value t < 65536" "digits_value t \<noteq> 443"
    by (auto simp: validate_port_def split: if_splits)
  then show "\<exists>n. 1 \<le> n \<and> n < 65536 \<and> n \<noteq> 443 \<and> t = lit (nat_to_dec n)"
    using digits_canonical [of t] by (intro exI [of _ "digits_value t"]) simp
next
  assume "\<exists>n. 1 \<le> n \<and> n < 65536 \<and> n \<noteq> 443 \<and> t = lit (nat_to_dec n)"
  then obtain n where n: "1 \<le> n" "n < 65536" "n \<noteq> 443" "t = lit (nat_to_dec n)" by blast
  then have "\<not> prefix [48] t" using lit_digits [of n] by (auto simp: prefix_def)
  then show "validate_port t = Inr ()" using n lit_digits [of n] by (simp add: validate_port_def)
qed

lemma label_chars: "valid_dns_label l \<Longrightarrow> 46 \<notin> set l \<and> 47 \<notin> set l \<and> 58 \<notin> set l"
  by (auto simp: valid_dns_label_def list_all_iff dns_char_def is_ascii_lowercase_def is_ascii_digit_def)

lemma segment_chars: "\<not> bad_segment s \<Longrightarrow> s \<noteq> [] \<and> 47 \<notin> set s"
  by (auto simp: bad_segment_def list_all_iff path_char_def is_ascii_alphanumeric_def is_ascii_lowercase_def is_ascii_uppercase_def is_ascii_digit_def)

lemma set_join: "set (join [sep] ls) \<subseteq> insert sep (\<Union>l \<in> set ls. set l)"
  by (induction "[sep]" ls rule: join.induct) auto

lemma host_chars: "list_all valid_dns_label ls \<Longrightarrow> 47 \<notin> set (join [46] ls) \<and> 58 \<notin> set (join [46] ls)"
  using set_join [of 46 ls] label_chars by (fastforce simp: list_all_iff)

lemma port_chars: "47 \<notin> set (print_port p) \<and> 58 \<notin> set (tl (print_port p))"
proof (cases p)
  case (Some n)
  then show ?thesis using lit_digits [of n] by (auto simp: print_port_def list_all_iff is_ascii_digit_def)
qed (simp add: print_port_def)

text \<open>Reading a printed endpoint gives it back.\<close>

lemma endpoint_of_print:
  assumes ok: "endpoint_ok e"
  defines "host \<equiv> join [46] (host_labels e)"
  shows "authority_of (drop 8 (print_endpoint e)) = (host @ print_port (port_number e), if path_segments e = [] then [] else join [47] (path_segments e))"
    and "host_port_of (host @ print_port (port_number e)) = (host, map_option (lit \<circ> nat_to_dec) (port_number e))"
    and "split_char 46 host = host_labels e" and "path_segments e \<noteq> [] \<Longrightarrow> split_char 47 (join [47] (path_segments e)) = path_segments e"
proof -
  have ls: "host_labels e \<noteq> []" "list_all valid_dns_label (host_labels e)" and segs: "list_all (\<lambda>s. \<not> bad_segment s) (path_segments e)"
    using ok by (simp_all add: endpoint_ok_def)
  have chars: "47 \<notin> set host" "58 \<notin> set host" "47 \<notin> set (print_port (port_number e))" "58 \<notin> set (tl (print_port (port_number e)))"
    using host_chars [OF ls(2)] port_chars [of "port_number e"] by (simp_all add: host_def)
  have rem: "drop 8 (print_endpoint e) = (host @ print_port (port_number e)) @ concat (map (\<lambda>s. 47 # s) (path_segments e))"
    by (simp add: print_endpoint_def lit_def host_def)
  show "authority_of (drop 8 (print_endpoint e)) = (host @ print_port (port_number e), if path_segments e = [] then [] else join [47] (path_segments e))"
  proof (cases "path_segments e = []")
    case True
    then have "split_once 47 (drop 8 (print_endpoint e)) = None" unfolding rem split_once_None using chars by simp
    then show ?thesis using True by (simp add: authority_of_def rem)
  next
    case False
    then have "split_once 47 (drop 8 (print_endpoint e)) = Some (host @ print_port (port_number e), join [47] (path_segments e))"
      unfolding rem split_once_Some using chars by (simp add: concat_segments)
    then show ?thesis using False by (simp add: authority_of_def)
  qed
  show "host_port_of (host @ print_port (port_number e)) = (host, map_option (lit \<circ> nat_to_dec) (port_number e))"
  proof (cases "port_number e")
    case None
    then have "rsplit_once 58 (host @ print_port (port_number e)) = None" using chars by (simp add: rsplit_once_None print_port_def)
    then show ?thesis using None by (simp add: host_port_of_def print_port_def)
  next
    case (Some n)
    then have "rsplit_once 58 (host @ print_port (port_number e)) = Some (host, lit (nat_to_dec n))"
      using chars by (simp add: rsplit_once_Some print_port_def)
    then show ?thesis using Some by (simp add: host_port_of_def)
  qed
  show "split_char 46 host = host_labels e" unfolding host_def using ls label_chars by (intro split_char_join) (auto simp: list_all_iff)
  show "split_char 47 (join [47] (path_segments e)) = path_segments e" if "path_segments e \<noteq> []"
    using that segs segment_chars by (intro split_char_join) (auto simp: list_all_iff)
qed

lemma endpoint_of_print_eq: "endpoint_ok e \<Longrightarrow> endpoint_of (drop 8 (print_endpoint e)) = e"
proof -
  assume ok: "endpoint_ok e"
  have "join [47] (path_segments e) \<noteq> []" if "path_segments e \<noteq> []"
  proof
    assume "join [47] (path_segments e) = []"
    then have "path_segments e = [[]]" using endpoint_of_print(4) [OF ok that] by simp
    then show False using ok by (simp add: endpoint_ok_def bad_segment_def)
  qed
  then show ?thesis
    using endpoint_of_print [OF ok] lit_digits by (cases e; cases "port_number e") (auto simp: endpoint_of_def)
qed

definition remainder_ok :: "rstr \<Rightarrow> bool" where
  "remainder_ok remainder \<longleftrightarrow>
     (let (authority, path) = authority_of remainder; (host, port) = host_port_of authority
      in host \<noteq> [] \<and> length (filter (\<lambda>b. b = 58) authority) \<le> 1 \<and> list_all valid_dns_label (split_char 46 host)
         \<and> (\<forall>p. port = Some p \<longrightarrow> validate_port p = Inr ()) \<and> (path \<noteq> [] \<longrightarrow> list_all (\<lambda>s. \<not> bad_segment s) (split_char 47 path))
         \<and> \<not> ends_with_lit [47] remainder)"

lemma validate_endpoint_remainder: "validate_endpoint_identity value = Inr () \<longleftrightarrow> (\<exists>remainder. value = lit ''https://'' @ remainder \<and> remainder_ok remainder)"
proof (cases "strip_prefix (lit ''https://'') value")
  case None
  then show ?thesis using strip_prefix_Some [of "lit ''https://''" "value"] by (auto simp: validate_endpoint_identity_def)
next
  case (Some r)
  obtain a p where a: "authority_of r = (a, p)" by (cases "authority_of r")
  obtain h q where h: "host_port_of a = (h, q)" by (cases "host_port_of a")
  have ex: "list_ex bad_segment ss \<longleftrightarrow> \<not> list_all (\<lambda>s. \<not> bad_segment s) ss" for ss by (auto simp: list_ex_iff list_all_iff)
  have "validate_endpoint_identity value = Inr () \<longleftrightarrow> remainder_ok r"
    using Some a h unfolding validate_endpoint_identity_def authority_of_def [symmetric] host_port_of_def [symmetric] remainder_ok_def
    by (auto simp: Let_def ex rbind_eq_Inr not_less split: option.splits)
  moreover have "value = lit ''https://'' @ r' \<longleftrightarrow> r' = r" for r' using Some by (auto simp: strip_prefix_Some)
  ultimately show ?thesis by simp
qed

lemma split_char_snoc: "split_char sep (s @ [sep]) = split_char sep s @ [[]]"
proof (induction s)
  case (Cons c s)
  then show ?case by (cases "split_char sep s") auto
qed simp

lemma authority_cases:
  assumes "authority_of r = (a, p)" and "\<not> ends_with_lit [47] r"
  shows "r = a @ concat (map (\<lambda>s. 47 # s) (if p = [] then [] else split_char 47 p))"
proof (cases "split_once 47 r")
  case None
  then show ?thesis using assms(1) by (auto simp: authority_of_def)
next
  case (Some x)
  then have r: "r = a @ 47 # p" using assms(1) by (simp add: authority_of_def split_once_Some)
  then have "p \<noteq> []" using assms(2) by (auto simp: ends_with_lit_def suffix_def)
  then show ?thesis using r concat_segments [of "split_char 47 p" 47] by simp
qed

lemma remainder_endpoint:
  assumes ok: "remainder_ok r"
  shows "endpoint_ok (endpoint_of r) \<and> print_endpoint (endpoint_of r) = lit ''https://'' @ r"
proof -
  obtain a p where a: "authority_of r = (a, p)" by (cases "authority_of r")
  obtain h q where h: "host_port_of a = (h, q)" by (cases "host_port_of a")
  have c: "list_all valid_dns_label (split_char 46 h)" "\<forall>p. q = Some p \<longrightarrow> validate_port p = Inr ()"
    "p \<noteq> [] \<longrightarrow> list_all (\<lambda>s. \<not> bad_segment s) (split_char 47 p)" "\<not> ends_with_lit [47] r"
    using ok by (simp_all add: remainder_ok_def a h)
  have port: "a = h @ print_port (map_option digits_value q) \<and> (case map_option digits_value q of None \<Rightarrow> True | Some n \<Rightarrow> 1 \<le> n \<and> n < 65536 \<and> n \<noteq> 443)"
  proof (cases q)
    case None
    then have "a = h" using h by (auto simp: host_port_of_def split: option.splits)
    then show ?thesis using None by (simp add: print_port_def)
  next
    case (Some t)
    then obtain n where n: "1 \<le> n" "n < 65536" "n \<noteq> 443" "t = lit (nat_to_dec n)" using c(2) by (auto simp: validate_port_iff)
    have "a = h @ 58 # t" using h Some by (auto simp: host_port_of_def rsplit_once_Some split: option.splits)
    then show ?thesis using Some n lit_digits [of n] by (simp add: print_port_def)
  qed
  have e: "endpoint_of r = \<lparr>host_labels = split_char 46 h, port_number = map_option digits_value q, path_segments = if p = [] then [] else split_char 47 p\<rparr>"
    by (simp add: endpoint_of_def a h)
  have "endpoint_ok (endpoint_of r)" unfolding e endpoint_ok_def using c port by simp
  moreover have "print_endpoint (endpoint_of r) = lit ''https://'' @ r"
    unfolding e print_endpoint_def using authority_cases [OF a c(4)] port by simp
  ultimately show ?thesis ..
qed

lemma endpoint_remainder:
  assumes ok: "endpoint_ok e"
  shows "remainder_ok (drop 8 (print_endpoint e)) \<and> print_endpoint e = lit ''https://'' @ drop 8 (print_endpoint e)"
proof -
  let ?host = "join [46] (host_labels e)" and ?port = "print_port (port_number e)" and ?r = "drop 8 (print_endpoint e)"
  have https: "print_endpoint e = lit ''https://'' @ ?r" by (simp add: print_endpoint_def lit_def)
  have ls: "host_labels e \<noteq> []" "list_all valid_dns_label (host_labels e)" using ok by (simp_all add: endpoint_ok_def)
  have host: "?host \<noteq> []"
  proof
    assume "?host = []"
    then have "host_labels e = [[]]" using endpoint_of_print(3) [OF ok] by simp
    then show False using ls(2) by (simp add: valid_dns_label_def)
  qed
  have chars: "47 \<notin> set ?host" "58 \<notin> set ?host" "47 \<notin> set ?port" "58 \<notin> set (tl ?port)"
    using host_chars [OF ls(2)] port_chars [of "port_number e"] by simp_all
  have "filter (\<lambda>b. b = 58) ?host = []" "filter (\<lambda>b. b = 58) (tl ?port) = []" using chars by (auto simp: filter_empty_conv)
  then have count: "length (filter (\<lambda>b. b = 58) (?host @ ?port)) \<le> 1" by (cases ?port) simp_all
  have port: "validate_port t = Inr ()" if "map_option (lit \<circ> nat_to_dec) (port_number e) = Some t" for t
    using that ok by (auto simp: validate_port_iff endpoint_ok_def)
  have slash: "\<not> ends_with_lit [47] ?r"
  proof (cases "path_segments e = []")
    case True
    then have "?r = ?host @ ?port" by (simp add: print_endpoint_def lit_def)
    then show ?thesis using chars unfolding ends_with_lit_def suffix_def by (metis in_set_conv_decomp set_append UnE)
  next
    case False
    then have r: "?r = (?host @ ?port) @ 47 # join [47] (path_segments e)" by (simp add: print_endpoint_def lit_def concat_segments)
    show ?thesis
    proof
      assume "ends_with_lit [47] ?r"
      then obtain z where z: "(?host @ ?port) @ 47 # join [47] (path_segments e) = z @ [47]" unfolding r ends_with_lit_def suffix_def by blast
      then have "join [47] (path_segments e) = [] \<or> (\<exists>y. join [47] (path_segments e) = y @ [47])" by (cases "join [47] (path_segments e)" rule: rev_cases) auto
      then have "[] \<in> set (split_char 47 (join [47] (path_segments e)))" using split_char_snoc by fastforce
      then show False using endpoint_of_print(4) [OF ok False] ok by (auto simp: endpoint_ok_def list_all_iff bad_segment_def)
    qed
  qed
  have "remainder_ok ?r"
    unfolding remainder_ok_def Let_def endpoint_of_print(1) [OF ok] prod.case endpoint_of_print(2) [OF ok]
    using host count ls endpoint_of_print(3,4) [OF ok] port ok slash by (auto simp: endpoint_ok_def)
  then show ?thesis using https by blast
qed

text \<open>
  C37: an endpoint identity is accepted exactly when it is the printed form of a canonical endpoint, and of only one: lower-case DNS labels, a
  port between 1 and 65535 that is not the default and has no leading zero, and path segments that are not empty and
  not relative.  So two accepted texts are equal exactly when they name the same endpoint.
\<close>

theorem endpoint_identity_canonical:
  "validate_endpoint_identity value = Inr () \<longleftrightarrow> (\<exists>!e. endpoint_ok e \<and> print_endpoint e = value)"
proof
  assume "validate_endpoint_identity value = Inr ()"
  then obtain r where r: "value = lit ''https://'' @ r" "remainder_ok r" by (auto simp: validate_endpoint_remainder)
  show "\<exists>!e. endpoint_ok e \<and> print_endpoint e = value"
  proof (rule ex1I [of _ "endpoint_of r"])
    show "endpoint_ok (endpoint_of r) \<and> print_endpoint (endpoint_of r) = value" using remainder_endpoint [OF r(2)] r(1) by simp
    show "e = endpoint_of r" if e: "endpoint_ok e \<and> print_endpoint e = value" for e
    proof -
      have "drop 8 (print_endpoint e) = r" using e r(1) by (simp add: lit_def)
      then show ?thesis using endpoint_of_print_eq e by metis
    qed
  qed
next
  assume "\<exists>!e. endpoint_ok e \<and> print_endpoint e = value"
  then obtain e where e: "endpoint_ok e" "print_endpoint e = value" by blast
  then show "validate_endpoint_identity value = Inr ()" using endpoint_remainder [OF e(1)] by (auto simp: validate_endpoint_remainder)
qed

subsection \<open>Policies\<close>

lemma validate_policy_bounds:
  assumes "validate_retrieval_policy p = Inr ()"
  shows "pol_contract_version p = contract_v2 \<and> rrf_k (rrf_part p) \<le> 1000000
     \<and> keyword_weight_millionths (rrf_part p) \<le> 1000000000 \<and> vector_weight_millionths (rrf_part p) \<le> 1000000000
     \<and> keyword_top_k (keyword_part p) \<le> 1000000 \<and> embedding_top_k (embedding_part p) \<le> 1000000 \<and> rerank_top_k (rerank_part p) \<le> 1000000"
  using assms unfolding validate_retrieval_policy_def check_all_Inr
  by (simp add: require_Inr_iff validate_top_k_def validate_weight_def)

end
