(* ===== verification/Evidence_Retrieval_Props.thy ===== *)
theory Evidence_Retrieval_Props
  imports Evidence_Recall_Props Evidence_Retrieve Retrieval_Policy_Props
begin

text \<open>
  The two theorems on retrieval as a whole: recall is deterministic, and a retrieved batch is never rejected by its own validation.
\<close>

subsection \<open>Recall without hash orders\<close>

lemma channel_ranks_ok:
  assumes "top_k < 2 ^ 32"
  shows "rank_ok (map_of (channel_ranks score threshold top_k rows) i)"
proof (cases "map_of (channel_ranks score threshold top_k rows) i")
  case (Some r)
  have "\<exists>ys. channel_ranks score threshold top_k rows = map (\<lambda>(rank, n, v, c). (sc_id c, rank)) (enumerate 1 (take top_k (ys :: (nat \<times> snap_version \<times> snap_chunk) list)))"
    unfolding channel_ranks_def Let_def by blast
  then obtain ys where ys: "channel_ranks score threshold top_k rows = map (\<lambda>(rank, n, v, c). (sc_id c, rank)) (enumerate 1 (take top_k (ys :: (nat \<times> snap_version \<times> snap_chunk) list)))" ..
  obtain x where "(r, x) \<in> set (enumerate 1 (take top_k ys))" using map_of_SomeD [OF Some] unfolding ys by auto
  then have "r \<in> set [1..<1 + length (take top_k ys)]" unfolding enumerate_eq_zip by (rule set_zip_leftD)
  then have "0 < r \<and> r < 1 + length (take top_k ys)" by auto
  then have "0 < r \<and> r \<le> top_k" by auto
  then show ?thesis using assms by (simp add: Some rank_ok_def)
qed (simp add: rank_ok_def)

lemma sources_trusted: "sources_ok (load_sources wk versions sn)"
  by (auto simp: sources_ok_def load_sources_iff live_chunks_iff chunk_of_def)

lemma refs_of_set:
  assumes "set a = set b"
  shows "load_graph_refs sn signals a = load_graph_refs sn signals b" and "load_wiki_refs sn signals a = load_wiki_refs sn signals b"
proof -
  have "set (active_of_type t signals a) = set (active_of_type t signals b)" for t using assms by (simp add: active_of_type_def)
  then show "load_graph_refs sn signals a = load_graph_refs sn signals b" "load_wiki_refs sn signals a = load_wiki_refs sn signals b"
    by (simp_all add: load_graph_refs_def load_wiki_refs_def)
qed

definition exact_ids :: "(nat \<Rightarrow> rstr) \<Rightarrow> rstr \<Rightarrow> source list \<Rightarrow> uuid list" where
  "exact_ids to_lowercase requirement sources =
     map src_id (filter (\<lambda>s. contains_lit requirement (normalize_exact to_lowercase (src_content s))) sources)"

definition active_ids :: "(uuid \<times> nat) list \<Rightarrow> (uuid \<times> nat) list \<Rightarrow> uuid list" where
  "active_ids keywords vectors = remdups (map fst keywords @ map fst vectors)"

text \<open>Recall with the containers in the order of their lists.\<close>

definition recall_reference ::
  "(bytes \<Rightarrow> rstr) \<Rightarrow> (nat \<Rightarrow> rstr) \<Rightarrow> (uuid \<Rightarrow> nat option) \<Rightarrow> (uuid \<Rightarrow> vector_score) \<Rightarrow> semantic_policy \<Rightarrow> rstr \<Rightarrow> uuid list \<Rightarrow> rstr \<Rightarrow> snapshot
     \<Rightarrow> retrieval_error + semantic_candidate list" where
  "recall_reference sha256 to_lowercase ks vs policy wk eligible requirement sn =
     (let signals = load_signals wk eligible sn; sources = load_sources wk eligible sn; keywords = keyword_ranks policy ks wk eligible sn
      in rbind (vector_ranks policy vs wk eligible sn) (\<lambda>vectors.
           let active = active_ids keywords vectors
           in rbind (load_graph_refs sn signals active) (\<lambda>graph_refs.
              rbind (load_wiki_refs sn signals active) (\<lambda>wiki_refs.
                let ctx = \<lparr>rc_signals = signals, rc_sources = sources, rc_graph_refs = graph_refs, rc_wiki_refs = wiki_refs,
                           rc_vector_ranks = vectors, rc_keyword_ranks = keywords, rc_exact = exact_ids to_lowercase requirement sources\<rparr>
                in if \<exists>i \<in> set active. get_signal signals i = None then Inl (integrity ''ranked signal left snapshot scope'')
                   else Inr (rank_candidates (sp_rerank_top_k policy) (candidates_from sha256 (sp_rrf policy) ctx (fold (add_entry ctx) active [])))))))"

definition policy_bounded :: "semantic_policy \<Rightarrow> bool" where
  "policy_bounded p \<longleftrightarrow> rrf_bounded (sp_rrf p) \<and> sp_keyword_top_k p < 2 ^ 32 \<and> sp_embedding_top_k p < 2 ^ 32"

lemma active_ranked:
  assumes p: "policy_bounded policy" and v: "vector_ranks policy vs wk eligible sn = Inr vectors" and i: "i \<in> set (active_ids keywords vectors)"
    and k: "keywords = keyword_ranks policy ks wk eligible sn" and ctx: "rc_vector_ranks ctx = vectors" "rc_keyword_ranks ctx = keywords"
  shows "ranked ctx i"
proof -
  have "rank_ok (map_of vectors i)" "rank_ok (map_of keywords i)"
    using p v k channel_ranks_ok by (auto simp: policy_bounded_def vector_ranks_def keyword_ranks_def Let_def split: if_splits)
  moreover have "map_of vectors i \<noteq> None \<or> map_of keywords i \<noteq> None" using i by (auto simp: active_ids_def map_of_eq_None_iff)
  ultimately show ?thesis by (simp add: ranked_def ctx)
qed

lemma recall_ranked_reference:
  assumes p: "policy_bounded policy" and f: "hash_order (order_ids env)" and g: "hash_order (order_folded env)"
  shows "recall_ranked sha256 to_lowercase env policy wk eligible requirement sn
     = recall_reference sha256 to_lowercase (keyword_score env) (vector_score_of env) policy wk eligible requirement sn"
proof (cases "vector_ranks policy (vector_score_of env) wk eligible sn")
  case (Inl e)
  then show ?thesis by (simp add: recall_ranked_def recall_reference_def)
next
  case v: (Inr vectors)
  let ?signals = "load_signals wk eligible sn" and ?sources = "load_sources wk eligible sn"
    and ?keywords = "keyword_ranks policy (keyword_score env) wk eligible sn"
  let ?active = "active_ids ?keywords vectors"
  have set_active: "set (order_ids env ?active) = set ?active" using f by (rule hash_order_set)
  have core: "rbind (fold_signals ctx (order_ids env ?active) []) (\<lambda>folded.
        rbind (build_candidates sha256 (sp_rrf policy) ?sources (order_folded env folded)) (\<lambda>cs. Inr (rank_candidates (sp_rerank_top_k policy) cs)))
      = (if \<exists>i \<in> set ?active. get_signal ?signals i = None then Inl (integrity ''ranked signal left snapshot scope'')
         else Inr (rank_candidates (sp_rerank_top_k policy) (candidates_from sha256 (sp_rrf policy) ctx (fold (add_entry ctx) ?active []))))"
    if ctx: "ctx = \<lparr>rc_signals = ?signals, rc_sources = ?sources, rc_graph_refs = gr, rc_wiki_refs = wr, rc_vector_ranks = vectors,
        rc_keyword_ranks = ?keywords, rc_exact = ex\<rparr>" for ctx gr wr ex
  proof -
    have rrf: "rrf_bounded (sp_rrf policy)" and src: "sources_ok (rc_sources ctx)" using p sources_trusted by (simp_all add: policy_bounded_def ctx)
    have act: "\<forall>i \<in> set ?active. ranked ctx i" using active_ranked [OF p v _ refl] by (simp add: ctx)
    then have act': "\<forall>i \<in> set (order_ids env ?active). ranked ctx i" by (simp only: set_active)
    note ok = recall_core(2) [OF rrf src act g] recall_core(2) [OF rrf src act' g]
    have "mset (fold (add_entry ctx) (order_ids env ?active) []) = mset (fold (add_entry ctx) ?active [])"
      using f ok by (intro fold_entries_permuted) (simp_all add: hash_order_def)
    then have "rank_candidates k (candidates_from sha256 (sp_rrf policy) ctx (fold (add_entry ctx) (order_ids env ?active) []))
        = rank_candidates k (candidates_from sha256 (sp_rrf policy) ctx (fold (add_entry ctx) ?active []))" for k
      by (rule rank_candidates_folded [OF rrf src ok(2)])
    then show ?thesis using recall_core(1) [OF rrf src act' g, where ?sha256.0 = sha256 and k = "sp_rerank_top_k policy"] by (simp add: ctx set_active)
  qed
  show ?thesis
    unfolding recall_ranked_def recall_reference_def Let_def v rbind_simps(2) active_ids_def [symmetric] exact_ids_def [symmetric]
      refs_of_set [OF set_active]
    by (simp add: core [OF refl])
qed


subsection \<open>A concrete snapshot\<close>

definition sample_snapshot :: snapshot where
  "sample_snapshot = \<lparr>sn_versions = [\<lparr>sv_workspace_kind = lit ''company'', sv_product_kind = lit ''library'', sv_product = 1, sv_version = 2\<rparr>],
     sn_documents = [\<lparr>sd_id = 3, sd_version = 2, sd_file_name = lit ''f'', sd_parse = PsCompleted, sd_pending_subtasks = 0, sd_summary = SsNone,
        sd_enable = EsEnabled, sd_index_ready = True, sd_active_generation = 1, sd_deleted_at = None\<rparr>],
     sn_chunks = [\<lparr>sc_id = 4, sc_version = 2, sc_document = 3, sc_generation = 1, sc_chunk_type = lit ''text'', sc_content = lit ''abc'',
        sc_context_header = [], sc_parent = None, sc_image_link = False\<rparr>],
     sn_bindings = [], sn_vector_generations = [], sn_keyword_generations = [], sn_intents = [], sn_keywords = [], sn_vectors = [],
     sn_graph = [], sn_pages = []\<rparr>"





subsection \<open>Errors of retrieval\<close>

definition no_invalid :: "retrieval_error + 'a \<Rightarrow> bool" where
  "no_invalid r \<longleftrightarrow> (\<forall>m. r \<noteq> Inl (InvalidHit m))"

named_theorems no_invalid_intros \<open>steps that do not report an invalid hit\<close>

lemma no_invalid_simps [simp, no_invalid_intros]:
  "no_invalid (Inr x)" "no_invalid (Inl (InvalidRequest m))" "no_invalid (Inl (Unavailable m))" "no_invalid (Inl (integrity m))"
  "no_invalid (Inl (DigestMismatch m))" "no_invalid (Inl (QuotaExceeded m))" "no_invalid (Inl (status_error m n))"
  by (simp_all add: no_invalid_def integrity_def status_error_def)

lemma no_invalid_rbind [no_invalid_intros]: "no_invalid m \<Longrightarrow> (\<And>x. m = Inr x \<Longrightarrow> no_invalid (f x)) \<Longrightarrow> no_invalid (rbind m f)"
  by (auto simp: no_invalid_def rbind_eq_Inl)

lemma no_invalid_if [no_invalid_intros]: "(b \<Longrightarrow> no_invalid x) \<Longrightarrow> (\<not> b \<Longrightarrow> no_invalid y) \<Longrightarrow> no_invalid (if b then x else y)"
  by simp

lemma parse_refs_no_invalid: "(\<And>x. no_invalid (parse x)) \<Longrightarrow> no_invalid (parse_refs parse rows)"
  by (induction parse rows rule: parse_refs.induct) (auto intro!: no_invalid_intros)

lemma refs_no_invalid: "no_invalid (load_graph_refs sn signals active)" "no_invalid (load_wiki_refs sn signals active)"
proof -
  have "no_invalid (parse_graph_ids vs)" for vs by (induction vs rule: parse_graph_ids.induct) (auto intro!: no_invalid_intros)
  then show "no_invalid (load_graph_refs sn signals active)" by (simp add: load_graph_refs_def parse_refs_no_invalid)
  have "no_invalid (parse_wiki_ids vs)" for vs by (induction vs rule: parse_wiki_ids.induct) (auto intro!: no_invalid_intros)
  then show "no_invalid (load_wiki_refs sn signals active)"
    unfolding load_wiki_refs_def Let_def by (intro parse_refs_no_invalid) (simp split: option.splits)
qed

lemma recall_no_invalid:
  assumes "policy_bounded policy" and "hash_order (order_ids env)" and "hash_order (order_folded env)"
  shows "no_invalid (recall_in_snapshot sha256 to_lowercase uuid_text env policy wk selected requirement_text sn)"
proof -
  have "no_invalid (check_sidecars sha256 policy sn markers cs)" for markers cs
    by (induction cs) (auto simp: Let_def split: option.splits intro!: no_invalid_intros)
  moreover have "no_invalid (check_generations sha256 uuid_text policy markers inputs vs)" for markers inputs vs
    by (induction vs) (auto simp: Let_def split: option.splits)
  moreover have "no_invalid (vector_ranks policy vs wk eligible sn)" for vs eligible by (simp add: vector_ranks_def Let_def)
  then have "no_invalid (recall_reference sha256 to_lowercase ks vs policy wk eligible requirement sn)" for ks vs eligible requirement
    unfolding recall_reference_def Let_def by (intro no_invalid_intros refs_no_invalid)
  ultimately show ?thesis
    unfolding recall_in_snapshot_def Let_def recall_ranked_reference [OF assms] by (intro no_invalid_intros)
qed

lemma provider_no_invalid:
  "no_invalid (embed environ p text)" "no_invalid (validate_query_embedding policy q)" "no_invalid (rerank environ r text candidates)"
proof -
  have cred: "no_invalid (resolve_credential environ ref)" for ref
    by (auto simp: resolve_credential_def split: option.splits)
  have "no_invalid (parse_embedding_response p r)" for r
    by (auto simp: parse_embedding_response_def Let_def split: list.splits option.splits sum.splits nat.splits)
  then show "no_invalid (embed environ p text)"
    unfolding embed_def by (intro no_invalid_intros cred) (auto split: transport_outcome.splits option.splits)
  show "no_invalid (validate_query_embedding policy q)"
    by (simp add: validate_query_embedding_def validate_query_embedding_values_def)
  have "no_invalid (apply_response resp ident cs)" for resp ident cs using apply_response_not_invalid by (simp add: no_invalid_def)
  then show "no_invalid (rerank environ r text candidates)"
    unfolding rerank_def by (intro no_invalid_intros cred) (auto split: transport_outcome.splits option.splits)
qed

lemma scan_rows_no_invalid: "no_invalid (scan_rows to_lowercase uuid_text wk requirement rows versions candidates)"
  by (induction rows arbitrary: versions candidates) (auto simp: Let_def split: option.splits)

subsection \<open>Candidates of a snapshot\<close>

lemma recall_candidates:
  assumes p: "policy_bounded policy" and o: "hash_order (order_ids env)" "hash_order (order_folded env)"
    and r: "recall_in_snapshot sha256 to_lowercase uuid_text env policy wk selected requirement_text sn = Inr cands"
    and elig: "eligible = sort (remdups (map sv_version (scope_versions wk selected sn)))"
  obtains k cs where "cands = rank_candidates k cs" and "distinct (map sem_source_chunk_id cs)"
    and "\<And>c. c \<in> set cs \<Longrightarrow> sem_source_chunk_id c \<notin> set (exact_ids to_lowercase (normalize_exact to_lowercase requirement_text) (load_sources wk eligible sn))
       \<and> (\<exists>s \<in> set (load_sources wk eligible sn). sem_document_id c = src_document s \<and> sem_source_chunk_id c = src_id s \<and> sem_product_id c = src_product s
            \<and> sem_product_version_id c = src_version s \<and> sem_display_name c = src_file_name s \<and> sem_chunk_utf8 c = src_content s
            \<and> sem_chunk_sha256 c = sha256 (as_bytes (src_content s)) \<and> sem_chunk_byte_length c = byte_len (src_content s))"
proof -
  let ?req = "normalize_exact to_lowercase requirement_text"
  let ?signals = "load_signals wk eligible sn" and ?sources = "load_sources wk eligible sn"
  let ?keywords = "keyword_ranks policy (keyword_score env) wk eligible sn"
  have "recall_reference sha256 to_lowercase (keyword_score env) (vector_score_of env) policy wk eligible ?req sn = Inr cands"
    using r unfolding recall_in_snapshot_def Let_def elig [symmetric] recall_ranked_reference [OF p o]
    by (auto simp: rbind_eq_Inr split: if_splits)
  then obtain vectors gr wr where v: "vector_ranks policy (vector_score_of env) wk eligible sn = Inr vectors"
    and cands: "(let ctx = \<lparr>rc_signals = ?signals, rc_sources = ?sources, rc_graph_refs = gr, rc_wiki_refs = wr, rc_vector_ranks = vectors,
          rc_keyword_ranks = ?keywords, rc_exact = exact_ids to_lowercase ?req ?sources\<rparr>
        in if \<exists>i \<in> set (active_ids ?keywords vectors). get_signal ?signals i = None then Inl (integrity ''ranked signal left snapshot scope'')
           else Inr (rank_candidates (sp_rerank_top_k policy) (candidates_from sha256 (sp_rrf policy) ctx (fold (add_entry ctx) (active_ids ?keywords vectors) [])))) = Inr cands"
    by (auto simp: recall_reference_def Let_def rbind_eq_Inr)
  define ctx where "ctx = \<lparr>rc_signals = ?signals, rc_sources = ?sources, rc_graph_refs = gr, rc_wiki_refs = wr, rc_vector_ranks = vectors,
          rc_keyword_ranks = ?keywords, rc_exact = exact_ids to_lowercase ?req ?sources\<rparr>"
  let ?folded = "fold (add_entry ctx) (active_ids ?keywords vectors) []"
  have rrf: "rrf_bounded (sp_rrf policy)" and src: "sources_ok (rc_sources ctx)" using p sources_trusted by (simp_all add: policy_bounded_def ctx_def)
  have "\<forall>i \<in> set (active_ids ?keywords vectors). ranked ctx i" using active_ranked [OF p v _ refl] by (simp add: ctx_def)
  then have ok: "folded_ok ctx ?folded" by (intro fold_entries_ok) (simp_all add: folded_ok_def)
  show ?thesis
  proof (rule that)
    show "cands = rank_candidates (sp_rerank_top_k policy) (candidates_from sha256 (sp_rrf policy) ctx ?folded)"
      using cands unfolding Let_def ctx_def by (simp split: if_splits)
    show "distinct (map sem_source_chunk_id (candidates_from sha256 (sp_rrf policy) ctx ?folded))"
      using ok by (simp add: candidates_from_spec(1) [OF rrf src ok] folded_ok_def)
  qed (use candidates_from_spec(2) [OF rrf src ok] in \<open>simp add: ctx_def\<close>)
qed

lemma scope_version_unique:
  assumes "snapshot_ok sn" and "v \<in> set (sn_versions sn)" and "sv_version v \<in> set (map sv_version (scope_versions wk selected sn))"
  shows "v \<in> set (scope_versions wk selected sn)"
proof -
  obtain v' where v': "v' \<in> set (scope_versions wk selected sn)" "sv_version v = sv_version v'" using assms(3) by auto
  then have "v = v'" using distinct_map_inj [of sv_version "sn_versions sn" v v'] assms(1,2) by (simp add: snapshot_ok_def scope_versions_iff)
  then show ?thesis using v' by simp
qed

lemma source_facts:
  assumes ok: "snapshot_ok sn" and s: "s \<in> set (load_sources wk (sort (remdups (map sv_version (scope_versions wk selected sn)))) sn)"
  shows "src_document s \<noteq> 0 \<and> src_id s \<noteq> 0 \<and> src_product s \<noteq> 0 \<and> src_version s \<noteq> 0 \<and> src_file_name s \<noteq> []
     \<and> (src_product s, src_version s) \<in> row_key ` set (evidence_rows wk selected sn)"
proof -
  obtain v d c where l: "(v, d, c) \<in> set (live_chunks trusted_types wk (sort (remdups (map sv_version (scope_versions wk selected sn)))) sn)"
    and s: "src_product s = sv_product v" "src_version s = sc_version c" "src_document s = sc_document c" "src_id s = sc_id c" "src_file_name s = sd_file_name d"
    using s unfolding load_sources_iff by auto
  note l = l [unfolded live_chunks_iff chunk_of_def]
  have "v \<in> set (scope_versions wk selected sn)" using l by (intro scope_version_unique [OF ok]) auto
  then have "(src_product s, src_version s) \<in> row_key ` set (evidence_rows wk selected sn)" using l s by (auto simp: row_keys)
  then show ?thesis using l s ok by (auto simp: snapshot_ok_def list_all_iff)
qed

lemma exact_candidate_facts:
  assumes ok: "snapshot_ok sn" and r: "r \<in> set (evidence_rows wk selected sn)" and c: "from_row to_lowercase requirement r c"
    and vers: "row_key ` set (evidence_rows wk selected sn) \<subseteq> vers"
  shows "exact_ok vers c \<and> ex_source_chunk_id c \<in> set (exact_ids to_lowercase requirement
     (load_sources wk (sort (remdups (map sv_version (scope_versions wk selected sn)))) sn))"
proof -
  let ?eligible = "sort (remdups (map sv_version (scope_versions wk selected sn)))"
  have "row_source_chunk_id r \<noteq> None" using c by (simp add: from_row_def)
  then obtain v d k where v: "v \<in> set (scope_versions wk selected sn)"
    and l: "d \<in> set (sn_documents sn)" "sd_version d = sv_version v" "live_document d" "k \<in> set (sn_chunks sn)" "chunk_of trusted_types d k"
    and rr: "r = evidence_row_of v (Some d) (Some k)" using evidence_rows_cases [OF r] by metis
  have "(v, d, k) \<in> set (live_chunks trusted_types wk ?eligible sn)"
    using v l by (auto simp: live_chunks_iff scope_versions_iff in_scope_def)
  then have "\<exists>s \<in> set (load_sources wk ?eligible sn). src_id s = sc_id k \<and> src_content s = sc_content k \<and> src_document s = sc_document k
      \<and> src_file_name s = sd_file_name d \<and> src_product s = sv_product v \<and> src_version s = sc_version k"
    by (intro bexI [of _ "\<lparr>src_product = sv_product v, src_version = sc_version k, src_document = sc_document k, src_id = sc_id k,
            src_chunk_type = sc_chunk_type k, src_content = sc_content k, src_file_name = sd_file_name d,
            src_context_header = sc_context_header k, src_parent = sc_parent k\<rparr>"]) (auto simp: load_sources_iff)
  then obtain s where s: "s \<in> set (load_sources wk ?eligible sn)" "src_id s = sc_id k" "src_content s = sc_content k" "src_document s = sc_document k"
      "src_file_name s = sd_file_name d" "src_product s = sv_product v" "src_version s = sc_version k" by blast
  have fields: "ex_source_chunk_id c = src_id s" "ex_chunk_utf8 c = src_content s" "ex_document_id c = src_document s"
    "ex_display_name c = src_file_name s" "version_key c = (src_product s, src_version s)"
    using c l s by (auto simp: from_row_def rr evidence_row_of_def row_key_def chunk_of_def)
  have "ex_source_chunk_id c \<in> set (exact_ids to_lowercase requirement (load_sources wk ?eligible sn))"
    using c s(1) fields by (auto simp: exact_ids_def from_row_def)
  moreover have "exact_ok vers c"
    using source_facts [OF ok s(1)] fields vers by (auto simp: exact_ok_def version_key_def)
  ultimately show ?thesis by blast
qed

lemma scanned_rows_ok:
  assumes ok: "snapshot_ok sn" and u: "\<And>i. uuid_text i \<noteq> []"
    and s: "scan_rows to_lowercase uuid_text wk requirement (evidence_rows wk selected sn) [] [] = Inr (versions, cs)"
  shows "version_set versions = row_key ` set (evidence_rows wk selected sn)" and "versions_ok wk versions"
    and "distinct (map ex_source_chunk_id cs)" and "\<forall>c \<in> set cs. exact_ok (version_set versions) c"
    and "ex_source_chunk_id ` set cs \<subseteq> set (exact_ids to_lowercase requirement
       (load_sources wk (sort (remdups (map sv_version (scope_versions wk selected sn)))) sn))"
proof -
  have sp: "sorted_wrt (\<lambda>v w. ev_key v < ev_key w) versions" "ev_key ` set versions = row_key ` set (evidence_rows wk selected sn)"
    "\<forall>v \<in> set versions. ev_workspace_kind v = wk \<and> ev_display_name v \<noteq> []"
    "subseq (map ex_source_chunk_id cs) (List.map_filter row_source_chunk_id (evidence_rows wk selected sn))"
    "\<forall>c \<in> set cs. \<exists>r \<in> set (evidence_rows wk selected sn). from_row to_lowercase requirement r c"
    using scan_rows_spec [OF s _ u] by auto
  show vs: "version_set versions = row_key ` set (evidence_rows wk selected sn)" using sp(2) by (simp add: version_set_def ev_key_def)
  have "ev_product_id v \<noteq> 0 \<and> ev_product_version_id v \<noteq> 0" if "v \<in> set versions" for v
  proof -
    have "ev_key v \<in> row_key ` set (evidence_rows wk selected sn)" using sp(2) that by blast
    then show ?thesis using ok by (auto simp: row_keys ev_key_def scope_versions_iff snapshot_ok_def list_all_iff)
  qed
  moreover have "sorted_wrt (<) (map ev_key versions)" using sp(1) by (simp add: sorted_wrt_map)
  then have "distinct (map ev_key versions)" by (simp add: strict_sorted_iff)
  ultimately show "versions_ok wk versions" using sp(3) by (simp add: versions_ok_def ev_key_def [abs_def])
  show "distinct (map ex_source_chunk_id cs)" using subseq_distinct [OF sp(4) evidence_rows_distinct [OF ok]] .
  show "\<forall>c \<in> set cs. exact_ok (version_set versions) c"
    "ex_source_chunk_id ` set cs \<subseteq> set (exact_ids to_lowercase requirement (load_sources wk (sort (remdups (map sv_version (scope_versions wk selected sn)))) sn))"
    using sp(5) exact_candidate_facts [OF ok] vs by blast+
qed

definition runtime_ok :: "semantic_runtime option \<Rightarrow> bool" where
  "runtime_ok runtime \<longleftrightarrow> (\<forall>rt q. runtime = Some rt \<longrightarrow> hash_order (order_ids (recall_with rt q)) \<and> hash_order (order_folded (recall_with rt q)))"

lemma semantic_tail_ok:
  assumes ok: "snapshot_ok sn" and p: "policy_bounded policy" and rt: "runtime_ok (Some rt)"
    and s: "scan_rows to_lowercase uuid_text wk (normalize_exact to_lowercase requirement_text) (evidence_rows wk selected sn) [] [] = Inr (versions, cs)"
    and u: "\<And>i. uuid_text i \<noteq> []"
    and t: "semantic_tail sha256 to_lowercase uuid_text policy wk selected requirement_text sn rt = Inr rs"
  shows "reranked_ok sha256 (version_set versions) (ex_source_chunk_id ` set cs) rs"
proof -
  obtain q cands where r: "recall_in_snapshot sha256 to_lowercase uuid_text (recall_with rt q) policy wk selected requirement_text sn = Inr cands"
    and rr: "rerank (environment rt) (reranking rt) requirement_text cands = Inr rs"
    using t by (auto simp: semantic_tail_def rbind_eq_Inr)
  note scanned = scanned_rows_ok [OF ok u s]
  have o: "hash_order (order_ids (recall_with rt q))" "hash_order (order_folded (recall_with rt q))" using rt by (auto simp: runtime_ok_def)
  show ?thesis
  proof (cases "cands = []")
    case True
    then show ?thesis using rr by (simp add: rerank_def reranked_ok_def)
  next
    case False
    then obtain resp where a: "apply_response resp (rp_identity (reranking rt)) cands = Inr rs"
      using rr by (auto simp: rerank_def rbind_eq_Inr split: if_splits transport_outcome.splits option.splits)
    obtain k qs where qs: "cands = rank_candidates k qs" "distinct (map sem_source_chunk_id qs)"
      and q: "\<And>c. c \<in> set qs \<Longrightarrow> sem_source_chunk_id c \<notin> set (exact_ids to_lowercase (normalize_exact to_lowercase requirement_text)
            (load_sources wk (sort (remdups (map sv_version (scope_versions wk selected sn)))) sn))
         \<and> (\<exists>s \<in> set (load_sources wk (sort (remdups (map sv_version (scope_versions wk selected sn)))) sn).
              sem_document_id c = src_document s \<and> sem_source_chunk_id c = src_id s \<and> sem_product_id c = src_product s
            \<and> sem_product_version_id c = src_version s \<and> sem_display_name c = src_file_name s \<and> sem_chunk_utf8 c = src_content s
            \<and> sem_chunk_sha256 c = sha256 (as_bytes (src_content s)) \<and> sem_chunk_byte_length c = byte_len (src_content s))"
      using recall_candidates [OF p o r refl] by metis
    have "semantic_ok sha256 (version_set versions) c" if c: "c \<in> set qs" for c
    proof -
      obtain s where "s \<in> set (load_sources wk (sort (remdups (map sv_version (scope_versions wk selected sn)))) sn)"
        and "sem_document_id c = src_document s" "sem_source_chunk_id c = src_id s" "sem_product_id c = src_product s"
        "sem_product_version_id c = src_version s" "sem_display_name c = src_file_name s" "sem_chunk_utf8 c = src_content s"
        "sem_chunk_sha256 c = sha256 (as_bytes (src_content s))" "sem_chunk_byte_length c = byte_len (src_content s)" using q [OF c] by blast
      then show ?thesis using source_facts [OF ok, of s wk selected] by (simp add: semantic_ok_def scanned(1))
    qed
    moreover have "sem_source_chunk_id ` set qs \<inter> ex_source_chunk_id ` set cs = {}"
    proof -
      have "sem_source_chunk_id c \<notin> ex_source_chunk_id ` set cs" if "c \<in> set qs" for c
        using conjunct1 [OF q [OF that]] subsetD [OF scanned(5)] by fast
      then show ?thesis by auto
    qed
    ultimately show ?thesis by (intro response_reranked_ok [OF a [unfolded qs(1)] _ qs(2)]) simp_all
  qed
qed

lemma snapshot_never_invalid:
  assumes pol: "policy_ok policy" and ok: "snapshot_ok sn" and p: "policy_bounded sem_policy" and rt: "runtime_ok runtime" and rows: "media_rows_ok rows"
    and wk: "wk \<in> set [lit ''product_line'', lit ''company'']" and u: "\<And>i. uuid_text i \<noteq> []"
  shows "case retrieve_snapshot sha256 to_lowercase uuid_text exact_only runtime rows wk requirement_text selected policy sem_policy sn of
      Inl e \<Rightarrow> (\<forall>m. e \<noteq> InvalidHit m) | Inr batch \<Rightarrow> validate_evidence_batch sha256 wk batch policy = Inr ()"
proof -
  let ?scan = "scan_rows to_lowercase uuid_text wk (normalize_exact to_lowercase requirement_text) (evidence_rows wk selected sn) [] []"
  show ?thesis
  proof (cases ?scan)
    case (Inl e)
    then have "\<forall>m. e \<noteq> InvalidHit m"
      using scan_rows_no_invalid [of to_lowercase uuid_text wk "normalize_exact to_lowercase requirement_text" "evidence_rows wk selected sn" "[]" "[]"]
      by (simp add: no_invalid_def)
    then show ?thesis by (simp add: retrieve_snapshot_def Inl)
  next
    case (Inr res)
    obtain versions cs where s: "?scan = Inr (versions, cs)" using Inr by (cases res) simp
    let ?tail = "map_option (semantic_tail sha256 to_lowercase uuid_text sem_policy wk selected requirement_text sn) runtime"
    note scanned = scanned_rows_ok [OF ok u s]
    have tail: "no_invalid (semantic_tail sha256 to_lowercase uuid_text sem_policy wk selected requirement_text sn r)" if "runtime = Some r" for r
      unfolding semantic_tail_def using rt that
      by (intro no_invalid_intros provider_no_invalid recall_no_invalid [OF p]) (simp_all add: runtime_ok_def)
    have "case assemble_batch sha256 wk policy exact_only ?tail rows versions cs of
      Inl e \<Rightarrow> (\<forall>m. e \<noteq> InvalidHit m) | Inr batch \<Rightarrow> validate_evidence_batch sha256 wk batch policy = Inr ()"
    proof (rule assembled_never_invalid [OF pol wk scanned(2,4,3) _ _ rows])
      show "?tail \<noteq> Some (Inl (InvalidHit m))" for m using tail by (auto simp: no_invalid_def)
      show "reranked_ok sha256 (version_set versions) (ex_source_chunk_id ` set cs) rs" if "?tail = Some (Inr rs)" for rs
        using that rt semantic_tail_ok [OF ok p _ s u] by auto
    qed
    then show ?thesis using s by (simp add: retrieve_snapshot_def)
  qed
qed

subsection \<open>The registries\<close>

lemma map_err_Inr [simp]: "map_err f r = Inr x \<longleftrightarrow> r = Inr x"
  by (cases r) (simp_all add: map_err_def)

lemma map_err_no_invalid [no_invalid_intros]: "no_invalid (map_err DigestMismatch r)" "no_invalid (map_err InvalidRequest s)"
  by (cases r; cases s; simp add: map_err_def)+

lemma or_mismatch_simps [simp, no_invalid_intros]: "or_mismatch m x = Inr y \<longleftrightarrow> x = Some y" "no_invalid (or_mismatch m x)"
  by (cases x; simp add: or_mismatch_def)+

lemma ok_or_Some [simp]: "ok_or r = Some x \<longleftrightarrow> r = Inr x"
  by (cases r) (simp_all add: ok_or_def)

lemma policy_revoked_no_invalid [no_invalid_intros, simp]: "no_invalid (Inl (PolicyRevoked m))"
  by (simp add: no_invalid_def)

lemma registry_no_invalid:
  "no_invalid (validate_supported_policy_v2 sha256 json reg policy)" "no_invalid (lock_supported_policy sha256 json reg policy validated)"
  "no_invalid (lock_rerank_revision sha256 json reg artifact)"
proof -
  have "no_invalid (load_embedding_revision sha256 json p e)" for p e
    unfolding load_embedding_revision_def by (intro no_invalid_intros)
  moreover have "no_invalid (load_policy sha256 json p r)" for p r
    unfolding load_policy_def by (intro no_invalid_intros)
  ultimately show "no_invalid (validate_supported_policy_v2 sha256 json reg policy)"
    unfolding validate_supported_policy_v2_def by (auto split: option.splits intro!: no_invalid_intros)
  show "no_invalid (lock_supported_policy sha256 json reg policy validated)"
    unfolding lock_supported_policy_def by (auto split: option.splits intro!: no_invalid_intros)
  show "no_invalid (lock_rerank_revision sha256 json reg artifact)"
    unfolding lock_rerank_revision_def by (auto split: option.splits intro!: no_invalid_intros)
qed

lemma validated_policy_spec:
  assumes "validate_supported_policy_v2 sha256 json reg policy = Inr validated"
  shows "validate_retrieval_policy (vp_policy validated) = Inr ()"
    and "\<exists>payload. from_json_bytes (json_policy json) payload = Some (vp_policy validated) \<and> to_json_bytes (json_policy json) (vp_policy validated) = payload"
    and "\<exists>payload. from_json_bytes (json_embedding json) payload = Some (vp_revision validated) \<and> to_json_bytes (json_embedding json) (vp_revision validated) = payload
       \<and> validate_embedding_revision (vp_revision validated) = Inr ()"
proof -
  obtain p e r artifact revision where l: "load_embedding_revision sha256 json p e = Inr revision" "load_policy sha256 json p r = Inr artifact"
    and v: "vp_policy validated = artifact" "vp_revision validated = revision"
    using assms by (auto simp: validate_supported_policy_v2_def rbind_eq_Inr split: option.splits if_splits)
  show "validate_retrieval_policy (vp_policy validated) = Inr ()"
    "\<exists>payload. from_json_bytes (json_policy json) payload = Some (vp_policy validated) \<and> to_json_bytes (json_policy json) (vp_policy validated) = payload"
    "\<exists>payload. from_json_bytes (json_embedding json) payload = Some (vp_revision validated) \<and> to_json_bytes (json_embedding json) (vp_revision validated) = payload
       \<and> validate_embedding_revision (vp_revision validated) = Inr ()"
    using l unfolding v load_embedding_revision_def load_policy_def
    by (auto simp: rbind_eq_Inr canonical_bytes_def split: if_splits)
qed

lemma validated_policy_bounded:
  assumes "validate_supported_policy_v2 sha256 json reg policy = Inr validated"
  shows "policy_bounded (semantic_policy_of (vp_policy validated))"
  using validate_policy_bounds [OF validated_policy_spec(1) [OF assms]]
  by (simp add: policy_bounded_def rrf_bounded_def semantic_policy_of_def rrf_policy.truncate_def)

lemma request_policy_ok: "validate_request_v2 to_lowercase schema digest text selected policy = Inr () \<Longrightarrow> policy_ok policy"
  by (auto simp: validate_request_v2_def policy_ok_def v2_max_hits_def v2_max_total_bytes_def split: if_splits)

text \<open>The adapter visits its hash containers in any order.\<close>

definition adapter_ok :: "semantic_adapter option \<Rightarrow> bool" where
  "adapter_ok adapter \<longleftrightarrow> (\<forall>a q. adapter = Some a \<longrightarrow> hash_order (order_ids (sa_recall a q)) \<and> hash_order (order_folded (sa_recall a q)))"

text \<open>
  C17: retrieval never returns, and never fails on, a batch that its own validation rejects.  For every request, policy registry and
  well-formed snapshot (primary keys are unique, identifiers are not nil, documents have file names, media rows satisfy the
  constraints of their table), whatever the providers answer and in whatever order the hash containers are visited,
  retrieval returns a batch that passes the validation, or it fails with an error other than an invalid hit.
\<close>

theorem retrieval_never_invalid:
  assumes ok: "snapshot_ok (re_snapshot env)" and a: "adapter_ok (re_adapter env)" and rows: "media_rows_ok (re_media env)"
    and wk: "wk \<in> set [lit ''product_line'', lit ''company'']" and u: "\<And>i. re_uuid_text env i \<noteq> []"
  shows "case retrieve_v2 env wk rq policy frozen of
      Inl e \<Rightarrow> (\<forall>m. e \<noteq> InvalidHit m) | Inr batch \<Rightarrow> validate_evidence_batch (re_sha256 env) wk batch policy = Inr ()"
proof -
  define goal where "goal = (\<lambda>r. case r of Inl e \<Rightarrow> (\<forall>m. e \<noteq> InvalidHit m) | Inr batch \<Rightarrow> validate_evidence_batch (re_sha256 env) wk batch policy = Inr ())"
  have bind: "goal (rbind m f)" if "no_invalid m" "\<And>x. m = Inr x \<Longrightarrow> goal (f x)" for m :: "retrieval_error + 'x" and f
    using that by (cases m) (auto simp: goal_def no_invalid_def)
  have err: "goal (Inl (DigestMismatch m))" for m by (simp add: goal_def)
  have req: "no_invalid (validate_request_v2 tl s d t ids pol)" for tl s d t ids pol by (simp add: validate_request_v2_def)
  have "goal (retrieve_v2 env wk rq policy frozen)"
    unfolding retrieve_v2_def Let_def
  proof (intro bind req registry_no_invalid, goal_cases)
    case (1 _ validated)
    have run: "goal (retrieve_snapshot (re_sha256 env) (re_to_lowercase env) (re_uuid_text env) (re_exact_only env)
        (map_option (runtime_of (re_sha256 env) (re_codecs env) validated rer cred) (re_adapter env)) (re_media env) wk
        (rq_requirement_text rq) (rq_version_ids rq) policy (semantic_policy_of (vp_policy validated)) (re_snapshot env))" for rer cred
      unfolding goal_def using 1 a
      by (intro snapshot_never_invalid [OF _ ok validated_policy_bounded _ rows wk u])
         (auto simp: runtime_ok_def adapter_ok_def runtime_of_def Let_def dest!: request_policy_ok)
    show ?case using err run by (auto intro!: bind registry_no_invalid simp del: not_None_eq)
  qed
  then show ?thesis by (simp add: goal_def)
qed

definition sample_env :: retrieval_env where
  "sample_env = \<lparr>re_sha256 = \<lambda>_. [], re_to_lowercase = \<lambda>c. [c], re_uuid_text = \<lambda>_. [48],
     re_codecs = \<lparr>json_policy = \<lparr>from_json_bytes = \<lambda>_. None, to_json_bytes = \<lambda>_. []\<rparr>, json_embedding = \<lparr>from_json_bytes = \<lambda>_. None, to_json_bytes = \<lambda>_. []\<rparr>,
        json_rerank = \<lparr>from_json_bytes = \<lambda>_. None, to_json_bytes = \<lambda>_. []\<rparr>\<rparr>,
     re_exact_only = False, re_adapter = None, re_media = \<lambda>_. None, re_registry = \<lparr>reg_policies = [], reg_embeddings = [], reg_reranks = []\<rparr>,
     re_snapshot_registry = \<lparr>reg_policies = [], reg_embeddings = [], reg_reranks = []\<rparr>, re_snapshot = sample_snapshot\<rparr>"

lemma sample_snapshot_ok: "snapshot_ok sample_snapshot"
  by (simp add: snapshot_ok_def sample_snapshot_def lit_def)

theorem retrieval_never_invalid_witness:
  "case retrieve_v2 sample_env (lit ''company'') \<lparr>rq_schema_version = 1, rq_requirement_sha256 = [], rq_requirement_text = lit ''b'', rq_version_ids = [2],
         rq_policy = sample_policy\<rparr> sample_policy None of
     Inl e \<Rightarrow> (\<forall>m. e \<noteq> InvalidHit m)
   | Inr batch \<Rightarrow> validate_evidence_batch (re_sha256 sample_env) (lit ''company'') batch sample_policy = Inr ()"
  by (rule retrieval_never_invalid) (simp_all add: sample_env_def sample_snapshot_ok adapter_ok_def media_rows_ok_def)

end
