(* ===== verification/Evidence_Replay.thy ===== *)
theory Evidence_Replay
  imports Evidence_Retrieval_Props
begin

text \<open>
  A frozen request determines its answer: what a successful frozen retrieval ran with is read from the frozen identity,
  never from the registries, and the order of the hash containers does not matter.
\<close>

subsection \<open>Frozen requests\<close>










subsection \<open>A concrete frozen request\<close>

definition sample_digest :: rstr where
  "sample_digest = replicate 64 97"

definition sample_artifact :: retrieval_policy where
  "sample_artifact = \<lparr>pol_schema_version = 2, pol_contract_version = contract_v2, normalization_version = lit ''unicode-whitespace-lowercase-v1'',
     trusted_source_types = map lit [''text'', ''parent_text'', ''image_ocr''],
     ranking_part = \<lparr>a_primary_comparator = map lit [''chunk_byte_length ASC'', ''document_id ASC'', ''source_chunk_id ASC''],
        a_version_comparator = map lit [''product_id ASC'', ''product_version_id ASC''],
        b_exact_comparator = map lit [''product_id ASC'', ''product_version_id ASC'', ''chunk_byte_length ASC'', ''document_id ASC'', ''source_chunk_id ASC''],
        c_semantic_comparator = map lit [''normalized_rerank_score DESC'', ''pre_rerank_rrf_rank ASC'', ''complete_source_identity ASC''],
        source_folding_version = lit ''unique-live-trusted-source-v1'', channel_score_quantization_version = lit ''floor-unit-interval-millionths-v1'',
        channel_rank_comparator = map lit [''score_millionths DESC'', ''complete_signal_identity ASC''],
        pre_rerank_rrf_comparator = map lit [''exact_rrf_score DESC'', ''vector_rank ASC NULLS LAST'', ''keyword_rank ASC NULLS LAST'', ''product_id ASC'',
          ''product_version_id ASC'', ''document_id ASC'', ''source_chunk_id ASC''],
        quota_semantics_version = lit ''fair-exact-prefix-fail-closed-v1''\<rparr>,
     keyword_part = \<lparr>tokenizer = lit ''latin-numeric-cjk-bigram'', tokenizer_version = lit ''v1'',
        keyword_score_version = lit ''postgres-ts-rank-cd-normalization32-millionths-v1'', keyword_top_k = 5, keyword_threshold_millionths = 0\<rparr>,
     embedding_part = \<lparr>embedding_policy_name = lit ''declared-version-model'', embedding_policy_version = lit ''v1'',
        similarity_version = lit ''pgvector-cosine-clamp-zero-one-millionths-v1'', embedding_model_revision_sha256 = sample_digest,
        embedding_top_k = 5, embedding_threshold_millionths = 0\<rparr>,
     rrf_part = \<lparr>rrf_k = 60, vector_weight_millionths = 1, keyword_weight_millionths = 1, score_representation_version = lit ''reduced-u128-rational-v1''\<rparr>,
     rerank_part = \<lparr>rerank_protocol = lit ''indexed-json-v1'', rerank_revision_sha256 = sample_digest, rerank_model_revision_sha256 = sample_digest,
        rerank_config_revision_sha256 = sample_digest, rerank_top_k = 5, rerank_timeout_ms = 1000, rerank_normalization = lit ''unit-interval-millionths-v1''\<rparr>,
     request_quotas_part = \<lparr>quota_max_hits = 2, quota_max_chunk_bytes = 9, quota_max_total_bytes = 9\<rparr>\<rparr>"

definition sample_embedding :: embedding_revision where
  "sample_embedding = \<lparr>emb_schema_version = 2, emb_protocol_version = embedding_provider_protocol_version, emb_model_identifier = lit ''m@2024-02-29'',
     emb_model_revision_sha256 = sample_digest, emb_endpoint_config_sha256 = sample_digest, emb_endpoint_identity = lit ''https://a.b:8443/v1'',
     emb_dimension = 1024, emb_request_config_sha256 = embedding_request_config_sha256, emb_output_normalization = embedding_output_normalization_version\<rparr>"

definition sample_rerank :: rerank_revision where
  "sample_rerank = \<lparr>rer_schema_version = 2, rer_protocol_version = rerank_protocol_version, rer_model_identifier = lit ''m@2024-02-29'',
     rer_model_revision_sha256 = sample_digest, rer_config_revision_sha256 = sample_digest, rer_endpoint_identity = lit ''https://a.b'',
     rer_request_config_sha256 = rerank_request_config_sha256, rer_score_normalization = rerank_score_normalization_version\<rparr>"

lemma sample_digest_hex [simp]: "lower_hex64 sample_digest" "validate_embedding_sha256 sample_digest = Inr ()" "validate_sha256 sample_digest = Inr ()"
  by (simp_all add: sample_digest_def lower_hex64_def validate_embedding_sha256_def validate_sha256_def byte_len_def len_utf8_def
      is_ascii_hexdigit_def is_ascii_uppercase_def list_all_iff sum_list_replicate require_def)

lemmas identifier_eval = lit_def byte_len_def len_utf8_def split_once_def rsplit_once_def strip_prefix_def model_base_char_def is_ascii_alphanumeric_def
  is_ascii_digit_def is_ascii_lowercase_def is_ascii_uppercase_def dns_char_def path_char_def

lemma sample_model [simp]: "validate_provider_model_identifier (lit ''m@2024-02-29'') = Inr ()"
proof -
  have "is_real_iso_date (lit ''2024-02-29'')"
    by (simp add: is_real_iso_date_def as_bytes_def utf8_char_def identifier_eval digits_value_def days_in_month_def leap_year_def Let_def)
  then show ?thesis by (simp add: validate_provider_model_identifier_def identifier_eval)
qed

lemma sample_endpoints [simp]: "validate_endpoint_identity (lit ''https://a.b:8443/v1'') = Inr ()" "validate_endpoint_identity (lit ''https://a.b'') = Inr ()"
  by (simp_all add: validate_endpoint_identity_def identifier_eval valid_dns_label_def bad_segment_def validate_port_def digits_value_def
      ends_with_lit_def suffix_to_prefix Let_def)

lemma sample_artifact_valid [simp]: "validate_retrieval_policy sample_artifact = Inr ()"
  by (simp add: validate_retrieval_policy_def sample_artifact_def validate_ranking_def validate_supported_identity_def validate_supported_values_def
      validate_top_k_def validate_threshold_def validate_weight_def require_def Let_def)

lemma sample_revisions_valid [simp]: "validate_embedding_revision sample_embedding = Inr ()" "validate_rerank_revision sample_rerank = Inr ()"
  by (simp_all add: validate_embedding_revision_def sample_embedding_def validate_rerank_revision_def sample_rerank_def require_def)

definition sample_codecs :: codecs where
  "sample_codecs = \<lparr>json_policy = \<lparr>from_json_bytes = \<lambda>_. Some sample_artifact, to_json_bytes = \<lambda>_. []\<rparr>,
     json_embedding = \<lparr>from_json_bytes = \<lambda>_. Some sample_embedding, to_json_bytes = \<lambda>_. []\<rparr>,
     json_rerank = \<lparr>from_json_bytes = \<lambda>_. Some sample_rerank, to_json_bytes = \<lambda>_. []\<rparr>\<rparr>"










lemma sample_canonical [simp]: "canonical_bytes validate_retrieval_policy (json_policy sample_codecs) sample_artifact = Inr []"
  "canonical_bytes validate_embedding_revision (json_embedding sample_codecs) sample_embedding = Inr []"
  "canonical_bytes validate_rerank_revision (json_rerank sample_codecs) sample_rerank = Inr []"
  by (simp_all add: canonical_bytes_def sample_codecs_def)

lemma sample_parses [simp]: "from_json_bytes (json_policy sample_codecs) bs = Some sample_artifact" "from_json_bytes (json_embedding sample_codecs) bs = Some sample_embedding"
  "from_json_bytes (json_rerank sample_codecs) bs = Some sample_rerank"
  by (simp_all add: sample_codecs_def)

lemma sample_digest_ne [simp]: "sample_digest \<noteq> []" "[] \<noteq> sample_digest"
  by (simp_all add: sample_digest_def)

lemma sample_parts [simp]: "embedding_model_revision_sha256 (embedding_part sample_artifact) = sample_digest"
    "rerank_revision_sha256 (rerank_part sample_artifact) = sample_digest" "rerank_model_revision_sha256 (rerank_part sample_artifact) = sample_digest"
    "rerank_config_revision_sha256 (rerank_part sample_artifact) = sample_digest" "rer_model_revision_sha256 sample_rerank = sample_digest"
    "rer_config_revision_sha256 sample_rerank = sample_digest" "pol_contract_version sample_artifact = contract_v2"
    "request_quotas_part sample_artifact = \<lparr>quota_max_hits = 2, quota_max_chunk_bytes = 9, quota_max_total_bytes = 9\<rparr>"
  by (simp_all add: sample_artifact_def sample_rerank_def)






end
