(* ===== verification/Sse_Stream.thy ===== *)
theory Sse_Stream
  imports Source_Contract
begin

text \<open>
  Server-sent events of the model providers (\<^verbatim>\<open>knowledge/src/models/sse.rs\<close>): the incremental reader that cuts the byte stream
  into events and folds their payloads into one chat turn, and the collectors of a complete body.

  Parameters: \<open>from_str\<close> is \<^verbatim>\<open>serde_json::from_str::<Value>\<close>; a reader is the list of results of its \<^verbatim>\<open>read\<close> calls, after which it is at its end.
  A JSON number carries its value when \<^verbatim>\<open>as_u64\<close> has one.
\<close>

subsection \<open>JSON values\<close>

datatype json = JNull | JBool bool | JNumber "nat option" | JString rstr | JArray "json list" | JObject "(rstr \<times> json) list"

type_synonym json_parser = "rstr \<Rightarrow> json option"

definition jget :: "string \<Rightarrow> json \<Rightarrow> json" where
  "jget key v = (case v of JObject members \<Rightarrow> (case map_of members (lit key) of None \<Rightarrow> JNull | Some x \<Rightarrow> x) | _ \<Rightarrow> JNull)"

definition jfirst :: "json \<Rightarrow> json" where
  "jfirst v = (case v of JArray (x # _) \<Rightarrow> x | _ \<Rightarrow> JNull)"

fun jstr :: "json \<Rightarrow> rstr option" where
  "jstr (JString s) = Some s"
| "jstr _ = None"

fun ju64 :: "json \<Rightarrow> nat option" where
  "ju64 (JNumber n) = n"
| "ju64 _ = None"

fun jarray :: "json \<Rightarrow> json list option" where
  "jarray (JArray xs) = Some xs"
| "jarray _ = None"

definition jstr_or_empty :: "json \<Rightarrow> rstr" where
  "jstr_or_empty v = (case jstr v of None \<Rightarrow> [] | Some s \<Rightarrow> s)"

subsection \<open>Text functions\<close>

fun split_inclusive_lf :: "rstr \<Rightarrow> rstr list" where
  "split_inclusive_lf [] = []"
| "split_inclusive_lf (c # cs) =
     (if c = 10 then [c] # split_inclusive_lf cs
      else case split_inclusive_lf cs of [] \<Rightarrow> [[c]] | l # ls \<Rightarrow> (c # l) # ls)"

definition strip_line_ending :: "rstr \<Rightarrow> rstr" where
  "strip_line_ending l =
     (if suffix [13, 10] l then butlast (butlast l) else if suffix [10] l then butlast l else l)"

definition lines :: "rstr \<Rightarrow> rstr list" where
  "lines s = map strip_line_ending (split_inclusive_lf s)"

text \<open>\<^verbatim>\<open>replace("\r\n", "\n")\<close> and \<^verbatim>\<open>split_inclusive("\n\n")\<close>.\<close>

fun crlf_to_lf :: "rstr \<Rightarrow> rstr" where
  "crlf_to_lf (a # b # cs) = (if a = 13 \<and> b = 10 then 10 # crlf_to_lf cs else a # crlf_to_lf (b # cs))"
| "crlf_to_lf s = s"

fun split_inclusive_blank :: "rstr \<Rightarrow> rstr list" where
  "split_inclusive_blank [] = []"
| "split_inclusive_blank [c] = [[c]]"
| "split_inclusive_blank (a # b # cs) =
     (if a = 10 \<and> b = 10 then [a, b] # split_inclusive_blank cs
      else case split_inclusive_blank (b # cs) of [] \<Rightarrow> [[a]] | l # ls \<Rightarrow> (a # l) # ls)"

definition data_prefix :: rstr where
  "data_prefix = lit ''data:''"

definition done_marker :: rstr where
  "done_marker = lit ''[DONE]''"

definition line_payload :: "rstr \<Rightarrow> rstr option" where
  "line_payload line =
     (if prefix data_prefix line
      then let data = trim (drop (length data_prefix) line) in (if data \<noteq> [] then Some data else None) else None)"

definition sse_data_payloads :: "rstr \<Rightarrow> rstr list" where
  "sse_data_payloads body = List.map_filter line_payload (lines body)"

definition looks_like_sse :: "rstr \<Rightarrow> bool" where
  "looks_like_sse body \<longleftrightarrow> list_ex (\<lambda>l. prefix data_prefix (dropWhile is_whitespace l)) (lines body)"

subsection \<open>Turns\<close>

record chat_tool_call =
  call_id :: rstr
  call_name :: rstr
  call_arguments :: rstr

record chat_usage =
  prompt_tokens :: "nat option"
  completion_tokens :: "nat option"
  total_tokens :: "nat option"
  cached_tokens :: "nat option"
  reasoning_tokens :: "nat option"

record chat_turn =
  turn_content :: rstr
  tool_calls :: "chat_tool_call list"
  finish_reason :: rstr
  turn_usage :: "chat_usage option"

definition empty_turn :: chat_turn where
  "empty_turn = \<lparr>turn_content = [], tool_calls = [], finish_reason = [], turn_usage = None\<rparr>"

definition usage :: "json \<Rightarrow> chat_usage option" where
  "usage v = (case v of
       JObject _ \<Rightarrow> Some \<lparr>prompt_tokens = ju64 (jget ''prompt_tokens'' v), completion_tokens = ju64 (jget ''completion_tokens'' v),
         total_tokens = ju64 (jget ''total_tokens'' v), cached_tokens = ju64 (jget ''cached_tokens'' (jget ''prompt_tokens_details'' v)),
         reasoning_tokens = ju64 (jget ''reasoning_tokens'' (jget ''completion_tokens_details'' v))\<rparr>
     | _ \<Rightarrow> None)"

text \<open>\<^verbatim>\<open>BTreeMap<u64, ChatToolCall>\<close>, as the list of its entries in order of the key.\<close>

type_synonym call_map = "(nat \<times> chat_tool_call) list"

fun update_entry :: "nat \<Rightarrow> (chat_tool_call option \<Rightarrow> chat_tool_call) \<Rightarrow> call_map \<Rightarrow> call_map" where
  "update_entry k f [] = [(k, f None)]"
| "update_entry k f ((j, x) # m) =
     (if k < j then (k, f None) # (j, x) # m else if k = j then (j, f (Some x)) # m else (j, x) # update_entry k f m)"

definition empty_call :: chat_tool_call where
  "empty_call = \<lparr>call_id = [], call_name = [], call_arguments = []\<rparr>"

definition or_default :: "chat_tool_call option \<Rightarrow> chat_tool_call" where
  "or_default slot = (case slot of None \<Rightarrow> empty_call | Some x \<Rightarrow> x)"

definition extend_call :: "json \<Rightarrow> chat_tool_call \<Rightarrow> chat_tool_call" where
  "extend_call item c = \<lparr>call_id = (case jstr (jget ''id'' item) of None \<Rightarrow> call_id c | Some i \<Rightarrow> i),
     call_name = call_name c @ jstr_or_empty (jget ''name'' (jget ''function'' item)),
     call_arguments = call_arguments c @ jstr_or_empty (jget ''arguments'' (jget ''function'' item))\<rparr>"

definition whole_call :: "json \<Rightarrow> chat_tool_call" where
  "whole_call item = \<lparr>call_id = jstr_or_empty (jget ''id'' item), call_name = jstr_or_empty (jget ''name'' (jget ''function'' item)),
     call_arguments = jstr_or_empty (jget ''arguments'' (jget ''function'' item))\<rparr>"

definition delta_calls :: "json \<Rightarrow> call_map \<Rightarrow> call_map" where
  "delta_calls choice calls =
     fold (\<lambda>item. update_entry (case ju64 (jget ''index'' item) of None \<Rightarrow> 0 | Some n \<Rightarrow> n) (\<lambda>slot. extend_call item (or_default slot)))
       (case jarray (jget ''tool_calls'' (jget ''delta'' choice)) of None \<Rightarrow> [] | Some items \<Rightarrow> items) calls"

definition message_calls :: "json \<Rightarrow> call_map \<Rightarrow> call_map" where
  "message_calls choice calls =
     fold (\<lambda>(index, item). update_entry index (\<lambda>_. whole_call item))
       (enumerate 0 (case jarray (jget ''tool_calls'' (jget ''message'' choice)) of None \<Rightarrow> [] | Some items \<Rightarrow> items)) calls"

datatype sse_error =
  ReadFailed nat nat | InvalidUtf8 | InvalidEventJson rstr | InvalidBodyJson | MissingDone nat nat | NoJsonData
| IncompleteCompletion rstr bool string

definition truncate_text :: "rstr \<Rightarrow> nat \<Rightarrow> rstr" where
  "truncate_text s n = (if length s \<le> n then s else take n s @ [8230])"

definition apply_sse_data :: "json_parser \<Rightarrow> rstr \<Rightarrow> chat_turn \<times> call_map \<Rightarrow> sse_error + chat_turn \<times> call_map" where
  "apply_sse_data from_str data tc =
     (case from_str data of
        None \<Rightarrow> Inl (InvalidEventJson (truncate_text data 180))
      | Some v \<Rightarrow>
          let (turn, calls) = tc; choice = jfirst (jget ''choices'' v);
              turn = (case usage (jget ''usage'' v) of None \<Rightarrow> turn | Some u \<Rightarrow> turn\<lparr>turn_usage := Some u\<rparr>);
              turn = (case jstr (jget ''finish_reason'' choice) of None \<Rightarrow> turn | Some r \<Rightarrow> turn\<lparr>finish_reason := r\<rparr>);
              turn = turn\<lparr>turn_content := turn_content turn @ jstr_or_empty (jget ''content'' (jget ''delta'' choice))\<rparr>;
              calls = delta_calls choice calls;
              turn = (if turn_content turn = []
                      then turn\<lparr>turn_content := jstr_or_empty (jget ''content'' (jget ''message'' choice))\<rparr> else turn)
          in Inr (turn, message_calls choice calls))"

definition unary_turn :: "json \<Rightarrow> chat_turn" where
  "unary_turn v =
     (let choice = jfirst (jget ''choices'' v)
      in \<lparr>turn_content = jstr_or_empty (jget ''content'' (jget ''message'' choice)),
          tool_calls = map whole_call (case jarray (jget ''tool_calls'' (jget ''message'' choice)) of None \<Rightarrow> [] | Some items \<Rightarrow> items),
          finish_reason = jstr_or_empty (jget ''finish_reason'' choice), turn_usage = usage (jget ''usage'' v)\<rparr>)"

text \<open>The payloads up to \<^verbatim>\<open>[DONE]\<close>; the flag tells whether it was seen.\<close>

fun apply_payloads :: "json_parser \<Rightarrow> rstr list \<Rightarrow> chat_turn \<times> call_map \<Rightarrow> sse_error + bool \<times> chat_turn \<times> call_map" where
  "apply_payloads from_str [] tc = Inr (False, tc)"
| "apply_payloads from_str (d # ds) tc =
     (if d = done_marker then Inr (True, tc) else rbind (apply_sse_data from_str d tc) (apply_payloads from_str ds))"

definition close_turn :: "chat_turn \<times> call_map \<Rightarrow> chat_turn" where
  "close_turn tc = (fst tc)\<lparr>tool_calls := map snd (snd tc)\<rparr>"

subsection \<open>Complete bodies\<close>

definition collect_chat_turn :: "json_parser \<Rightarrow> rstr \<Rightarrow> sse_error + chat_turn" where
  "collect_chat_turn from_str body =
     (if looks_like_sse body
      then rbind (apply_payloads from_str (sse_data_payloads body) (empty_turn, [])) (\<lambda>(_, tc). Inr (close_turn tc))
      else case from_str (trim body) of None \<Rightarrow> Inl InvalidBodyJson | Some v \<Rightarrow> Inr (unary_turn v))"

record completion_result =
  completion_content :: rstr
  completion_finish_reason :: rstr
  done_seen :: bool
  transport_status :: string
  completion_usage :: "chat_usage option"
  provider_request_id :: "rstr option"

fun scan_request_id :: "json_parser \<Rightarrow> rstr list \<Rightarrow> rstr option \<Rightarrow> sse_error + bool \<times> rstr option" where
  "scan_request_id from_str [] request_id = Inr (False, request_id)"
| "scan_request_id from_str (d # ds) request_id =
     (if d = done_marker then Inr (True, request_id)
      else case from_str d of
        None \<Rightarrow> Inl InvalidBodyJson
      | Some v \<Rightarrow> scan_request_id from_str ds (case jstr (jget ''id'' v) of None \<Rightarrow> request_id | Some i \<Rightarrow> Some i))"

definition complete_terminal :: "rstr \<Rightarrow> bool" where
  "complete_terminal body \<longleftrightarrow>
     list_ex (\<lambda>event. suffix [10, 10] event \<and> trim event = lit ''data: [DONE]'') (split_inclusive_blank (crlf_to_lf body))"

definition collect_completion :: "json_parser \<Rightarrow> rstr \<Rightarrow> sse_error + completion_result" where
  "collect_completion from_str body =
     rbind (collect_chat_turn from_str body) (\<lambda>turn.
     rbind (if looks_like_sse body
            then rbind (scan_request_id from_str (sse_data_payloads body) None) (\<lambda>(fin, request_id). Inr (fin \<and> complete_terminal body, request_id))
            else (case from_str body of None \<Rightarrow> Inl InvalidBodyJson | Some v \<Rightarrow> Inr (True, jstr (jget ''id'' v)))) (\<lambda>(seen, request_id).
       Inr \<lparr>completion_content = turn_content turn, completion_finish_reason = finish_reason turn, done_seen = seen,
            transport_status = (if seen then ''complete'' else ''interrupted''), completion_usage = turn_usage turn,
            provider_request_id = request_id\<rparr>))"

definition require_complete_text :: "completion_result \<Rightarrow> sse_error + rstr" where
  "require_complete_text r =
     (if transport_status r \<noteq> ''complete'' \<or> \<not> done_seen r \<or> completion_finish_reason r \<noteq> lit ''stop''
      then Inl (IncompleteCompletion (completion_finish_reason r) (done_seen r) (transport_status r)) else Inr (completion_content r))"

definition collect_chat_content :: "json_parser \<Rightarrow> rstr \<Rightarrow> sse_error + rstr" where
  "collect_chat_content from_str body = rbind (collect_completion from_str body) require_complete_text"

fun last_payload :: "json_parser \<Rightarrow> rstr list \<Rightarrow> json option \<Rightarrow> sse_error + json option" where
  "last_payload from_str [] latest = Inr latest"
| "last_payload from_str (d # ds) latest =
     (if d = done_marker then Inr latest
      else case from_str d of None \<Rightarrow> Inl (InvalidEventJson (truncate_text d 180)) | Some v \<Rightarrow> last_payload from_str ds (Some v))"

definition last_json_value :: "json_parser \<Rightarrow> rstr \<Rightarrow> sse_error + json" where
  "last_json_value from_str body =
     (if looks_like_sse body
      then rbind (last_payload from_str (sse_data_payloads body) None) (\<lambda>latest. case latest of None \<Rightarrow> Inl NoJsonData | Some v \<Rightarrow> Inr v)
      else case from_str (trim body) of None \<Rightarrow> Inl InvalidBodyJson | Some v \<Rightarrow> Inr v)"

subsection \<open>The incremental reader\<close>

text \<open>\<^verbatim>\<open>String::from_utf8\<close>: each character is read by the width its first byte announces and must be the encoding of a scalar value.\<close>

definition valid_scalar :: "nat \<Rightarrow> bool" where
  "valid_scalar c \<longleftrightarrow> c < 55296 \<or> (57344 \<le> c \<and> c < 1114112)"

definition utf8_width :: "nat \<Rightarrow> nat" where
  "utf8_width b = (if b < 128 then 1 else if b < 224 then 2 else if b < 240 then 3 else 4)"

fun utf8_value :: "bytes \<Rightarrow> nat" where
  "utf8_value [a] = a"
| "utf8_value [a, b] = (a - 192) * 64 + (b - 128)"
| "utf8_value [a, b, c] = ((a - 224) * 64 + (b - 128)) * 64 + (c - 128)"
| "utf8_value [a, b, c, d] = (((a - 240) * 64 + (b - 128)) * 64 + (c - 128)) * 64 + (d - 128)"
| "utf8_value _ = 0"

definition first_encoding :: "bytes \<Rightarrow> bytes" where
  "first_encoding bs = take (utf8_width (hd bs)) bs"

function from_utf8 :: "bytes \<Rightarrow> rstr option" where
  "from_utf8 bs =
     (if bs = [] then Some []
      else if valid_scalar (utf8_value (first_encoding bs)) \<and> utf8_char (utf8_value (first_encoding bs)) = first_encoding bs
      then map_option (Cons (utf8_value (first_encoding bs))) (from_utf8 (drop (utf8_width (hd bs)) bs)) else None)"
  by auto
termination by (relation "measure length") (auto simp: utf8_width_def)

declare from_utf8.simps [simp del]

fun position_of :: "bytes \<Rightarrow> bytes \<Rightarrow> nat option" where
  "position_of p [] = None"
| "position_of p (b # bs) = (if prefix p (b # bs) then Some 0 else map_option Suc (position_of p bs))"

definition find_event_break :: "bytes \<Rightarrow> nat option" where
  "find_event_break buf =
     (let lf = map_option (\<lambda>i. i + 1) (position_of [10, 10] buf); crlf = map_option (\<lambda>i. i + 3) (position_of [13, 10, 13, 10] buf)
      in case (lf, crlf) of (Some a, Some b) \<Rightarrow> Some (min a b) | (None, b) \<Rightarrow> b | (a, None) \<Rightarrow> a)"

datatype io_read = ReadError | ReadBytes bytes

record sse_state =
  pending_bytes :: bytes
  turn_state :: "chat_turn \<times> call_map"
  complete_events :: nat

datatype sse_progress = TurnDone chat_turn | Waiting sse_state

text \<open>The inner loop: complete events of the buffer, one after the other.\<close>

function drain_events :: "json_parser \<Rightarrow> sse_state \<Rightarrow> sse_error + sse_progress" where
  "drain_events from_str st =
     (case find_event_break (pending_bytes st) of
        None \<Rightarrow> Inr (Waiting st)
      | Some idx \<Rightarrow>
          (case from_utf8 (take (Suc idx) (pending_bytes st)) of
             None \<Rightarrow> Inl InvalidUtf8
           | Some event \<Rightarrow>
               (case apply_payloads from_str (sse_data_payloads event) (turn_state st) of
                  Inl e \<Rightarrow> Inl e
                | Inr (True, tc) \<Rightarrow> Inr (TurnDone (close_turn tc))
                | Inr (False, tc) \<Rightarrow> drain_events from_str
                    \<lparr>pending_bytes = drop (Suc idx) (pending_bytes st), turn_state = tc, complete_events = complete_events st + 1\<rparr>)))"
  by auto
termination
proof (relation "measure (\<lambda>(_, st). length (pending_bytes st))", goal_cases)
  case (2 from_str st idx event y tc b)
  then have "pending_bytes st \<noteq> []" by (auto simp: find_event_break_def)
  then show ?case by simp
qed simp

declare drain_events.simps [simp del]

fun read_loop :: "json_parser \<Rightarrow> io_read list \<Rightarrow> nat \<Rightarrow> sse_state \<Rightarrow> sse_error + chat_turn" where
  "read_loop from_str [] bytes_read st = Inl (MissingDone bytes_read (complete_events st))"
| "read_loop from_str (ReadError # rs) bytes_read st = Inl (ReadFailed bytes_read (complete_events st))"
| "read_loop from_str (ReadBytes bs # rs) bytes_read st =
     (if bs = [] then Inl (MissingDone bytes_read (complete_events st))
      else rbind (drain_events from_str (st\<lparr>pending_bytes := pending_bytes st @ bs\<rparr>)) (\<lambda>progress.
        case progress of TurnDone turn \<Rightarrow> Inr turn | Waiting st' \<Rightarrow> read_loop from_str rs (bytes_read + length bs) st'))"

definition consume_sse_read :: "json_parser \<Rightarrow> io_read list \<Rightarrow> sse_error + chat_turn" where
  "consume_sse_read from_str reads =
     read_loop from_str reads 0 \<lparr>pending_bytes = [], turn_state = (empty_turn, []), complete_events = 0\<rparr>"

end
