(* ===== verification/Sse_Props.thy ===== *)
theory Sse_Props
  imports Sse_Stream Frame_Props
begin

text \<open>
  The incremental reader does not depend on how the transport cuts the stream, and it agrees with the collector of a complete body.
\<close>

subsection \<open>Event breaks\<close>

lemma position_of_less: "position_of p bs = Some i \<Longrightarrow> i + length p \<le> length bs"
  by (induction bs arbitrary: i) (auto split: if_splits dest: prefix_length_le)

lemma position_of_append: "position_of p bs = Some i \<Longrightarrow> position_of p (bs @ cs) = Some i"
proof (induction bs arbitrary: i)
  case (Cons b bs)
  show ?case
  proof (cases "prefix p (b # bs)")
    case True
    then have "prefix p ((b # bs) @ cs)" by (rule prefix_prefix)
    then show ?thesis using True Cons.prems by simp
  next
    case False
    then obtain j where j: "position_of p bs = Some j" "i = Suc j" using Cons.prems by auto
    have "\<not> prefix p (b # bs @ cs)"
    proof
      assume "prefix p (b # bs @ cs)"
      moreover have "length p \<le> length bs" using position_of_less [OF j(1)] by simp
      ultimately show False using False prefix_length_prefix [of p "b # bs @ cs" "b # bs"] by simp
    qed
    then show ?thesis using Cons.IH [OF j(1)] j(2) by simp
  qed
qed simp

lemma position_of_new:
  assumes "p \<noteq> []" and "position_of p bs = None" and "position_of p (bs @ cs) = Some i"
  shows "length bs < i + length p"
  using assms(2,3)
proof (induction bs arbitrary: i)
  case (Cons b bs)
  have np: "\<not> prefix p (b # bs)" using Cons.prems(1) by (auto split: if_splits)
  show ?case
  proof (cases "prefix p (b # bs @ cs)")
    case True
    have "length (b # bs) < length p"
    proof (rule ccontr)
      assume "\<not> length (b # bs) < length p"
      then have "prefix p (b # bs)" using True prefix_length_prefix [of p "b # bs @ cs" "b # bs"] by (simp add: prefix_def)
      with np show False by simp
    qed
    then show ?thesis by simp
  next
    case False
    then obtain j where "position_of p (bs @ cs) = Some j" "i = Suc j" using Cons.prems(2) by auto
    moreover have "position_of p bs = None" using Cons.prems(1) np by auto
    ultimately show ?thesis using Cons.IH by fastforce
  qed
qed (use assms(1) in simp)

lemma find_event_break_cases:
  "find_event_break buf = (case position_of [10, 10] buf of
      None \<Rightarrow> map_option (\<lambda>i. i + 3) (position_of [13, 10, 13, 10] buf)
    | Some a \<Rightarrow> Some (case position_of [13, 10, 13, 10] buf of None \<Rightarrow> a + 1 | Some b \<Rightarrow> min (a + 1) (b + 3)))"
  by (simp add: find_event_break_def Let_def split: option.splits)

lemma find_event_break_less: "find_event_break buf = Some i \<Longrightarrow> i < length buf"
  by (auto simp: find_event_break_cases split: option.splits dest!: position_of_less)

lemma find_event_break_append:
  assumes "find_event_break buf = Some i"
  shows "find_event_break (buf @ rest) = Some i"
proof -
  have old: "position_of p (buf @ rest) = Some k" "k + length p \<le> length buf" if "position_of p buf = Some k" for p k
    using position_of_append [OF that] position_of_less [OF that] by simp_all
  have new: "length buf < k + length p" if "position_of p buf = None" "position_of p (buf @ rest) = Some k" "p \<noteq> []" for p k
    using position_of_new that by blast
  show ?thesis
  proof (cases "position_of [10, 10] buf"; cases "position_of [13, 10, 13, 10] buf")
    fix j assume n: "position_of [10, 10] buf = None" and j: "position_of [13, 10, 13, 10] buf = Some j"
    show ?thesis using assms old [OF j] new [OF n] by (auto simp: find_event_break_cases n j split: option.splits)
  next
    fix k assume k: "position_of [10, 10] buf = Some k" and n: "position_of [13, 10, 13, 10] buf = None"
    show ?thesis using assms old [OF k] new [OF n] by (fastforce simp: find_event_break_cases n k split: option.splits)
  next
    fix k j assume k: "position_of [10, 10] buf = Some k" and j: "position_of [13, 10, 13, 10] buf = Some j"
    show ?thesis using assms old [OF k] old [OF j] by (simp add: find_event_break_cases k j)
  qed (use assms in \<open>simp add: find_event_break_cases\<close>)
qed

subsection \<open>Splitting independence\<close>

definition feed :: "json_parser \<Rightarrow> bytes \<Rightarrow> sse_progress \<Rightarrow> sse_error + sse_progress" where
  "feed from_str bs progress =
     (case progress of TurnDone turn \<Rightarrow> Inr (TurnDone turn) | Waiting st \<Rightarrow> drain_events from_str (st\<lparr>pending_bytes := pending_bytes st @ bs\<rparr>))"

lemma drain_events_append:
  "drain_events from_str (st\<lparr>pending_bytes := pending_bytes st @ bs\<rparr>) = rbind (drain_events from_str st) (feed from_str bs)"
proof (induction from_str st rule: drain_events.induct)
  case (1 from_str st)
  show ?case
  proof (cases "find_event_break (pending_bytes st)")
    case None
    then have "drain_events from_str st = Inr (Waiting st)" by (subst drain_events.simps) simp
    then show ?thesis by (simp add: feed_def)
  next
    case (Some idx)
    have idx: "idx < length (pending_bytes st)" by (rule find_event_break_less [OF Some])
    have more: "find_event_break (pending_bytes st @ bs) = Some idx" by (rule find_event_break_append [OF Some])
    show ?thesis
      using 1 [OF Some] idx Some more
      by (subst (1 2) drain_events.simps) (auto simp: feed_def [abs_def] split: option.splits sum.splits bool.splits)
  qed
qed

definition close_stream :: "nat \<Rightarrow> sse_progress \<Rightarrow> sse_error + chat_turn" where
  "close_stream n progress = (case progress of TurnDone turn \<Rightarrow> Inr turn | Waiting st \<Rightarrow> Inl (MissingDone n (complete_events st)))"

lemma read_loop_concat:
  assumes "[] \<notin> set reads" and "drain_events from_str st = Inr (Waiting st)"
  shows "read_loop from_str (map ReadBytes reads) n st
    = rbind (drain_events from_str (st\<lparr>pending_bytes := pending_bytes st @ concat reads\<rparr>)) (close_stream (n + length (concat reads)))"
  using assms
proof (induction reads arbitrary: n st)
  case Nil
  then show ?case by (simp add: close_stream_def)
next
  case (Cons bs reads)
  let ?st = "st\<lparr>pending_bytes := pending_bytes st @ bs\<rparr>"
  have split: "drain_events from_str (st\<lparr>pending_bytes := pending_bytes st @ bs @ concat reads\<rparr>) = rbind (drain_events from_str ?st) (feed from_str (concat reads))"
    using drain_events_append [of from_str ?st "concat reads"] by simp
  show ?case
  proof (cases "drain_events from_str ?st")
    case (Inr progress)
    show ?thesis
    proof (cases progress)
      case (Waiting st')
      have "drain_events from_str st' = Inr (Waiting st')"
        using Inr Waiting drain_events_append [of from_str ?st "[]"] by (simp add: feed_def)
      then show ?thesis using Cons.IH [of st'] Cons.prems(1) Inr Waiting split by (auto simp: feed_def add.assoc)
    qed (use Cons.prems(1) Inr split in \<open>auto simp: feed_def close_stream_def\<close>)
  qed (use Cons.prems(1) split in auto)
qed

lemma drain_empty [simp]: "drain_events from_str \<lparr>pending_bytes = [], turn_state = tc, complete_events = n\<rparr>
    = Inr (Waiting \<lparr>pending_bytes = [], turn_state = tc, complete_events = n\<rparr>)"
  by (subst drain_events.simps) (simp add: find_event_break_def)

lemma consume_concat:
  assumes "[] \<notin> set reads"
  shows "consume_sse_read from_str (map ReadBytes reads)
    = rbind (drain_events from_str \<lparr>pending_bytes = concat reads, turn_state = (empty_turn, []), complete_events = 0\<rparr>) (close_stream (length (concat reads)))"
  using read_loop_concat [OF assms drain_empty] by (simp add: consume_sse_read_def)

text \<open>
  C22: the turn read from a stream does not depend on how the transport cuts it.  Two sequences of non-empty reads that deliver the
  same bytes give the same turn, or the same error with the same counts, wherever a read ends: inside a character, a
  line ending or an event.
\<close>

theorem sse_split_independent:
  assumes "[] \<notin> set reads" and "[] \<notin> set reads'" and "concat reads = concat reads'"
  shows "consume_sse_read from_str (map ReadBytes reads) = consume_sse_read from_str (map ReadBytes reads')"
  using assms by (simp add: consume_concat)

theorem sse_split_independent_witness:
  "consume_sse_read (\<lambda>_. Some JNull) (map ReadBytes [[100, 97], [116, 97, 58, 91, 68, 79, 78, 69, 93, 10], [10]])
     = consume_sse_read (\<lambda>_. Some JNull) (map ReadBytes [[100, 97, 116, 97, 58, 91, 68, 79, 78, 69, 93, 10, 10]])"
  by (rule sse_split_independent) simp_all

subsection \<open>UTF-8\<close>

lemma valid_scalar_less: "valid_scalar c \<Longrightarrow> scalar c"
  by (auto simp: valid_scalar_def scalar_def)

lemma from_utf8_sound: "from_utf8 bs = Some s \<Longrightarrow> as_bytes s = bs \<and> list_all valid_scalar s"
proof (induction bs arbitrary: s rule: from_utf8.induct)
  case (1 bs)
  show ?case
  proof (cases "bs = []")
    case True
    then show ?thesis using "1.prems" by (simp add: from_utf8.simps as_bytes_def)
  next
    case False
    let ?c = "utf8_value (first_encoding bs)"
    have ok: "valid_scalar ?c" "utf8_char ?c = first_encoding bs" and tl: "\<exists>r. from_utf8 (drop (utf8_width (hd bs)) bs) = Some r \<and> s = ?c # r"
      using "1.prems" False by (auto simp: from_utf8.simps [of bs] split: if_splits)
    then obtain r where r: "from_utf8 (drop (utf8_width (hd bs)) bs) = Some r" "s = ?c # r" by blast
    have "as_bytes r = drop (utf8_width (hd bs)) bs \<and> list_all valid_scalar r" using "1.IH" [OF False] ok r(1) by blast
    then have "as_bytes s = first_encoding bs @ drop (utf8_width (hd bs)) bs" "list_all valid_scalar s"
      using ok r(2) by (simp_all add: as_bytes_def)
    then show ?thesis by (simp add: first_encoding_def)
  qed
qed

lemma as_bytes_simps: "as_bytes [] = []" "as_bytes (c # s) = utf8_char c @ as_bytes s" "as_bytes (s @ r) = as_bytes s @ as_bytes r"
  by (simp_all add: as_bytes_def)

lemma as_bytes_prefix:
  assumes "list_all scalar s" and "list_all scalar t" and "as_bytes s @ xs = as_bytes t"
  shows "\<exists>r. t = s @ r \<and> xs = as_bytes r"
  using assms
proof (induction s arbitrary: t)
  case (Cons c s)
  have "t \<noteq> []" using Cons.prems(3) by (auto simp: as_bytes_simps)
  then obtain d t' where t: "t = d # t'" by (cases t) simp_all
  have eq: "utf8_char c @ as_bytes s @ xs = utf8_char d @ as_bytes t'" using Cons.prems(3) by (simp add: t as_bytes_simps)
  have "hd (utf8_char c) = hd (utf8_char d)"
    using arg_cong [OF eq, of hd] by (simp only: hd_append2 utf8_char_ne not_False_eq_True)
  then have "len_utf8 c = len_utf8 d" using Cons.prems utf8_char_len by (simp add: t)
  then have "utf8_char c = utf8_char d" "as_bytes s @ xs = as_bytes t'" using eq by simp_all
  then show ?case using Cons utf8_char_inj by (simp add: t)
qed (simp add: as_bytes_simps)

lemma last_utf8_char: "last (utf8_char c) = 10 \<Longrightarrow> c = 10"
  by (auto simp: utf8_char_def split: if_splits)

subsection \<open>Lines of events\<close>

lemma split_inclusive_lf_append:
  "split_inclusive_lf (a @ 10 # b) = split_inclusive_lf (a @ [10]) @ split_inclusive_lf b"
proof (induction a)
  case (Cons c a)
  have "split_inclusive_lf (a @ [10]) \<noteq> []" by (cases a) (auto split: list.splits)
  then show ?case using Cons by (auto split: list.splits)
qed simp

lemma sse_data_payloads_append:
  assumes "e \<noteq> []" and "last e = 10"
  shows "sse_data_payloads (e @ r) = sse_data_payloads e @ sse_data_payloads r"
proof -
  have e: "e = butlast e @ [10]" using assms by (metis append_butlast_last_id)
  have "split_inclusive_lf (e @ r) = split_inclusive_lf e @ split_inclusive_lf r"
    using split_inclusive_lf_append [of "butlast e" r] e by (metis append.assoc append_Cons append_Nil)
  then show ?thesis by (simp add: sse_data_payloads_def lines_def map_filter_def)
qed

lemma position_of_prefix: "position_of p bs = Some i \<Longrightarrow> prefix p (drop i bs)"
  by (induction bs arbitrary: i) (auto split: if_splits)

lemma event_ends_with_lf:
  assumes "find_event_break buf = Some i"
  shows "buf ! i = 10"
proof -
  have "buf ! (k + j) = p ! j" if "position_of p buf = Some k" "j < length p" for p k j
    using position_of_prefix [OF that(1)] position_of_less [OF that(1)] that(2)
    by (auto simp: prefix_def nth_append dest!: arg_cong [where f = "\<lambda>xs. xs ! j"])
  from this [where p = "[10, 10]" and j = 1] this [where p = "[13, 10, 13, 10]" and j = 3] show ?thesis
    using assms by (fastforce simp: find_event_break_cases min_def split: option.splits if_splits)
qed

lemma apply_payloads_append:
  "apply_payloads from_str (xs @ ys) tc = rbind (apply_payloads from_str xs tc) (\<lambda>(fin, tc'). if fin then Inr (True, tc') else apply_payloads from_str ys tc')"
proof (induction xs arbitrary: tc)
  case (Cons d ds)
  show ?case by (cases "apply_sse_data from_str d tc") (auto simp: Cons)
qed simp

lemma drain_events_body:
  assumes "drain_events from_str st = Inr (TurnDone turn)" and "pending_bytes st = as_bytes body" and "list_all valid_scalar body"
  shows "\<exists>tc. apply_payloads from_str (sse_data_payloads body) (turn_state st) = Inr (True, tc) \<and> turn = close_turn tc"
  using assms
proof (induction from_str st arbitrary: body rule: drain_events.induct)
  case (1 from_str st)
  from "1.prems"(1) obtain idx event where idx: "find_event_break (pending_bytes st) = Some idx"
    and event: "from_utf8 (take (Suc idx) (pending_bytes st)) = Some event"
    by (subst (asm) drain_events.simps) (auto split: option.splits)
  have len: "idx < length (pending_bytes st)" by (rule find_event_break_less [OF idx])
  have bytes: "as_bytes event = take (Suc idx) (pending_bytes st)" and scalars: "list_all valid_scalar event"
    using from_utf8_sound [OF event] by simp_all
  have "list_all scalar event" "list_all scalar body" using scalars "1.prems"(3) valid_scalar_less by (auto simp: list_all_iff)
  moreover have "as_bytes event @ drop (Suc idx) (pending_bytes st) = as_bytes body" using bytes "1.prems"(2) by simp
  ultimately obtain r where r: "body = event @ r" "drop (Suc idx) (pending_bytes st) = as_bytes r" using as_bytes_prefix by blast
  have "as_bytes event \<noteq> []" "last (as_bytes event) = 10"
    using bytes len event_ends_with_lf [OF idx] by (simp_all add: take_Suc_conv_app_nth)
  then have "event \<noteq> []" "last event = 10"
    by (cases event rule: rev_cases; simp add: as_bytes_simps last_utf8_char)+
  then have payloads: "sse_data_payloads body = sse_data_payloads event @ sse_data_payloads r"
    unfolding r(1) by (rule sse_data_payloads_append)
  obtain fin tc where ap: "apply_payloads from_str (sse_data_payloads event) (turn_state st) = Inr (fin, tc)"
    using "1.prems"(1) idx event by (subst (asm) drain_events.simps) (auto split: sum.splits)
  show ?case
  proof (cases fin)
    case True
    then show ?thesis using "1.prems"(1) idx event ap payloads
      by (subst (asm) drain_events.simps) (simp add: apply_payloads_append)
  next
    case False
    let ?st = "\<lparr>pending_bytes = drop (Suc idx) (pending_bytes st), turn_state = tc, complete_events = complete_events st + 1\<rparr>"
    have "drain_events from_str ?st = Inr (TurnDone turn)"
      using "1.prems"(1) idx event ap False by (subst (asm) drain_events.simps) simp
    then have "\<exists>tc'. apply_payloads from_str (sse_data_payloads r) tc = Inr (True, tc') \<and> turn = close_turn tc'"
      using "1.IH" [OF idx event ap] False r "1.prems"(3) by (cases tc) auto
    then show ?thesis using payloads ap False by (auto simp: apply_payloads_append)
  qed
qed

lemma payload_looks_like_sse:
  assumes "sse_data_payloads body \<noteq> []"
  shows "looks_like_sse body"
proof -
  from assms obtain l where l: "l \<in> set (lines body)" "prefix data_prefix l"
    by (auto simp: sse_data_payloads_def map_filter_def line_payload_def filter_empty_conv split: if_splits)
  from l(2) have "dropWhile is_whitespace l = l"
    by (cases l) (auto simp: data_prefix_def lit_def is_whitespace_def)
  then show ?thesis using l by (auto simp: looks_like_sse_def list_ex_iff intro!: bexI [of _ l])
qed

text \<open>
  C23: streaming and collecting agree.  When the incremental reader returns a turn for a body, in whatever pieces it arrives, the
  collector of the complete body returns the same turn.
\<close>

theorem stream_agrees_with_body:
  assumes reads: "[] \<notin> set reads" and body: "concat reads = as_bytes body" "list_all valid_scalar body"
    and turn: "consume_sse_read from_str (map ReadBytes reads) = Inr turn"
  shows "collect_chat_turn from_str body = Inr turn"
proof -
  have "drain_events from_str \<lparr>pending_bytes = as_bytes body, turn_state = (empty_turn, []), complete_events = 0\<rparr> = Inr (TurnDone turn)"
    using turn consume_concat [OF reads, of from_str] body(1)
    by (cases "drain_events from_str \<lparr>pending_bytes = as_bytes body, turn_state = (empty_turn, []), complete_events = 0\<rparr>")
       (auto simp: close_stream_def split: sse_progress.splits)
  from drain_events_body [OF this _ body(2)] obtain tc where
    "apply_payloads from_str (sse_data_payloads body) (empty_turn, []) = Inr (True, tc)" "turn = close_turn tc" by auto
  then show ?thesis using payload_looks_like_sse [of body] by (fastforce simp: collect_chat_turn_def)
qed

text \<open>A stream of one delta and the end marker.\<close>

definition sample_body :: rstr where
  "sample_body = lit ''data: x'' @ [10, 10] @ lit ''data: [DONE]'' @ [10, 10]"

definition sample_parser :: json_parser where
  "sample_parser _ = Some (JObject [(lit ''choices'', JArray [JObject [(lit ''delta'', JObject [(lit ''content'', JString [104, 105])])]])])"

lemma from_utf8_ascii: "list_all (\<lambda>c. c < 128) s \<Longrightarrow> from_utf8 s = Some s"
  by (induction s) (simp_all add: from_utf8.simps first_encoding_def utf8_width_def valid_scalar_def utf8_char_def)

lemma drain_event:
  assumes "find_event_break (pending_bytes st) = Some idx" and "list_all (\<lambda>c. c < 128) (take (Suc idx) (pending_bytes st))"
    and "apply_payloads from_str (sse_data_payloads (take (Suc idx) (pending_bytes st))) (turn_state st) = Inr (fin, tc)"
  shows "drain_events from_str st = (if fin then Inr (TurnDone (close_turn tc)) else drain_events from_str
      \<lparr>pending_bytes = drop (Suc idx) (pending_bytes st), turn_state = tc, complete_events = complete_events st + 1\<rparr>)"
  using assms by (subst drain_events.simps) (simp add: from_utf8_ascii)

lemmas sse_eval = sse_data_payloads_def lines_def strip_line_ending_def map_filter_def line_payload_def data_prefix_def done_marker_def lit_def
  trim_def trim_end_matches_def is_whitespace_def suffix_to_prefix

lemma sample_turn:
  "drain_events sample_parser \<lparr>pending_bytes = as_bytes sample_body, turn_state = (empty_turn, []), complete_events = 0\<rparr>
     = Inr (TurnDone (empty_turn\<lparr>turn_content := [104, 105]\<rparr>))"
proof -
  have bytes: "as_bytes sample_body = [100, 97, 116, 97, 58, 32, 120, 10, 10, 100, 97, 116, 97, 58, 32, 91, 68, 79, 78, 69, 93, 10, 10]"
    by (simp add: sample_body_def lit_def as_bytes_def utf8_char_def)
  have delta: "apply_sse_data sample_parser d (empty_turn, []) = Inr (empty_turn\<lparr>turn_content := [104, 105]\<rparr>, [])" for d
    by (simp add: apply_sse_data_def sample_parser_def jget_def jfirst_def usage_def delta_calls_def message_calls_def jstr_or_empty_def empty_turn_def lit_def)
  have "drain_events sample_parser \<lparr>pending_bytes = as_bytes sample_body, turn_state = (empty_turn, []), complete_events = 0\<rparr>
      = drain_events sample_parser \<lparr>pending_bytes = [100, 97, 116, 97, 58, 32, 91, 68, 79, 78, 69, 93, 10, 10],
          turn_state = (empty_turn\<lparr>turn_content := [104, 105]\<rparr>, []), complete_events = 1\<rparr>"
    by (subst drain_event [where idx = 8 and fin = False and tc = "(empty_turn\<lparr>turn_content := [104, 105]\<rparr>, [])"])
       (simp_all add: bytes find_event_break_cases sse_eval delta)
  also have "\<dots> = Inr (TurnDone (empty_turn\<lparr>turn_content := [104, 105]\<rparr>))"
    by (subst drain_event [where idx = 13 and fin = True and tc = "(empty_turn\<lparr>turn_content := [104, 105]\<rparr>, [])"])
       (simp_all add: find_event_break_cases sse_eval close_turn_def empty_turn_def)
  finally show ?thesis .
qed

theorem stream_agrees_with_body_witness:
  "\<exists>turn. consume_sse_read sample_parser (map ReadBytes [take 3 (as_bytes sample_body), drop 3 (as_bytes sample_body)]) = Inr turn
     \<and> collect_chat_turn sample_parser sample_body = Inr turn \<and> turn_content turn = [104, 105]"
proof -
  let ?reads = "[take 3 (as_bytes sample_body), drop 3 (as_bytes sample_body)]"
  have ne: "[] \<notin> set ?reads" and scalars: "list_all valid_scalar sample_body"
    by (simp_all add: sample_body_def lit_def as_bytes_def utf8_char_def valid_scalar_def)
  have run: "consume_sse_read sample_parser (map ReadBytes ?reads) = Inr (empty_turn\<lparr>turn_content := [104, 105]\<rparr>)"
    using consume_concat [OF ne, of sample_parser] sample_turn by (simp add: close_stream_def)
  with stream_agrees_with_body [OF ne _ scalars run] show ?thesis by simp
qed

end
