(* ===== verification/Wiki_Linkify.thy ===== *)
theory Wiki_Linkify
  imports Source_Contract
begin

text \<open>
  Links between wiki pages (\<^verbatim>\<open>knowledge/src/wiki/linkify.rs\<close>): the first safe mention of each page is wrapped in a link, outside of code,
  existing links and images.  Offsets are bytes; the loops only stop at character boundaries, so each recursion takes the rest of the text
  at its offset.
\<close>

record link_ref =
  ref_slug :: rstr
  match_text :: rstr

type_synonym byte_span = "nat \<times> nat"

text \<open>\<^verbatim>\<open>str::find\<close>: the text before and after the first occurrence; the offset is the length of the text before it.\<close>

fun find_split :: "rstr \<Rightarrow> rstr \<Rightarrow> (rstr \<times> rstr) option" where
  "find_split p [] = (if p = [] then Some ([], []) else None)"
| "find_split p (c # cs) =
     (if prefix p (c # cs) then Some ([], drop (length p) (c # cs))
      else map_option (\<lambda>(pre, post). (c # pre, post)) (find_split p cs))"

lemma find_split_SomeD: "find_split p s = Some (pre, post) \<Longrightarrow> s = pre @ p @ post"
  by (induction s arbitrary: pre) (auto simp: prefix_def split: if_splits)

lemma find_split_length: "find_split p s = Some (pre, post) \<Longrightarrow> length post \<le> length s - length p"
  by (drule find_split_SomeD) simp

definition markdown_link_end :: "rstr \<Rightarrow> (nat \<times> rstr) option" where
  "markdown_link_end rest =
     (if \<not> prefix (lit ''['') rest then None
      else case find_split (lit '']'') rest of
        None \<Rightarrow> None
      | Some (text, after) \<Rightarrow>
          if \<not> prefix (lit ''('') after then None
          else map_option (\<lambda>(target, post). (byte_len text + 1 + byte_len target + 1, post)) (find_split (lit '')'') after))"

lemma markdown_link_end_length: "markdown_link_end rest = Some (n, post) \<Longrightarrow> length post < length rest"
  by (auto simp: markdown_link_end_def lit_def split: if_splits option.splits dest!: find_split_SomeD)

function forbidden_from :: "nat \<Rightarrow> rstr \<Rightarrow> byte_span list" where
  "forbidden_from i rest =
     (if rest = [] then []
      else if prefix (lit ''```'') rest
      then (case find_split (lit ''```'') (drop 3 rest) of
              Some (code, post) \<Rightarrow> (i, i + 3 + byte_len code + 3) # forbidden_from (i + 3 + byte_len code + 3) post
            | None \<Rightarrow> [(i, i + byte_len rest)])
      else case (if hd rest = 96 then find_split (lit ''`'') (tl rest) else None) of
        Some (code, post) \<Rightarrow> (i, i + 1 + byte_len code + 1) # forbidden_from (i + 1 + byte_len code + 1) post
      | None \<Rightarrow>
        (case (if prefix (lit ''[['') rest then find_split (lit '']]'') (drop 2 rest) else None) of
          Some (inner, post) \<Rightarrow> (i, i + 2 + byte_len inner + 2) # forbidden_from (i + 2 + byte_len inner + 2) post
        | None \<Rightarrow>
          (case (if prefix (lit ''!['') rest then markdown_link_end (tl rest) else None) of
            Some (n, post) \<Rightarrow> (i, i + 1 + n) # forbidden_from (i + 1 + n) post
          | None \<Rightarrow>
            (case (if hd rest = 91 then markdown_link_end rest else None) of
              Some (n, post) \<Rightarrow> (i, i + n) # forbidden_from (i + n) post
            | None \<Rightarrow> forbidden_from (i + len_utf8 (hd rest)) (tl rest)))))"
  by auto
termination
  by (relation "measure (\<lambda>(i, rest). length rest)")
     (auto split: if_splits dest!: find_split_length markdown_link_end_length simp: length_greater_0_conv [symmetric] simp del: length_greater_0_conv)

declare forbidden_from.simps [simp del]

definition compute_forbidden_spans :: "rstr \<Rightarrow> byte_span list" where
  "compute_forbidden_spans content = forbidden_from 0 content"

lemma wiki_link_shorter:
  assumes "(if prefix (lit ''[['') rest then find_split (lit '']]'') (drop 2 rest) else None) = Some (inner, post)"
  shows "length post < length rest"
proof -
  have "rest \<noteq> []" "length post \<le> length (drop 2 rest) - length (lit '']]'')"
    using assms by (auto simp: lit_def split: if_splits dest!: find_split_length)
  then show ?thesis by (cases rest) (simp_all add: lit_def)
qed

function existing_slugs :: "rstr \<Rightarrow> rstr list" where
  "existing_slugs rest =
     (if byte_len rest \<le> 1 then []
      else case (if prefix (lit ''[['') rest then find_split (lit '']]'') (drop 2 rest) else None) of
        Some (inner, post) \<Rightarrow>
          (let slug = trim (hd (split_char 124 inner)) in if slug \<noteq> [] then slug # existing_slugs post else existing_slugs post)
      | None \<Rightarrow> existing_slugs (tl rest))"
  by auto
termination
proof (relation "measure length", goal_cases)
  case (2 rest)
  then show ?case by (cases rest) simp_all
next
  case 3
  then show ?case by (metis in_measure wiki_link_shorter)
next
  case 4
  then show ?case by (metis in_measure wiki_link_shorter)
qed simp

declare existing_slugs.simps [simp del]

definition is_ascii_alnum :: "nat \<Rightarrow> bool" where
  "is_ascii_alnum b \<longleftrightarrow> (48 \<le> b \<and> b \<le> 57) \<or> (65 \<le> b \<and> b \<le> 90) \<or> (97 \<le> b \<and> b \<le> 122)"

definition has_ascii_letter_edge :: "rstr \<Rightarrow> bool" where
  "has_ascii_letter_edge s = (let b = as_bytes s in if b = [] then False else is_ascii_alnum (hd b) \<or> is_ascii_alnum (last b))"

definition has_word_boundary :: "rstr \<Rightarrow> nat \<Rightarrow> nat \<Rightarrow> bool" where
  "has_word_boundary haystack start finish =
     (let bytes = as_bytes haystack
      in (start = 0 \<or> \<not> is_ascii_alnum (bytes ! (start - 1))) \<and> (finish \<ge> length bytes \<or> \<not> is_ascii_alnum (bytes ! finish)))"

definition span_contains :: "byte_span list \<Rightarrow> nat \<Rightarrow> nat \<Rightarrow> bool" where
  "span_contains fs start finish = list_ex (\<lambda>(a, b). start < b \<and> finish > a) fs"

function safe_match_from :: "rstr \<Rightarrow> rstr \<Rightarrow> byte_span list \<Rightarrow> bool \<Rightarrow> nat \<Rightarrow> rstr \<Rightarrow> nat option" where
  "safe_match_from haystack needle forbidden needs_boundary start rest =
     (if needle = [] \<or> byte_len needle > byte_len rest then None
      else case find_split needle rest of
        None \<Rightarrow> None
      | Some (pre, post) \<Rightarrow>
          let pos = start + byte_len pre; finish = pos + byte_len needle
          in if span_contains forbidden pos finish \<or> (needs_boundary \<and> \<not> has_word_boundary haystack pos finish)
             then safe_match_from haystack needle forbidden needs_boundary (pos + len_utf8 (hd needle)) (tl needle @ post)
             else Some pos)"
  by auto
termination
  by (relation "measure (\<lambda>(h, n, f, b, s, rest). length rest)") (auto dest!: find_split_SomeD simp: length_greater_0_conv [symmetric] simp del: length_greater_0_conv)

declare safe_match_from.simps [simp del]

definition find_first_safe_match :: "rstr \<Rightarrow> rstr \<Rightarrow> byte_span list \<Rightarrow> nat option" where
  "find_first_safe_match haystack needle forbidden =
     safe_match_from haystack needle forbidden (has_ascii_letter_edge needle) 0 haystack"

definition shift_spans_after :: "byte_span list \<Rightarrow> nat \<Rightarrow> int \<Rightarrow> byte_span list" where
  "shift_spans_after fs pos delta =
     map (\<lambda>(a, b). if a \<ge> pos then (nat (int a + delta), nat (int b + delta)) else (a, b)) fs"

definition link_text :: "rstr \<Rightarrow> rstr \<Rightarrow> rstr" where
  "link_text slug t = lit ''[['' @ slug @ lit ''|'' @ t @ lit '']]''"

record linkify_state =
  lk_out :: rstr
  lk_forbidden :: "byte_span list"
  lk_used :: "rstr list"
  lk_changed :: bool

definition linkify_ref :: "link_ref \<Rightarrow> linkify_state \<Rightarrow> linkify_state" where
  "linkify_ref r st =
     (if ref_slug r \<in> set (lk_used st) then st
      else case find_first_safe_match (lk_out st) (match_text r) (lk_forbidden st) of
        None \<Rightarrow> st
      | Some pos \<Rightarrow>
          let replacement = link_text (ref_slug r) (match_text r);
              finish = pos + byte_len (match_text r);
              out = byte_slice (lk_out st) 0 pos @ replacement @ byte_slice (lk_out st) finish (byte_len (lk_out st));
              delta = int (byte_len replacement) - int (byte_len (match_text r));
              forbidden = shift_spans_after (lk_forbidden st) pos delta @ [(pos, pos + byte_len replacement)]
          in \<lparr>lk_out = out, lk_forbidden = sort_key fst forbidden, lk_used = lk_used st @ [ref_slug r], lk_changed = True\<rparr>)"

definition linkify_content :: "rstr \<Rightarrow> link_ref list \<Rightarrow> rstr \<Rightarrow> rstr \<times> bool" where
  "linkify_content content refs self_slug =
     (if content = [] \<or> refs = [] then (content, False)
      else let sorted = sort_key (\<lambda>r. - int (length (match_text r)))
                 (filter (\<lambda>r. ref_slug r \<noteq> [] \<and> match_text r \<noteq> [] \<and> ref_slug r \<noteq> self_slug) refs);
               st = fold linkify_ref sorted
                 \<lparr>lk_out = content, lk_forbidden = compute_forbidden_spans content, lk_used = existing_slugs content, lk_changed = False\<rparr>
           in (lk_out st, lk_changed st))"

end
