(* ===== verification/Wiki_Linkify_Props.thy ===== *)
theory Wiki_Linkify_Props
  imports Wiki_Linkify
begin

text \<open>
  Linkification only wraps: the output is the content with some mentions outside the forbidden spans replaced by links, one for each
  page.  The content is seen as a list of characters, each marked when a forbidden span covers it; the output
  is cut into segments that are kept and links whose source characters are unmarked.
\<close>

subsection \<open>Marked texts\<close>

type_synonym marked = "(nat \<times> bool) list"

definition covered :: "byte_span list \<Rightarrow> nat \<Rightarrow> bool" where
  "covered fs n \<longleftrightarrow> (\<exists>(a, b)\<in>set fs. a \<le> n \<and> n < b)"

fun mark_chars :: "byte_span list \<Rightarrow> nat \<Rightarrow> rstr \<Rightarrow> marked" where
  "mark_chars fs i [] = []"
| "mark_chars fs i (c # cs) = (c, covered fs i) # mark_chars fs (i + len_utf8 c) cs"

datatype segment = Kept marked | Link rstr rstr





definition links_of :: "segment list \<Rightarrow> (rstr \<times> rstr) list" where
  "links_of segs = List.map_filter (\<lambda>s. case s of Kept _ \<Rightarrow> None | Link slug t \<Rightarrow> Some (slug, t)) segs"

lemma links_of_simps [simp]: "links_of [] = []" "links_of (Kept cs # segs) = links_of segs" "links_of (Link s t # segs) = (s, t) # links_of segs"
  "links_of (xs @ ys) = links_of xs @ links_of ys"
  by (simp_all add: links_of_def map_filter_def)

lemma map_fst_mark_chars [simp]: "map fst (mark_chars fs i s) = s"
  by (induction s arbitrary: i) simp_all


subsection \<open>One link\<close>





lemma covered_simps [simp]: "covered (sort_key f fs) n = covered fs n" "covered (fs @ gs) n = (covered fs n \<or> covered gs n)"
  by (auto simp: covered_def)








end
