(* ===== verification/Spans.thy ===== *)
theory Spans
  imports Documents
begin

text \<open>
  Processing spans (\<^verbatim>\<open>knowledge/src/catalog/spans.rs\<close>, \<^verbatim>\<open>knowledge/src/obs.rs\<close>): the rows that record the stages of an attempt, the order in which
  stages may start, and the trace tree shown for an attempt.  The rows are those of the table in \<open>kdb\<close>; each operation is one transaction,
  and those that read a parent before their transaction do so in the state they are given.

  Parameters: \<open>new_id\<close> is a result of \<^verbatim>\<open>Uuid::new_v4\<close>, \<open>output_error\<close> reads the member \<open>error\<close> of an output as a string.
\<close>

subsection \<open>Stages\<close>

definition root_name :: db_text where "root_name = ''document_processing''"

definition all_stages :: "db_text list" where
  "all_stages = [''docreader'', ''chunking'', ''embedding'', ''multimodal'', ''postprocess'']"

definition kind_of :: "db_text \<Rightarrow> db_text" where
  "kind_of name = (if name = root_name then ''root'' else if name \<in> set all_stages then ''stage'' else ''subspan'')"

definition span_kind :: "db_text \<Rightarrow> db_text" where
  "span_kind name =
     (if name = ''document_processing'' then ''root''
      else if name = ''docreader'' \<or> name = ''chunking'' \<or> name = ''embedding'' \<or> name = ''multimodal'' \<or> name = ''postprocess'' then ''stage''
      else ''subspan'')"

record span =
  span_id :: uuid
  span_document :: uuid
  span_attempt :: int
  span_name :: db_text
  span_parent :: "uuid option"
  span_kind_text :: db_text
  span_state :: span_status
  span_output :: "db_text option"
  span_error :: db_text
  span_started :: timestamp
  span_finished :: "timestamp option"
  span_duration :: "int option"

definition stage_satisfied :: "span list \<Rightarrow> db_text \<Rightarrow> bool" where
  "stage_satisfied rows name \<longleftrightarrow> list_ex (\<lambda>s. span_name s = name \<and> (span_state s = SpDone \<or> span_state s = SpSkipped)) rows"

definition can_start_stage :: "db_text \<Rightarrow> span list \<Rightarrow> bool" where
  "can_start_stage stage rows =
     (if stage = ''docreader'' then True
      else if stage = ''chunking'' then stage_satisfied rows ''docreader''
      else if stage = ''embedding'' \<or> stage = ''multimodal'' then stage_satisfied rows ''chunking''
      else if stage = ''postprocess'' then stage_satisfied rows ''embedding'' \<and> stage_satisfied rows ''multimodal''
      else True)"

definition can_start_stage_or_legacy :: "db_text \<Rightarrow> span list \<Rightarrow> bool" where
  "can_start_stage_or_legacy stage rows =
     (if \<not> list_ex (\<lambda>s. span_kind_text s = ''root'' \<or> span_kind_text s = ''stage'' \<or> span_name s \<in> set all_stages) rows then True
      else can_start_stage stage rows)"

definition dependents_of :: "db_text \<Rightarrow> db_text list" where
  "dependents_of stage =
     (if stage = ''docreader'' then [''chunking'', ''embedding'', ''multimodal'', ''postprocess'']
      else if stage = ''chunking'' then [''embedding'', ''multimodal'', ''postprocess'']
      else if stage = ''embedding'' \<or> stage = ''multimodal'' then [''postprocess'']
      else [])"

definition current_step :: "span list \<Rightarrow> span option" where
  "current_step rows =
     (case find (\<lambda>s. span_kind_text s = ''stage'' \<and> span_state s = SpRunning) rows of
        Some s \<Rightarrow> Some s | None \<Rightarrow> find (\<lambda>s. span_kind_text s = ''stage'') (rev rows))"

subsection \<open>Writers\<close>

definition sp_key :: "span_row \<Rightarrow> uuid \<times> int \<times> db_text" where
  "sp_key s = (sp_doc s, sp_attempt s, sp_name s)"

definition lock_span_document :: "kdb \<Rightarrow> uuid \<Rightarrow> int \<Rightarrow> bool" where
  "lock_span_document db did attempt \<longleftrightarrow>
     exists_row (\<lambda>d. doc_id d = did \<and> doc_attempt d = attempt \<and> doc_deleted d = None \<and> \<not> is_aborted (doc_parse d)) (k_documents db)"

definition lookup_span_id :: "kdb \<Rightarrow> uuid \<Rightarrow> int \<Rightarrow> db_text \<Rightarrow> uuid option" where
  "lookup_span_id db did attempt name = Option.bind (find (\<lambda>s. sp_key s = (did, attempt, name)) (k_spans db)) sp_id"

definition touch_document :: "timestamp \<Rightarrow> uuid \<Rightarrow> int \<Rightarrow> kdb \<Rightarrow> kdb" where
  "touch_document now did attempt db =
     update_documents (\<lambda>d. doc_id d = did \<and> doc_attempt d = attempt \<and> \<not> is_aborted (doc_parse d)) (\<lambda>d. d\<lparr>doc_updated := now\<rparr>) db"

text \<open>\<^verbatim>\<open>INSERT ... ON CONFLICT (document_id, attempt, name) DO UPDATE\<close>\<close>

definition upsert_row :: "span_row \<Rightarrow> (span_row \<Rightarrow> span_row) \<Rightarrow> kdb \<Rightarrow> kdb" where
  "upsert_row s f db =
     (if exists_row (\<lambda>r. sp_key r = sp_key s) (k_spans db) then update_spans (\<lambda>r. sp_key r = sp_key s) f db
      else db\<lparr>k_spans := k_spans db @ [s]\<rparr>)"

definition or_else :: "'a option \<Rightarrow> 'a option \<Rightarrow> 'a option" where
  "or_else x y = (case x of None \<Rightarrow> y | Some _ \<Rightarrow> x)"

definition blank_span :: "uuid \<Rightarrow> int \<Rightarrow> db_text \<Rightarrow> uuid \<Rightarrow> span_row" where
  "blank_span did attempt name new_id =
     \<lparr>sp_doc = did, sp_attempt = attempt, sp_name = name, sp_id = Some new_id, sp_parent = None, sp_kind = None, sp_status = None, sp_input = None,
      sp_output = None, sp_error_code = None, sp_error = None, sp_started = None, sp_finished = None, sp_duration = None\<rparr>"

definition start_span_tx ::
  "timestamp \<Rightarrow> uuid \<Rightarrow> uuid \<Rightarrow> int \<Rightarrow> db_text \<Rightarrow> uuid option \<Rightarrow> db_text option \<Rightarrow> kdb \<Rightarrow> kdb" where
  "start_span_tx now new_id did attempt name parent_id inp db =
     (if \<not> lock_span_document db did attempt then db
      else touch_document now did attempt
        (upsert_row ((blank_span did attempt name new_id)\<lparr>sp_parent := parent_id, sp_kind := Some (span_kind name), sp_status := Some ''running'',
             sp_input := inp, sp_started := Some now\<rparr>)
           (\<lambda>r. r\<lparr>sp_status := Some ''running'', sp_input := or_else inp (sp_input r), sp_parent := or_else parent_id (sp_parent r),
                  sp_kind := Some (span_kind name), sp_started := Some now, sp_finished := None, sp_duration := None, sp_error := None\<rparr>) db))"

definition start_span ::
  "timestamp \<Rightarrow> uuid \<Rightarrow> uuid \<Rightarrow> int \<Rightarrow> db_text \<Rightarrow> db_text option \<Rightarrow> db_text option \<Rightarrow> kdb \<Rightarrow> kdb" where
  "start_span now new_id did attempt name parent_name inp db =
     (let parent = or_else parent_name (if name = ''document_processing'' then None else Some ''document_processing'');
          parent_id = Option.bind parent (lookup_span_id db did attempt)
      in start_span_tx now new_id did attempt name parent_id inp db)"

definition open_stages_tx :: "uuid \<Rightarrow> int \<Rightarrow> uuid option \<Rightarrow> (db_text \<Rightarrow> uuid) \<Rightarrow> kdb \<Rightarrow> kdb" where
  "open_stages_tx did attempt root ids db =
     (if \<not> lock_span_document db did attempt then db
      else fold (\<lambda>name. upsert_row ((blank_span did attempt name (ids name))\<lparr>sp_parent := root, sp_kind := Some ''stage'', sp_status := Some ''pending''\<rparr>) id)
             [''docreader'', ''chunking'', ''embedding'', ''multimodal'', ''postprocess''] db)"

definition open_attempt :: "timestamp \<Rightarrow> uuid \<Rightarrow> (db_text \<Rightarrow> uuid) \<Rightarrow> uuid \<Rightarrow> int \<Rightarrow> kdb \<Rightarrow> kdb" where
  "open_attempt now new_id ids did attempt db =
     (let db1 = start_span now new_id did attempt ''document_processing'' None None db
      in open_stages_tx did attempt (lookup_span_id db1 did attempt ''document_processing'') ids db1)"

definition upsert_span_in_tx :: "timestamp \<Rightarrow> uuid \<Rightarrow> uuid \<Rightarrow> int \<Rightarrow> db_text \<Rightarrow> span_status \<Rightarrow> db_text option \<Rightarrow> kdb \<Rightarrow> kdb" where
  "upsert_span_in_tx now new_id did attempt name status output db =
     (let finished = (if status = SpRunning then None else Some now)
      in upsert_row ((blank_span did attempt name new_id)\<lparr>sp_kind := Some name, sp_status := Some (span_status_as_str status), sp_output := output,
             sp_started := Some now, sp_finished := finished\<rparr>)
           (\<lambda>r. r\<lparr>sp_status := Some (span_status_as_str status), sp_output := output, sp_finished := finished,
                  sp_duration := (if status = SpRunning then None else map_option (\<lambda>t. epoch_ms (now - t)) (sp_started r))\<rparr>) db)"

definition upsert_span :: "timestamp \<Rightarrow> uuid \<Rightarrow> uuid \<Rightarrow> int \<Rightarrow> db_text \<Rightarrow> span_status \<Rightarrow> db_text option \<Rightarrow> kdb \<Rightarrow> kdb" where
  "upsert_span now new_id did attempt name status output db =
     (if \<not> lock_span_document db did attempt then db else upsert_span_in_tx now new_id did attempt name status output db)"

definition finish_span ::
  "(db_text \<Rightarrow> db_text option) \<Rightarrow> timestamp \<Rightarrow> uuid \<Rightarrow> uuid \<Rightarrow> int \<Rightarrow> db_text \<Rightarrow> span_status \<Rightarrow> db_text option \<Rightarrow> kdb \<Rightarrow> kdb" where
  "finish_span output_error now new_id did attempt name status output db =
     (let err = (if status = SpFailed then Option.bind output output_error else None)
      in if \<not> lock_span_document db did attempt then db
         else touch_document now did attempt
           (if exists_row (\<lambda>r. sp_key r = (did, attempt, name)) (k_spans db)
            then update_spans (\<lambda>r. sp_key r = (did, attempt, name))
                   (\<lambda>r. r\<lparr>sp_status := Some (span_status_as_str status), sp_output := output, sp_error := err, sp_finished := Some now,
                          sp_duration := Some (epoch_ms (now - (case sp_started r of None \<Rightarrow> now | Some t \<Rightarrow> t)))\<rparr>) db
            else upsert_span_in_tx now new_id did attempt name status output db))"

definition skip_span_tx :: "timestamp \<Rightarrow> uuid \<Rightarrow> int \<Rightarrow> db_text \<Rightarrow> db_text \<Rightarrow> kdb \<Rightarrow> kdb" where
  "skip_span_tx now did attempt name reason db =
     (if \<not> lock_span_document db did attempt then db
      else update_spans (\<lambda>r. sp_key r = (did, attempt, name))
             (\<lambda>r. r\<lparr>sp_status := Some ''skipped'', sp_error := Some reason, sp_finished := Some now, sp_duration := Some 0\<rparr>) db)"

definition skip_span :: "timestamp \<Rightarrow> uuid \<Rightarrow> uuid \<Rightarrow> int \<Rightarrow> db_text \<Rightarrow> db_text \<Rightarrow> kdb \<Rightarrow> kdb" where
  "skip_span now new_id did attempt name reason db =
     skip_span_tx now did attempt name reason (start_span now new_id did attempt name (Some ''document_processing'') None db)"

definition cancelled_stages :: "db_text \<Rightarrow> db_text list" where
  "cancelled_stages failed_stage =
     (if failed_stage = ''docreader'' then [''chunking'', ''embedding'', ''multimodal'', ''postprocess'']
      else if failed_stage = ''chunking'' then [''embedding'', ''multimodal'', ''postprocess'']
      else if failed_stage = ''embedding'' \<or> failed_stage = ''multimodal'' then [''postprocess'']
      else [])"

definition cancel_dependent_stages :: "timestamp \<Rightarrow> uuid \<Rightarrow> int \<Rightarrow> db_text \<Rightarrow> kdb \<Rightarrow> kdb" where
  "cancel_dependent_stages now did attempt failed_stage db =
     (if cancelled_stages failed_stage = [] \<or> \<not> lock_span_document db did attempt then db
      else update_spans (\<lambda>r. sp_doc r = did \<and> sp_attempt r = attempt \<and> sp_name r \<in> set (cancelled_stages failed_stage)
               \<and> sp_status r \<in> {Some ''pending'', Some ''running''})
             (\<lambda>r. r\<lparr>sp_status := Some ''cancelled'', sp_error := Some (''upstream '' @ failed_stage @ '' failed''), sp_finished := Some now\<rparr>) db)"

subsection \<open>Readers\<close>

text \<open>A row of the table as a value; \<open>None\<close> is the decoding error of its status.\<close>

definition into_span :: "uuid \<Rightarrow> timestamp \<Rightarrow> span_row \<Rightarrow> span option" where
  "into_span new_id now r =
     map_option (\<lambda>st. \<lparr>span_id = (case sp_id r of None \<Rightarrow> new_id | Some i \<Rightarrow> i), span_document = sp_doc r, span_attempt = sp_attempt r, span_name = sp_name r,
        span_parent = sp_parent r, span_kind_text = (case sp_kind r of None \<Rightarrow> ''stage'' | Some k \<Rightarrow> k), span_state = st, span_output = sp_output r,
        span_error = (case sp_error r of None \<Rightarrow> [] | Some e \<Rightarrow> e), span_started = (case sp_started r of None \<Rightarrow> now | Some t \<Rightarrow> t),
        span_finished = sp_finished r, span_duration = sp_duration r\<rparr>) (Option.bind (sp_status r) span_status_of_str)"

definition span_decodes :: "span_row \<Rightarrow> bool" where
  "span_decodes r \<longleftrightarrow> Option.bind (sp_status r) span_status_of_str \<noteq> None"

text \<open>
  \<^verbatim>\<open>ORDER BY started_at NULLS LAST, name\<close>; \<open>collate\<close> is the rank of a name in the collation of the database.
\<close>

definition order_spans :: "(db_text \<Rightarrow> nat) \<Rightarrow> span_row list \<Rightarrow> span_row list" where
  "order_spans collate rows =
     (let by_name = sort_key (\<lambda>r. collate (sp_name r)) rows
      in sort_key (\<lambda>r. case sp_started r of None \<Rightarrow> 0 | Some t \<Rightarrow> t) (filter (\<lambda>r. sp_started r \<noteq> None) by_name)
           @ filter (\<lambda>r. sp_started r = None) by_name)"

definition fetch_spans :: "(db_text \<Rightarrow> nat) \<Rightarrow> (span_row \<Rightarrow> bool) \<Rightarrow> kdb \<Rightarrow> span_row list option" where
  "fetch_spans collate P db =
     (let rows = order_spans collate (filter P (k_spans db)) in if list_all span_decodes rows then Some rows else None)"

definition latest_span_attempt :: "kdb \<Rightarrow> uuid \<Rightarrow> int" where
  "latest_span_attempt db did =
     (case map sp_attempt (filter (\<lambda>r. sp_doc r = did) (k_spans db)) of [] \<Rightarrow> 0 | a # as \<Rightarrow> fold max as a)"

definition list_spans :: "(db_text \<Rightarrow> nat) \<Rightarrow> kdb \<Rightarrow> uuid \<Rightarrow> span_row list option" where
  "list_spans collate db did = fetch_spans collate (\<lambda>r. sp_doc r = did) db"

definition list_spans_attempt :: "(db_text \<Rightarrow> nat) \<Rightarrow> kdb \<Rightarrow> uuid \<Rightarrow> int \<Rightarrow> span_row list option" where
  "list_spans_attempt collate db did attempt = fetch_spans collate (\<lambda>r. sp_doc r = did \<and> sp_attempt r = attempt) db"

subsection \<open>Traces\<close>

record trace_info =
  ti_span_id :: "uuid option"
  ti_parent :: "uuid option"
  ti_name :: db_text
  ti_kind :: db_text
  ti_status :: span_status
  ti_attempt :: int
  ti_output :: "db_text option"
  ti_error :: db_text
  ti_started :: "timestamp option"
  ti_finished :: "timestamp option"
  ti_duration :: "int option"

datatype trace_node = TraceNode trace_info "trace_node list"

fun node_info :: "trace_node \<Rightarrow> trace_info" where
  "node_info (TraceNode i cs) = i"

definition info_from :: "span \<Rightarrow> trace_info" where
  "info_from r = \<lparr>ti_span_id = Some (span_id r), ti_parent = span_parent r, ti_name = span_name r, ti_kind = span_kind_text r, ti_status = span_state r,
     ti_attempt = span_attempt r, ti_output = span_output r, ti_error = span_error r, ti_started = Some (span_started r),
     ti_finished = span_finished r, ti_duration = span_duration r\<rparr>"

definition node_from :: "span \<Rightarrow> trace_node" where
  "node_from r = TraceNode (info_from r) []"

definition synthetic_node :: "uuid option \<Rightarrow> db_text \<Rightarrow> db_text \<Rightarrow> span_status \<Rightarrow> int \<Rightarrow> trace_node" where
  "synthetic_node parent name kind st attempt =
     TraceNode \<lparr>ti_span_id = None, ti_parent = parent, ti_name = name, ti_kind = kind, ti_status = st, ti_attempt = attempt, ti_output = None,
       ti_error = [], ti_started = None, ti_finished = None, ti_duration = None\<rparr> []"

text \<open>The node with the child attached below the first node of that identifier, if there is one.\<close>

fun attach_child :: "trace_node \<Rightarrow> uuid \<Rightarrow> trace_node \<Rightarrow> trace_node option"
  and attach_among :: "trace_node list \<Rightarrow> uuid \<Rightarrow> trace_node \<Rightarrow> trace_node list option" where
  "attach_child (TraceNode i cs) parent_id child =
     (if ti_span_id i = Some parent_id then Some (TraceNode i (cs @ [child]))
      else map_option (TraceNode i) (attach_among cs parent_id child))"
| "attach_among [] parent_id child = None"
| "attach_among (c # cs) parent_id child =
     (case attach_child c parent_id child of
        Some c' \<Rightarrow> Some (c' # cs)
      | None \<Rightarrow> map_option (Cons c) (attach_among cs parent_id child))"

fun push_child :: "trace_node \<Rightarrow> trace_node \<Rightarrow> trace_node" where
  "push_child (TraceNode i cs) child = TraceNode i (cs @ [child])"

definition synthetic_status :: "parse_status \<Rightarrow> span_status" where
  "synthetic_status p =
     (case p of PsCompleted \<Rightarrow> SpDone | PsFailed \<Rightarrow> SpFailed | PsCancelled \<Rightarrow> SpCancelled | PsDeleting \<Rightarrow> SpCancelled | PsDeleted \<Rightarrow> SpCancelled
      | _ \<Rightarrow> SpPending)"

definition add_row :: "uuid option \<Rightarrow> span \<Rightarrow> trace_node \<Rightarrow> trace_node" where
  "add_row root_id r root =
     (if root_id = Some (span_id r) then root
      else case span_parent r of
        Some pid \<Rightarrow>
          if span_parent r = root_id then push_child root (node_from r)
          else (case attach_child root pid (node_from r) of Some root' \<Rightarrow> root' | None \<Rightarrow> push_child root (node_from r))
      | None \<Rightarrow> if span_kind_text r \<noteq> ''root'' then push_child root (node_from r) else root)"

definition build_trace :: "int \<Rightarrow> parse_status \<Rightarrow> span list \<Rightarrow> trace_node \<times> db_text \<times> span option" where
  "build_trace attempt parse rows =
     (let synthetic = synthetic_status parse;
          current_stage = (case find (\<lambda>r. span_kind_text r = ''stage'' \<and> span_state r = SpRunning \<and> span_name r \<noteq> []) rows of None \<Rightarrow> [] | Some r \<Rightarrow> span_name r);
          last_fail = find (\<lambda>r. span_state r = SpFailed) (rev rows);
          root = (case find (\<lambda>r. span_kind_text r = ''root'') rows of
                    Some r \<Rightarrow> node_from r | None \<Rightarrow> synthetic_node None root_name ''root'' synthetic attempt);
          root_id = ti_span_id (node_info root);
          tree = fold (add_row root_id) rows root;
          seen = map span_name (filter (\<lambda>r. root_id \<noteq> Some (span_id r) \<and> span_kind_text r = ''stage'') rows)
      in (fold (\<lambda>name t. push_child t (synthetic_node root_id name ''stage'' synthetic attempt)) (filter (\<lambda>n. n \<notin> set seen) all_stages) tree,
          current_stage, last_fail))"

end
