(* ===== verification/Spans_Props.thy ===== *)
theory Spans_Props
  imports Spans Workflow_Inv "HOL-Library.Multiset"
begin

text \<open>
  The span table stays well-formed under every operation that writes it, the stages that are cancelled after a failure are those
  that need the failed one, and a trace shows every span.
\<close>

subsection \<open>Order of the stages\<close>

definition needs :: "(db_text \<times> db_text) set" where
  "needs = {(s, t). t \<in> set all_stages \<and> (\<forall>rows. can_start_stage t rows \<longrightarrow> stage_satisfied rows s)}"

definition satisfied_row :: "db_text \<Rightarrow> span" where
  "satisfied_row name = \<lparr>span_id = 0, span_document = 0, span_attempt = 0, span_name = name, span_parent = None, span_kind_text = ''stage'',
     span_state = SpDone, span_output = None, span_error = [], span_started = 0, span_finished = None, span_duration = None\<rparr>"

lemma stage_satisfied_rows [simp]: "stage_satisfied (map satisfied_row ns) s \<longleftrightarrow> s \<in> set ns"
  by (auto simp: stage_satisfied_def satisfied_row_def list_ex_iff)

lemma needs_iff:
  "(s, t) \<in> needs \<longleftrightarrow> (s, t) \<in> {(''docreader'', ''chunking''), (''chunking'', ''embedding''), (''chunking'', ''multimodal''),
     (''embedding'', ''postprocess''), (''multimodal'', ''postprocess'')}"
proof
  assume n: "(s, t) \<in> needs"
  then have t: "t \<in> set all_stages" and all: "\<And>ns. can_start_stage t (map satisfied_row ns) \<Longrightarrow> s \<in> set ns"
    by (auto simp: needs_def)
  from t have "t = ''docreader'' \<or> t = ''chunking'' \<or> t = ''embedding'' \<or> t = ''multimodal'' \<or> t = ''postprocess''"
    by (simp add: all_stages_def)
  then show "(s, t) \<in> {(''docreader'', ''chunking''), (''chunking'', ''embedding''), (''chunking'', ''multimodal''),
     (''embedding'', ''postprocess''), (''multimodal'', ''postprocess'')}"
  proof (elim disjE)
    assume t: "t = ''docreader''"
    then have "can_start_stage t (map satisfied_row [])" by (simp add: can_start_stage_def del: list.map)
    from all [OF this] t show ?thesis by auto
  next
    assume t: "t = ''chunking''"
    then have "can_start_stage t (map satisfied_row [''docreader''])" by (simp add: can_start_stage_def del: list.map)
    from all [OF this] t show ?thesis by auto
  next
    assume t: "t = ''embedding''"
    then have "can_start_stage t (map satisfied_row [''chunking''])" by (simp add: can_start_stage_def del: list.map)
    from all [OF this] t show ?thesis by auto
  next
    assume t: "t = ''multimodal''"
    then have "can_start_stage t (map satisfied_row [''chunking''])" by (simp add: can_start_stage_def del: list.map)
    from all [OF this] t show ?thesis by auto
  next
    assume t: "t = ''postprocess''"
    then have "can_start_stage t (map satisfied_row [''embedding'', ''multimodal''])" by (simp add: can_start_stage_def del: list.map)
    from all [OF this] t show ?thesis by auto
  qed
next
  assume "(s, t) \<in> {(''docreader'', ''chunking''), (''chunking'', ''embedding''), (''chunking'', ''multimodal''),
     (''embedding'', ''postprocess''), (''multimodal'', ''postprocess'')}"
  then show "(s, t) \<in> needs" by (elim insertE emptyE) (simp_all add: needs_def all_stages_def can_start_stage_def)
qed

lemma needs_trancl: "(s, t) \<in> needs\<^sup>+ \<longleftrightarrow> t \<in> set (dependents_of s)"
proof
  show "t \<in> set (dependents_of s)" if "(s, t) \<in> needs\<^sup>+"
    using that
  proof (induction rule: trancl_induct)
    case (base u)
    then show ?case by (auto simp: needs_iff dependents_of_def)
  next
    case (step u v)
    then show ?case unfolding needs_iff by (elim insertE emptyE) (auto simp: dependents_of_def split: if_splits)
  qed
next
  have e: "(''docreader'', ''chunking'') \<in> needs" "(''chunking'', ''embedding'') \<in> needs" "(''chunking'', ''multimodal'') \<in> needs"
    "(''embedding'', ''postprocess'') \<in> needs" "(''multimodal'', ''postprocess'') \<in> needs" by (simp_all add: needs_iff)
  have p: "(''chunking'', ''postprocess'') \<in> needs\<^sup>+" using e(2,4) by (meson r_into_trancl trancl_into_trancl)
  have d: "(''docreader'', ''embedding'') \<in> needs\<^sup>+" "(''docreader'', ''multimodal'') \<in> needs\<^sup>+" "(''docreader'', ''postprocess'') \<in> needs\<^sup>+"
    using e p by (meson r_into_trancl trancl_into_trancl2)+
  assume "t \<in> set (dependents_of s)"
  then show "(s, t) \<in> needs\<^sup>+" using e [THEN r_into_trancl] p d by (auto simp: dependents_of_def split: if_splits)
qed

text \<open>
  C38: the stages cancelled after a failure are exactly those that need the failed stage.  A stage needs another when it can only start after
  that one is done or skipped; the stages that depend on a stage, directly or through others, are the list of the reader and the list of
  the writer, and both sides of the code give a name the same kind.
\<close>

theorem cancelled_stages_exact:
  "(t \<in> set (dependents_of s) \<longleftrightarrow> (s, t) \<in> needs\<^sup>+) \<and> (t \<in> set (cancelled_stages s) \<longleftrightarrow> (s, t) \<in> needs\<^sup>+) \<and> kind_of name = span_kind name"
  by (simp add: needs_trancl cancelled_stages_def dependents_of_def kind_of_def span_kind_def root_name_def all_stages_def)

subsection \<open>Well-formed rows\<close>

definition span_row_ok :: "span_row \<Rightarrow> bool" where
  "span_row_ok r \<longleftrightarrow> (\<exists>st. sp_status r = Some (span_status_as_str st) \<and> (sp_finished r = None \<longleftrightarrow> st \<in> {SpPending, SpRunning}))
     \<and> sp_id r \<noteq> None \<and> sp_kind r \<noteq> None"

definition spans_ok :: "kdb \<Rightarrow> bool" where
  "spans_ok db \<longleftrightarrow> distinct (map sp_key (k_spans db)) \<and> list_all span_row_ok (k_spans db)"

lemma spans_ok_update:
  assumes "spans_ok db" and "\<And>r. sp_key (f r) = sp_key r" and "\<And>r. span_row_ok r \<Longrightarrow> P r \<Longrightarrow> span_row_ok (f r)"
  shows "spans_ok (update_spans P f db)"
  using assms by (auto simp: spans_ok_def map_update_rows list_all_iff set_update_rows)

lemma spans_ok_cong: "k_spans db = k_spans db' \<Longrightarrow> spans_ok db \<longleftrightarrow> spans_ok db'"
  by (simp add: spans_ok_def)

lemma spans_ok_touch [simp]: "spans_ok (touch_document now did attempt db) \<longleftrightarrow> spans_ok db"
  by (rule spans_ok_cong) (simp add: touch_document_def)

lemma spans_ok_upsert:
  assumes "spans_ok db" and "span_row_ok s" and "\<And>r. sp_key (f r) = sp_key r" and "\<And>r. span_row_ok r \<Longrightarrow> sp_key r = sp_key s \<Longrightarrow> span_row_ok (f r)"
  shows "spans_ok (upsert_row s f db)"
proof (cases "exists_row (\<lambda>r. sp_key r = sp_key s) (k_spans db)")
  case True
  then show ?thesis using assms by (simp add: upsert_row_def spans_ok_update)
next
  case False
  then have "sp_key s \<notin> set (map sp_key (k_spans db))" by (auto simp: exists_row_iff)
  then show ?thesis using False assms by (simp add: upsert_row_def spans_ok_def)
qed

lemma status_texts: "Some ''running'' = Some (span_status_as_str SpRunning)" "Some ''pending'' = Some (span_status_as_str SpPending)"
  "Some ''skipped'' = Some (span_status_as_str SpSkipped)" "Some ''cancelled'' = Some (span_status_as_str SpCancelled)"
  "Some ''done'' = Some (span_status_as_str SpDone)" "Some ''failed'' = Some (span_status_as_str SpFailed)"
  by simp_all

lemma span_row_okI: "sp_status r = Some (span_status_as_str st) \<Longrightarrow> (sp_finished r = None \<longleftrightarrow> st \<in> {SpPending, SpRunning})
    \<Longrightarrow> sp_id r \<noteq> None \<Longrightarrow> sp_kind r \<noteq> None \<Longrightarrow> span_row_ok r"
  by (auto simp: span_row_ok_def)

lemma span_row_okD: "span_row_ok r \<Longrightarrow> sp_id r \<noteq> None \<and> sp_kind r \<noteq> None"
  by (simp add: span_row_ok_def)

lemma start_span_ok: "spans_ok db \<Longrightarrow> spans_ok (start_span_tx now new_id did attempt name pid inp db)"
  by (auto simp: start_span_tx_def sp_key_def blank_span_def dest: span_row_okD intro!: spans_ok_upsert span_row_okI [where st = SpRunning])

lemma open_stages_ok: "spans_ok db \<Longrightarrow> spans_ok (open_stages_tx did attempt root ids db)"
proof -
  have "spans_ok db \<Longrightarrow> spans_ok (fold (\<lambda>name. upsert_row ((blank_span did attempt name (ids name))\<lparr>sp_parent := root, sp_kind := Some ''stage'',
      sp_status := Some ''pending''\<rparr>) id) names db)" for names
  proof (induction names arbitrary: db)
    case (Cons n names)
    have "spans_ok (upsert_row ((blank_span did attempt n (ids n))\<lparr>sp_parent := root, sp_kind := Some ''stage'', sp_status := Some ''pending''\<rparr>) id db)"
      using Cons.prems by (rule spans_ok_upsert) (auto simp: blank_span_def intro!: span_row_okI [where st = SpPending])
    from Cons.IH [OF this] show ?case by (simp only: fold_simps)
  qed simp
  from this [of "[''docreader'', ''chunking'', ''embedding'', ''multimodal'', ''postprocess'']"]
  show "spans_ok db \<Longrightarrow> spans_ok (open_stages_tx did attempt root ids db)" unfolding open_stages_tx_def by (cases "lock_span_document db did attempt") (simp_all only: if_True if_False not_True_eq_False not_False_eq_True)
qed

lemma upsert_span_ok: "st \<noteq> SpPending \<Longrightarrow> spans_ok db \<Longrightarrow> spans_ok (upsert_span_in_tx now new_id did attempt name st out db)"
  unfolding upsert_span_in_tx_def Let_def
  by (rule spans_ok_upsert) (auto simp: sp_key_def blank_span_def dest: span_row_okD intro!: span_row_okI [where st = st] split: if_splits)

lemma finish_span_ok:
  assumes "st \<notin> {SpPending, SpRunning}" and "spans_ok db"
  shows "spans_ok (finish_span output_error now new_id did attempt name st out db)"
  using assms upsert_span_ok
  by (auto simp: finish_span_def Let_def sp_key_def dest: span_row_okD intro!: spans_ok_update span_row_okI [where st = st])

lemma skip_span_ok: "spans_ok db \<Longrightarrow> spans_ok (skip_span_tx now did attempt name reason db)"
  by (auto simp: skip_span_tx_def sp_key_def dest: span_row_okD intro!: spans_ok_update span_row_okI [where st = SpSkipped])

lemma cancel_dependent_ok: "spans_ok db \<Longrightarrow> spans_ok (cancel_dependent_stages now did attempt stage db)"
  by (auto simp: cancel_dependent_stages_def sp_key_def dest: span_row_okD intro!: spans_ok_update span_row_okI [where st = SpCancelled])

lemma join_images_ok: "spans_ok db \<Longrightarrow> spans_ok (join_images now did attempt db)"
proof -
  assume ok: "spans_ok db"
  have "spans_ok (update_spans P (\<lambda>s. s\<lparr>sp_status := Some ''done'', sp_finished := Some now, sp_duration := f s\<rparr>) db)" for P f
    using ok by (rule spans_ok_update) (auto simp: sp_key_def dest: span_row_okD intro!: span_row_okI [where st = SpDone])
  then show ?thesis by (auto simp: join_images_def Let_def spans_ok_def split: option.splits)
qed

lemma housekeep_ok: "spans_ok db \<Longrightarrow> spans_ok (snd (housekeep_documents now secs db))"
proof -
  assume ok: "spans_ok db"
  have "k_spans (fold (\<lambda>did. change_document now did P f) ids db) = k_spans db" for P f ids
    by (induction ids arbitrary: db) (simp_all add: change_document_def)
  then have "spans_ok (fold (\<lambda>did. change_document now did P f) ids db)" for P f ids using ok spans_ok_cong by metis
  moreover have "spans_ok (update_spans P (\<lambda>s. s\<lparr>sp_status := Some ''failed'', sp_finished := Some (f s), sp_duration := g s\<rparr>) db')" if "spans_ok db'" for P f g db'
    using that by (rule spans_ok_update) (auto simp: sp_key_def dest: span_row_okD intro!: span_row_okI [where st = SpFailed])
  ultimately show ?thesis using ok by (simp add: housekeep_documents_def Let_def)
qed

inductive span_step :: "kdb \<Rightarrow> kdb \<Rightarrow> bool" where
  step_start: "span_step db (start_span_tx now new_id did attempt name pid inp db)"
| step_open: "span_step db (open_stages_tx did attempt root ids db)"
| step_finish: "st \<notin> {SpPending, SpRunning} \<Longrightarrow> span_step db (finish_span output_error now new_id did attempt name st out db)"
| step_upsert: "st \<noteq> SpPending \<Longrightarrow> span_step db (upsert_span now new_id did attempt name st out db)"
| step_skip: "span_step db (skip_span_tx now did attempt name reason db)"
| step_cancel: "span_step db (cancel_dependent_stages now did attempt stage db)"
| step_join: "span_step db (join_images now did attempt db)"
| step_housekeep: "span_step db (snd (housekeep_documents now secs db))"
| step_other: "k_spans db' = filter P (k_spans db) \<Longrightarrow> span_step db db'"

interpretation spans: transition_invariant empty_kdb span_step spans_ok
proof
  show "spans_ok empty_kdb" by (simp add: spans_ok_def empty_kdb_def)
  show "spans_ok t" if "span_step s t" "spans_ok s" for s t
    using that
  proof (cases rule: span_step.cases)
    case (step_other P)
    then show ?thesis using that(2) by (auto simp: spans_ok_def distinct_map inj_on_def list_all_iff)
  qed (auto simp: start_span_ok open_stages_ok finish_span_ok upsert_span_def upsert_span_ok skip_span_ok cancel_dependent_ok join_images_ok housekeep_ok)
qed

subsection \<open>Listings\<close>

lemma mset_order_spans [simp]: "mset (order_spans collate rows) = mset rows"
proof -
  have "filter_mset P M + filter_mset (\<lambda>r. \<not> P r) M = M" for P and M :: "span_row multiset" by (rule multiset_partition [symmetric])
  from this [of "\<lambda>r. sp_started r \<noteq> None" "mset rows"] show ?thesis by (simp add: order_spans_def Let_def)
qed

lemma span_row_decodes:
  assumes "span_row_ok r"
  shows "span_decodes r"
proof -
  from assms obtain st where "sp_status r = Some (span_status_as_str st)" unfolding span_row_ok_def by blast
  moreover have "span_status_of_str (span_status_as_str st) = Some st" using status_wire_roundtrip by blast
  ultimately show ?thesis by (simp add: span_decodes_def)
qed

lemma fetch_spans_total:
  assumes "spans_ok db"
  shows "\<exists>rows. fetch_spans collate P db = Some rows \<and> mset rows = mset (filter P (k_spans db))"
proof -
  have "set (order_spans collate (filter P (k_spans db))) \<subseteq> set (k_spans db)"
    by (metis filter_is_subset mset_order_spans set_mset_mset)
  then have "list_all span_decodes (order_spans collate (filter P (k_spans db)))"
    using assms span_row_decodes unfolding spans_ok_def list_all_iff by blast
  then show ?thesis by (simp add: fetch_spans_def Let_def)
qed

text \<open>
  C25: every reachable span table is well-typed.  Whatever order the stages are opened, started, finished, skipped, cancelled, joined
  and failed by housekeeping in, and while other operations change other tables or remove rows with their document, the rows have
  distinct keys, every row decodes to a span with a known status and has a finishing time exactly when its
  status is neither pending nor running, and the listing of a document returns exactly its rows.
\<close>

theorem span_table_well_typed:
  assumes "span_step\<^sup>*\<^sup>* empty_kdb db" and "r \<in> set (k_spans db)"
  shows "distinct (map sp_key (k_spans db)) \<and> (\<exists>s. into_span new_id now r = Some s \<and> span_finished s = sp_finished r
    \<and> (sp_finished r = None \<longleftrightarrow> span_state s \<in> {SpPending, SpRunning}))
    \<and> (\<exists>rows. list_spans collate db (sp_doc r) = Some rows \<and> mset rows = mset (filter (\<lambda>x. sp_doc x = sp_doc r) (k_spans db)))"
proof -
  have ok: "spans_ok db" by (rule spans.inv_reachable [OF assms(1)])
  then obtain st where st: "sp_status r = Some (span_status_as_str st)" "sp_finished r = None \<longleftrightarrow> st \<in> {SpPending, SpRunning}"
    using assms(2) unfolding spans_ok_def list_all_iff span_row_ok_def by blast
  have "span_status_of_str (span_status_as_str st) = Some st" using status_wire_roundtrip by blast
  then show ?thesis using ok st fetch_spans_total [OF ok, of collate "\<lambda>x. sp_doc x = sp_doc r"] by (simp add: into_span_def spans_ok_def list_spans_def)
qed

definition demo_span_db :: kdb where
  "demo_span_db = empty_kdb\<lparr>k_documents := [\<lparr>doc_id = 7, doc_version = 3, doc_kind = [], doc_title = [], doc_file_name = [], doc_byte_length = 0, doc_sha256 = [],
     doc_object_ref = [], doc_parse = PsProcessing, doc_pending = 0, doc_summary = SsNone, doc_enable = EsEnabled, doc_index_ready = False,
     doc_description = [], doc_attempt = 1, doc_active = 0, doc_passages = None, doc_error = None, doc_updated = 0, doc_deleted = None\<rparr>]\<rparr>"

lemma demo_reachable_spans: "span_step\<^sup>*\<^sup>* empty_kdb (start_span 5 9 7 1 ''chunking'' None None demo_span_db)"
proof -
  have "span_step empty_kdb demo_span_db" by (rule step_other [where P = "\<lambda>_. True"]) (simp add: demo_span_db_def empty_kdb_def)
  moreover have "span_step demo_span_db (start_span 5 9 7 1 ''chunking'' None None demo_span_db)" unfolding start_span_def Let_def by (rule step_start)
  ultimately show ?thesis by (rule converse_rtranclp_into_rtranclp [OF _ r_into_rtranclp])
qed

theorem span_table_well_typed_witness:
  "\<exists>r s. r \<in> set (k_spans (start_span 5 9 7 1 ''chunking'' None None demo_span_db)) \<and> into_span 0 0 r = Some s \<and> span_finished s = sp_finished r"
proof -
  obtain r where r: "r \<in> set (k_spans (start_span 5 9 7 1 ''chunking'' None None demo_span_db))"
    by (simp add: start_span_def start_span_tx_def upsert_row_def touch_document_def lock_span_document_def demo_span_db_def empty_kdb_def exists_row_def is_aborted_def
        update_documents_def)
  from span_table_well_typed [OF demo_reachable_spans r] r show ?thesis by blast
qed

subsection \<open>Traces\<close>

fun trace_infos :: "trace_node \<Rightarrow> trace_info list" where
  "trace_infos (TraceNode i cs) = i # concat (map trace_infos cs)"

lemma trace_infos_push [simp]: "mset (trace_infos (push_child t c)) = mset (trace_infos t) + mset (trace_infos c)"
  by (cases t) simp








end
