(* ===== verification/Spec2Isabelle.thy ===== *)
theory Spec2Isabelle
  imports Workflow_Props Source_Locators Images_Props Frame_Props Evidence_Replay Sse_Props Wiki_Linkify_Props Spans_Props
begin

text \<open>
  KnowledgeBrain ingests documents of product versions, cuts them into chunks, indexes the chunks and retrieves evidence for
  requirements from them.  The Rust workspace under \<^verbatim>\<open>src/crates\<close> has the crates \<^verbatim>\<open>platform\<close> (database, object registry, queue),
  \<^verbatim>\<open>docparser\<close> (conversion to markdown with a source contract), \<^verbatim>\<open>knowledge\<close> (workflow, chunker, indexes, retrieval), \<^verbatim>\<open>worker\<close>,
  \<^verbatim>\<open>api\<close> and \<^verbatim>\<open>retention\<close>.  This library models the parts that hold the core logic and proves what makes them correct.

  \<^bold>\<open>How the parts interact.\<close>  An upload is staged in the object registry; inserting a document takes over the reference and, in
  the same transaction, owes a conversion job to the outbox.  Workers convert the document (images are rewritten to content
  addresses and the source contract follows the text), split it (adaptive chunker), attach the source units to the chunks
  and stage the index.  Derived jobs complete with receipts; the last one publishes the generation.  Retrieval reads a snapshot of
  published generations under a frozen policy and returns a validated batch of evidence.

  \<^bold>\<open>Conventions.\<close>  A fallible operation returns \<open>'e + 'a\<close> with the error on the left; a transaction is a function on a record of
  tables and a rolled back transaction returns \<open>Inl\<close>.  Strings are lists of Unicode scalar values (\<open>rstr\<close>, theory \<open>Rust_Text\<close>), with
  byte offsets where the code has them.  \<open>u32\<close> and \<open>u128\<close> values keep the overflow checks of the code, doubles are either bit patterns
  (\<open>Table_Grid\<close>) or rounded numbers (\<open>F64\<close>).  Times are integers in microseconds, identifiers are natural numbers with \<open>0\<close> for the nil UUID.
  Error messages leave out interpolated values.

  \<^bold>\<open>Theories.\<close>
  \<^item> \<open>Kb_Prelude\<close>, \<open>Rust_Text\<close>, \<open>F64\<close>: the error monad, rows of tables, the locale of invariants of a step relation, the text and number
    types of Rust.
  \<^item> \<open>Status\<close> (\<^verbatim>\<open>knowledge/src/status.rs\<close>): every enumeration with its wire text.
  \<^item> \<open>Object_Registry\<close> (\<^verbatim>\<open>platform/src/object_registry.rs\<close>, \<^verbatim>\<open>object_registry/lifecycle.rs\<close>): objects, references, staged uploads,
    deletion requests and receipts, and the cleanup tracker.  Over every interleaving of operations an object is available
    exactly when something references it, is never revived once it leaves that state, and its blob is deleted only behind the preflight.
  \<^item> \<open>Knowledge_Db\<close>, \<open>Workflow\<close>, \<open>Documents\<close> (\<^verbatim>\<open>knowledge/src/workflow.rs\<close>, \<^verbatim>\<open>workflow/lifecycle.rs\<close>, \<^verbatim>\<open>catalog/document.rs\<close>, \<^verbatim>\<open>catalog/chunks.rs\<close>): the
    tables, the transactional outbox, receipts, generations, dispatch and housekeeping.  \<open>Workflow_Inv\<close> and \<open>Workflow_Steps\<close> prove the
    invariant for each operation; \<open>Workflow_Props\<close> has the transition system with fencing of stale workers, exactly-once receipts,
    publication, retry and failure.
  \<^item> \<open>Header_Tracker\<close>, \<open>Splitter\<close>, \<open>Chunk_Profile\<close>, \<open>Heading_Split\<close>, \<open>Heuristic_Split\<close>, \<open>Chunk_Strategy\<close> (\<^verbatim>\<open>knowledge/src/chunker\<close>): the three tiers of the
    chunker and its entry points.  \<open>Chunk_Spec\<close> states the contract of a tier as a locale; \<open>Splitter_Props\<close>, \<open>Heading_Props\<close>,
    \<open>Heuristic_Props\<close> and \<open>Chunk_Strategy_Props\<close> interpret it: no character that is not white space is lost, offsets are right, sizes
    are bounded.  \<open>Chunk_Profile_Props\<close> shows that decisions on doubles agree with rational arithmetic.
  \<^item> \<open>Table_Grid\<close>, \<open>Source_Contract\<close>, \<open>Images\<close> (\<^verbatim>\<open>docparser/src/table_grid.rs\<close>, \<^verbatim>\<open>types.rs\<close>, \<^verbatim>\<open>source_contract.rs\<close>, \<^verbatim>\<open>images.rs\<close>): grids, the
    source contract and the rewriting of images.  \<open>Table_Grid_Props\<close> refines validation to tilings, \<open>Frame_Props\<close> shows that
    digest frames are injective, \<open>Replace_Props\<close> and \<open>Source_Contract_Props\<close> that spans follow replaced text, \<open>Images_Props\<close> that the contract
    stays valid, \<open>Source_Locators\<close> that chunking and annotation together report every unit.
  \<^item> \<open>Evidence_Ranking\<close>, \<open>Evidence_Batch\<close>, \<open>Retrieval_Policy\<close>, \<open>Evidence_Recall\<close>, \<open>Evidence_Retrieve\<close> (\<^verbatim>\<open>knowledge/src/knowledge_retrieval.rs\<close>,
    \<^verbatim>\<open>knowledge_retrieval_pg\<close>): exact and semantic retrieval of contract v2, policy artifacts, registries and frozen requests.
    \<open>Evidence_Select_Props\<close>, \<open>Evidence_Batch_Props\<close>, \<open>Retrieval_Policy_Props\<close>, \<open>Evidence_Recall_Props\<close>, \<open>Evidence_Retrieval_Props\<close> and \<open>Evidence_Replay\<close>
    show fairness and quotas of the exact prefix, exact fusion, determinism, that a batch never fails its own validation, and that frozen
    requests replay.
  \<^item> \<open>Sse_Stream\<close> (\<^verbatim>\<open>knowledge/src/models/sse.rs\<close>): event streams of model providers.  \<open>Sse_Props\<close> shows that the incremental reader does not depend on the cuts
    of the transport and agrees with the collector of complete bodies.
  \<^item> \<open>Wiki_Linkify\<close> (\<^verbatim>\<open>knowledge/src/wiki/linkify.rs\<close>): links between wiki pages.  \<open>Wiki_Linkify_Props\<close> shows that only safe mentions are wrapped.
  \<^item> \<open>Spans\<close> (\<^verbatim>\<open>knowledge/src/catalog/spans.rs\<close>, \<^verbatim>\<open>obs.rs\<close>): the span table and traces.  \<open>Spans_Props\<close> has its typing invariant, the stage order
    and what a trace contains.

  \<^bold>\<open>Parameters.\<close>  The regular expressions of the chunker (with the documented behaviour of \<^verbatim>\<open>find_iter\<close>: ordered, disjoint,
  on character boundaries), SHA-256, JSON codecs, the results of reading a stream, generated identifiers, the collation of the database, \<^verbatim>\<open>char::to_lowercase\<close>, the outcome of an HTTP call or of a download, the scores of
  the full-text and vector operators, the iteration order of hash containers.

  \<^bold>\<open>Bounds.\<close>  Texts are shorter than \<open>2 ^ 40\<close> characters where doubles are compared with rationals (counts are then exact in a double).
  No definition needs fuel: loops are structural recursion or have a measure.

  \<^bold>\<open>Not modelled.\<close>  HTTP routes, authentication and the tender editor of \<^verbatim>\<open>api\<close>; clients of S3, Redis, Neo4j, gRPC and
  model providers; the worker runtime and the release, migration and retention programs; wiki generation except its links, enrichment prompts,
  graph extraction, the v1 search and the v1 evidence contract, version cloning and the writers of the semantic index; the
  Python document reader and the web client, which are other languages.  These are I/O or calls of external services around the logic
  above, or further features that do not change the state modelled here.
\<close>

end
